(* ===== verification/Prelude.thy ===== *)
theory Prelude
  imports Main "HOL-Library.Word"
begin

text \<open>
  Shared material of the development: the types of the C values the extension works on, the C
  library string functions it uses (as functions on character lists), an explicit outcome for
  undefined behaviour, and the generic lemmas the component theories rely on.

  A \<open>zend_string\<close> or a counted buffer is a \<^typ>\<open>string\<close> (a list of 8-bit characters, possibly
  with NUL bytes inside); where the code reads such a buffer as a NUL-terminated string the model
  applies \<open>c_str\<close>.
\<close>

unbundle bit_operations_syntax

named_theorems dd_defs \<open>definitions unfolded when a component is evaluated\<close>
named_theorems scan_simps \<open>equations of the scanning functions on concrete prefixes\<close>

type_synonym byte = "8 word"
type_synonym zend_string = string
type_synonym u16 = "16 word"
type_synonym u32 = "32 word"
type_synonym u64 = "64 word"

section \<open>Results and undefined behaviour\<close>

text \<open>
  \<open>dd_result\<close> of dddefs.h, with its constructors in the order of the enumeration.
\<close>

datatype dd_result =
    dd_success
  | dd_network
  | dd_should_block
  | dd_should_redirect
  | dd_error
  | dd_try_later
  | dd_helper_error

fun dd_result_to_string :: "dd_result \<Rightarrow> string" where
  "dd_result_to_string dd_success = ''dd_success''"
| "dd_result_to_string dd_network = ''dd_network''"
| "dd_result_to_string dd_should_block = ''dd_should_block''"
| "dd_result_to_string dd_error = ''dd_error''"
| "dd_result_to_string dd_try_later = ''dd_try_later''"
| "dd_result_to_string dd_helper_error = ''dd_helper_error''"
| "dd_result_to_string _ = ''unknown''"

text \<open>\<open>enabled_configuration\<close> of src/extension/ddappsec.h.\<close>

datatype enabled_configuration = NOT_CONFIGURED | ENABLED | DISABLED

text \<open>An operation of the C program either has a value or its behaviour is undefined.\<close>

datatype 'a outcome = Defined (the_value: 'a) | Undefined

section \<open>C string functions\<close>

abbreviation nul :: char where
  "nul \<equiv> CHR 0x00"

abbreviation space :: char where
  "space \<equiv> CHR 0x20"

text \<open>A buffer read up to its first NUL; \<open>strlen\<close> is the length of that.\<close>

definition c_str :: "string \<Rightarrow> string" where
  "c_str s = takeWhile (\<lambda>c. c \<noteq> nul) s"

text \<open>\<open>memchr\<close> and \<open>zend_memrchr\<close>: the index of the first and of the last occurrence.\<close>

fun memchr :: "char \<Rightarrow> string \<Rightarrow> nat option" where
  "memchr c [] = None"
| "memchr c (x # xs) = (if x = c then Some 0 else map_option Suc (memchr c xs))"

fun memrchr :: "char \<Rightarrow> string \<Rightarrow> nat option" where
  "memrchr c [] = None"
| "memrchr c (x # xs) =
     (case memrchr c xs of
        Some i \<Rightarrow> Some (Suc i)
      | None \<Rightarrow> if x = c then Some 0 else None)"

text \<open>\<open>for (; p < end \<and> *p == ' '; p++)\<close>\<close>

definition skip_spaces :: "string \<Rightarrow> string" where
  "skip_spaces s = dropWhile (\<lambda>c. c = space) s"

text \<open>\<open>memmem\<close>: the index of the first occurrence of a needle.\<close>

fun is_prefix :: "string \<Rightarrow> string \<Rightarrow> bool" where
  "is_prefix [] s = True"
| "is_prefix (p # ps) [] = False"
| "is_prefix (p # ps) (c # cs) = (p = c \<and> is_prefix ps cs)"

fun memmem :: "string \<Rightarrow> string \<Rightarrow> nat option" where
  "memmem [] needle = (if needle = [] then Some 0 else None)"
| "memmem (c # cs) needle =
     (if is_prefix needle (c # cs) then Some 0 else map_option Suc (memmem cs needle))"

text \<open>Decimal digits, as \<open>%u\<close> prints them.\<close>

function nat_dec :: "nat \<Rightarrow> string" where
  "nat_dec n = (if n < 10 then [char_of (48 + n)] else nat_dec (n div 10) @ [char_of (48 + n mod 10)])"
  by pat_completeness auto
termination by (relation "measure id") auto

declare nat_dec.simps [simp del]

text \<open>A signed number in decimal, as \<open>ZEND_LTOA\<close>, \<open>%d\<close> and the conversion of a long to a string print it.\<close>

definition int_dec :: "int \<Rightarrow> string" where
  "int_dec n = (if n < 0 then ''-'' else []) @ nat_dec (nat \<bar>n\<bar>)"

section \<open>Lemmas on the string functions\<close>

lemma c_str_no_nul [simp]: "nul \<notin> set (c_str s)"
  by (auto simp: c_str_def dest: set_takeWhileD)

lemma c_str_id [simp]: "nul \<notin> set s \<Longrightarrow> c_str s = s"
  by (auto simp: c_str_def takeWhile_eq_all_conv)

lemma c_str_idem [simp]: "c_str (c_str s) = c_str s"
  by simp

lemma length_c_str_le: "length (c_str s) \<le> length s"
  by (simp add: c_str_def length_takeWhile_le)

lemma memchr_None [simp]: "memchr c s = None \<longleftrightarrow> c \<notin> set s"
  by (induction s) auto

lemma memchr_takeWhile:
  "memchr c s = Some i \<Longrightarrow> take i s = takeWhile (\<lambda>x. x \<noteq> c) s"
  by (induction s arbitrary: i) (auto split: if_splits)

lemma memchr_bound: "memchr c s = Some i \<Longrightarrow> i < length s"
  by (induction s arbitrary: i) (auto split: if_splits)

lemma memchr_nth: "memchr c s = Some i \<Longrightarrow> s ! i = c"
  by (induction s arbitrary: i) (auto split: if_splits)

lemma memchr_append_fresh [scan_simps]:
  "c \<notin> set xs \<Longrightarrow> memchr c (xs @ c # ys) = Some (length xs)"
  by (induction xs) auto

lemma memrchr_None [simp]: "memrchr c s = None \<longleftrightarrow> c \<notin> set s"
  by (induction s) (auto split: option.splits)

lemma memrchr_append_fresh [scan_simps]:
  "c \<notin> set ys \<Longrightarrow> memrchr c (xs @ c # ys) = Some (length xs)"
  by (induction xs) (auto split: option.splits)

lemma memrchr_later:
  "c \<in> set ys \<Longrightarrow> memrchr c (xs @ c # ys) \<noteq> Some (length xs)"
  by (induction xs) (auto split: option.splits)

lemma memrchr_bound: "memrchr c s = Some i \<Longrightarrow> i < length s"
  by (induction s arbitrary: i) (auto split: option.splits if_splits)

lemma length_skip_spaces_le: "length (skip_spaces s) \<le> length s"
  by (simp add: skip_spaces_def length_dropWhile_le)

lemma set_skip_spaces: "set (skip_spaces s) \<subseteq> set s"
  unfolding skip_spaces_def by (meson set_dropWhileD subsetI)

lemma skip_spaces_Nil [simp]: "skip_spaces [] = []"
  by (simp add: skip_spaces_def)

lemma skip_spaces_take [simp]: "skip_spaces (take i (skip_spaces v)) = take i (skip_spaces v)"
proof (cases "skip_spaces v")
  case (Cons c cs)
  then have "c \<noteq> space" by (simp add: skip_spaces_def dropWhile_eq_Cons_conv)
  with Cons show ?thesis by (cases i) (simp_all add: skip_spaces_def)
qed simp

lemma is_prefix_iff: "is_prefix p s \<longleftrightarrow> (\<exists>r. s = p @ r)"
  by (induction p s rule: is_prefix.induct) auto

lemma memmem_Some:
  "memmem s needle = Some i \<Longrightarrow> \<exists>a b. s = a @ needle @ b \<and> length a = i"
proof (induction s arbitrary: i)
  case Nil
  then show ?case by (auto split: if_splits)
next
  case (Cons c cs)
  show ?case
  proof (cases "is_prefix needle (c # cs)")
    case True
    with Cons.prems show ?thesis by (auto simp: is_prefix_iff)
  next
    case False
    with Cons.prems obtain j where j: "memmem cs needle = Some j" "i = Suc j"
      by auto
    from Cons.IH [OF j(1)] obtain a b where "cs = a @ needle @ b" "length a = j"
      by blast
    with j show ?thesis by (intro exI [of _ "c # a"] exI [of _ b]) simp
  qed
qed

section \<open>Splitting and searching lists\<close>

text \<open>Reference functions used by the specifications of the scanners.\<close>

fun split_on :: "char \<Rightarrow> string \<Rightarrow> string list" where
  "split_on c [] = [[]]"
| "split_on c (x # xs) =
     (if x = c then [] # split_on c xs
      else (x # hd (split_on c xs)) # tl (split_on c xs))"

fun first_some :: "('a \<Rightarrow> 'b option) \<Rightarrow> 'a list \<Rightarrow> 'b option" where
  "first_some f [] = None"
| "first_some f (x # xs) = (case f x of None \<Rightarrow> first_some f xs | Some y \<Rightarrow> Some y)"

lemma split_on_not_Nil [simp]: "split_on c s \<noteq> []"
  by (cases s) auto

lemma split_on_memchr:
  "split_on c s =
     (case memchr c s of
        None \<Rightarrow> [s]
      | Some i \<Rightarrow> take i s # split_on c (drop (Suc i) s))"
proof (induction s)
  case Nil
  then show ?case by simp
next
  case (Cons x xs)
  then show ?case by (cases "memchr c xs") (auto simp del: memchr_None)
qed

lemma split_on_skip_spaces:
  "c \<noteq> space \<Longrightarrow>
   split_on c (skip_spaces s) = skip_spaces (hd (split_on c s)) # tl (split_on c s)"
  by (induction s) (auto simp: skip_spaces_def)

lemma skip_spaces_idem [simp]: "skip_spaces (skip_spaces s) = skip_spaces s"
  by (simp add: skip_spaces_def)

lemma first_some_None: "first_some f xs = None \<longleftrightarrow> (\<forall>x \<in> set xs. f x = None)"
  by (induction xs) (auto split: option.splits)

lemma first_some_Some:
  "first_some f xs = Some y \<Longrightarrow>
   \<exists>ys x zs. xs = ys @ x # zs \<and> f x = Some y \<and> (\<forall>u \<in> set ys. f u = None)"
proof (induction xs)
  case Nil
  then show ?case by simp
next
  case (Cons x xs)
  show ?case
  proof (cases "f x")
    case None
    with Cons obtain ys z zs where
      "xs = ys @ z # zs" "f z = Some y" "\<forall>u \<in> set ys. f u = None"
      by auto
    with None show ?thesis by (intro exI [of _ "x # ys"] exI [of _ z] exI [of _ zs]) simp
  next
    case (Some w)
    with Cons.prems show ?thesis by (intro exI [of _ "[]"] exI [of _ x] exI [of _ xs]) simp
  qed
qed

lemma first_some_SomeD: "first_some f xs = Some y \<Longrightarrow> \<exists>x \<in> set xs. f x = Some y"
  by (drule first_some_Some) auto

lemma first_some_append:
  "first_some f (xs @ ys) = (case first_some f xs of None \<Rightarrow> first_some f ys | Some y \<Rightarrow> Some y)"
  by (induction xs) (auto split: option.splits)

section \<open>Reading words from bytes\<close>

text \<open>A little-endian load of consecutive bytes, as the hosts the extension supports do it.\<close>

fun load_le :: "byte list \<Rightarrow> 'a::len word" where
  "load_le [] = 0"
| "load_le (b # bs) = ucast b OR push_bit 8 (load_le bs)"

lemma all_bytesI:
  assumes "list_all (\<lambda>n. P (of_nat n)) [0..<256]"
  shows "P (b :: byte)"
proof -
  have "unat b < 256" using unsigned_less [of b] by simp
  moreover have "\<forall>n \<in> {0..<256}. P (of_nat n)" using assms by (simp add: list_all_iff)
  ultimately show ?thesis by (auto dest: bspec [where x = "unat b"])
qed

lemma byte_bit_bound: "bit (b :: byte) n \<Longrightarrow> n < 8"
  by (drule bit_imp_le_length) simp

lemma bit_load_le:
  "bit (load_le bs :: 'a::len word) n \<longleftrightarrow>
     n < LENGTH('a) \<and> n div 8 < length bs \<and> bit (bs ! (n div 8)) (n mod 8)"
proof (induction bs arbitrary: n)
  case Nil
  then show ?case by simp
next
  case (Cons b bs)
  show ?case
  proof (cases "n < 8")
    case True
    then show ?thesis by (auto simp: bit_simps)
  next
    case False
    then obtain m where n: "n = m + 8" by (metis add.commute le_Suc_ex not_less)
    have "(m + 8) div 8 = Suc (m div 8)" by simp
    then show ?thesis
      using Cons.IH [of m] byte_bit_bound [of b n] by (auto simp: bit_simps n)
  qed
qed

lemma load_le_and:
  assumes "length xs = length ys"
  shows "(load_le (map2 (AND) xs ys) :: 'a::len word) = load_le xs AND load_le ys"
  by (rule bit_word_eqI) (auto simp: bit_load_le bit_and_iff assms)

lemma load_le_inject:
  assumes "8 * length xs \<le> LENGTH('a::len)" and "length ys = length xs"
  shows "(load_le xs :: 'a word) = load_le ys \<longleftrightarrow> xs = ys"
proof
  assume eq: "(load_le xs :: 'a word) = load_le ys"
  show "xs = ys"
  proof (rule nth_equalityI)
    show "length xs = length ys" using assms by simp
    fix i assume i: "i < length xs"
    show "xs ! i = ys ! i"
    proof (rule bit_word_eqI)
      fix k assume "k < LENGTH(8)"
      then have k: "k < 8" by simp
      have "bit (load_le xs :: 'a word) (8 * i + k) = bit (load_le ys :: 'a word) (8 * i + k)"
        using eq by simp
      then show "bit (xs ! i) k = bit (ys ! i) k"
        using i k assms by (simp add: bit_load_le)
    qed
  qed
qed simp

text \<open>Masking a loaded word is masking its bytes.\<close>

lemma load_le_masked_eq:
  assumes "8 * length xs \<le> LENGTH('a::len)" "length ms = length xs" "length bs = length xs"
  shows "(load_le xs AND load_le ms :: 'a word) = load_le bs \<longleftrightarrow> map2 (AND) xs ms = bs"
  using load_le_inject [of "map2 (AND) xs ms" bs, where 'a = 'a] assms
  by (simp add: load_le_and)

end
