(* ===== verification/String_Helpers.thy ===== *)
theory String_Helpers
  imports Prelude
begin

text \<open>
  src/extension/string_helpers.c: the two 256-entry translation tables, the case-insensitive
  comparisons against a lower-case literal, and the normalisation of header names.
\<close>

definition header_lc_dash :: "byte list" where
  "header_lc_dash =
     [0x00, 0x01, 0x02, 0x03, 0x04, 0x05, 0x06, 0x07, 0x08, 0x09, 0x0A, 0x0B,
      0x0C, 0x0D, 0x0E, 0x0F, 0x10, 0x11, 0x12, 0x13, 0x14, 0x15, 0x16, 0x17,
      0x18, 0x19, 0x1A, 0x1B, 0x1C, 0x1D, 0x1E, 0x1F, 0x20, 0x21, 0x22, 0x23,
      0x24, 0x25, 0x26, 0x27, 0x28, 0x29, 0x2A, 0x2B, 0x2C, 0x2D, 0x2E, 0x2F,
      0x30, 0x31, 0x32, 0x33, 0x34, 0x35, 0x36, 0x37, 0x38, 0x39, 0x3A, 0x3B,
      0x3C, 0x3D, 0x3E, 0x3F, 0x40, 0x61, 0x62, 0x63, 0x64, 0x65, 0x66, 0x67,
      0x68, 0x69, 0x6A, 0x6B, 0x6C, 0x6D, 0x6E, 0x6F, 0x70, 0x71, 0x72, 0x73,
      0x74, 0x75, 0x76, 0x77, 0x78, 0x79, 0x7A, 0x5B, 0x5C, 0x5D, 0x5E, 0x2D,
      0x60, 0x61, 0x62, 0x63, 0x64, 0x65, 0x66, 0x67, 0x68, 0x69, 0x6A, 0x6B,
      0x6C, 0x6D, 0x6E, 0x6F, 0x70, 0x71, 0x72, 0x73, 0x74, 0x75, 0x76, 0x77,
      0x78, 0x79, 0x7A, 0x7B, 0x7C, 0x7D, 0x7E, 0x7F, 0x80, 0x81, 0x82, 0x83,
      0x84, 0x85, 0x86, 0x87, 0x88, 0x89, 0x8A, 0x8B, 0x8C, 0x8D, 0x8E, 0x8F,
      0x90, 0x91, 0x92, 0x93, 0x94, 0x95, 0x96, 0x97, 0x98, 0x99, 0x9A, 0x9B,
      0x9C, 0x9D, 0x9E, 0x9F, 0xA0, 0xA1, 0xA2, 0xA3, 0xA4, 0xA5, 0xA6, 0xA7,
      0xA8, 0xA9, 0xAA, 0xAB, 0xAC, 0xAD, 0xAE, 0xAF, 0xB0, 0xB1, 0xB2, 0xB3,
      0xB4, 0xB5, 0xB6, 0xB7, 0xB8, 0xB9, 0xBA, 0xBB, 0xBC, 0xBD, 0xBE, 0xBF,
      0xC0, 0xC1, 0xC2, 0xC3, 0xC4, 0xC5, 0xC6, 0xC7, 0xC8, 0xC9, 0xCA, 0xCB,
      0xCC, 0xCD, 0xCE, 0xCF, 0xD0, 0xD1, 0xD2, 0xD3, 0xD4, 0xD5, 0xD6, 0xD7,
      0xD8, 0xD9, 0xDA, 0xDB, 0xDC, 0xDD, 0xDE, 0xDF, 0xE0, 0xE1, 0xE2, 0xE3,
      0xE4, 0xE5, 0xE6, 0xE7, 0xE8, 0xE9, 0xEA, 0xEB, 0xEC, 0xED, 0xEE, 0xEF,
      0xF0, 0xF1, 0xF2, 0xF3, 0xF4, 0xF5, 0xF6, 0xF7, 0xF8, 0xF9, 0xFA, 0xFB,
      0xFC, 0xFD, 0xFE, 0xFF]"

definition lc_table :: "byte list" where
  "lc_table =
     [0x00, 0x01, 0x02, 0x03, 0x04, 0x05, 0x06, 0x07, 0x08, 0x09, 0x0A, 0x0B,
      0x0C, 0x0D, 0x0E, 0x0F, 0x10, 0x11, 0x12, 0x13, 0x14, 0x15, 0x16, 0x17,
      0x18, 0x19, 0x1A, 0x1B, 0x1C, 0x1D, 0x1E, 0x1F, 0x20, 0x21, 0x22, 0x23,
      0x24, 0x25, 0x26, 0x27, 0x28, 0x29, 0x2A, 0x2B, 0x2C, 0x2D, 0x2E, 0x2F,
      0x30, 0x31, 0x32, 0x33, 0x34, 0x35, 0x36, 0x37, 0x38, 0x39, 0x3A, 0x3B,
      0x3C, 0x3D, 0x3E, 0x3F, 0x40, 0x61, 0x62, 0x63, 0x64, 0x65, 0x66, 0x67,
      0x68, 0x69, 0x6A, 0x6B, 0x6C, 0x6D, 0x6E, 0x6F, 0x70, 0x71, 0x72, 0x73,
      0x74, 0x75, 0x76, 0x77, 0x78, 0x79, 0x7A, 0x5B, 0x5C, 0x5D, 0x5E, 0x5F,
      0x60, 0x61, 0x62, 0x63, 0x64, 0x65, 0x66, 0x67, 0x68, 0x69, 0x6A, 0x6B,
      0x6C, 0x6D, 0x6E, 0x6F, 0x70, 0x71, 0x72, 0x73, 0x74, 0x75, 0x76, 0x77,
      0x78, 0x79, 0x7A, 0x7B, 0x7C, 0x7D, 0x7E, 0x7F, 0x80, 0x81, 0x82, 0x83,
      0x84, 0x85, 0x86, 0x87, 0x88, 0x89, 0x8A, 0x8B, 0x8C, 0x8D, 0x8E, 0x8F,
      0x90, 0x91, 0x92, 0x93, 0x94, 0x95, 0x96, 0x97, 0x98, 0x99, 0x9A, 0x9B,
      0x9C, 0x9D, 0x9E, 0x9F, 0xA0, 0xA1, 0xA2, 0xA3, 0xA4, 0xA5, 0xA6, 0xA7,
      0xA8, 0xA9, 0xAA, 0xAB, 0xAC, 0xAD, 0xAE, 0xAF, 0xB0, 0xB1, 0xB2, 0xB3,
      0xB4, 0xB5, 0xB6, 0xB7, 0xB8, 0xB9, 0xBA, 0xBB, 0xBC, 0xBD, 0xBE, 0xBF,
      0xC0, 0xC1, 0xC2, 0xC3, 0xC4, 0xC5, 0xC6, 0xC7, 0xC8, 0xC9, 0xCA, 0xCB,
      0xCC, 0xCD, 0xCE, 0xCF, 0xD0, 0xD1, 0xD2, 0xD3, 0xD4, 0xD5, 0xD6, 0xD7,
      0xD8, 0xD9, 0xDA, 0xDB, 0xDC, 0xDD, 0xDE, 0xDF, 0xE0, 0xE1, 0xE2, 0xE3,
      0xE4, 0xE5, 0xE6, 0xE7, 0xE8, 0xE9, 0xEA, 0xEB, 0xEC, 0xED, 0xEE, 0xEF,
      0xF0, 0xF1, 0xF2, 0xF3, 0xF4, 0xF5, 0xF6, 0xF7, 0xF8, 0xF9, 0xFA, 0xFB,
      0xFC, 0xFD, 0xFE, 0xFF]"

text \<open>\<open>(char)table[(unsigned char)c]\<close>\<close>

definition table_char :: "byte list \<Rightarrow> char \<Rightarrow> char" where
  "table_char t c = char_of (unat (t ! of_char c))"

fun eq_lc_loop :: "string \<Rightarrow> string \<Rightarrow> bool" where
  "eq_lc_loop (c # cmp_lc) (x # s) =
     (if c \<noteq> table_char lc_table x then False else eq_lc_loop cmp_lc s)"
| "eq_lc_loop cmp_lc s = True"

definition dd_string_starts_with_lc :: "string \<Rightarrow> string \<Rightarrow> bool" where
  "dd_string_starts_with_lc s cmp_lc =
     (if length s < length cmp_lc then False else eq_lc_loop cmp_lc s)"

definition dd_string_equals_lc :: "string \<Rightarrow> string \<Rightarrow> bool" where
  "dd_string_equals_lc s cmp_lc =
     (if length s \<noteq> length cmp_lc then False else eq_lc_loop cmp_lc s)"

fun dd_string_normalize_header :: "string \<Rightarrow> string" where
  "dd_string_normalize_header [] = []"
| "dd_string_normalize_header (p # s) =
     table_char header_lc_dash p # dd_string_normalize_header s"

text \<open>
  \<open>dd_string_normalize_header2\<close> writes to a second buffer and terminates it with a NUL; the
  model returns the bytes written.
\<close>

fun normalize_header2_loop :: "string \<Rightarrow> string \<Rightarrow> string" where
  "normalize_header2_loop [] out = out"
| "normalize_header2_loop (c # s) out =
     normalize_header2_loop s (out @ [table_char header_lc_dash c])"

definition dd_string_normalize_header2 :: "string \<Rightarrow> string" where
  "dd_string_normalize_header2 s = normalize_header2_loop s [] @ [nul]"

section \<open>What the tables hold\<close>

definition ascii_lower :: "char \<Rightarrow> char" where
  "ascii_lower c =
     (if 65 \<le> (of_char c :: nat) \<and> (of_char c :: nat) \<le> 90
      then char_of (of_char c + 32 :: nat) else c)"

definition header_char :: "char \<Rightarrow> char" where
  "header_char c = (if c = CHR ''_'' then CHR ''-'' else ascii_lower c)"

lemma of_char_less_256: "(of_char c :: nat) < 256"
  using of_char_mod_256 [of c, where 'a = nat] by (metis mod_less_divisor zero_less_numeral)

lemma lc_table_entries:
  "list_all (\<lambda>n. unat (lc_table ! n) = (if 65 \<le> n \<and> n \<le> 90 then n + 32 else n)) [0..<256]"
  by code_simp

lemma header_lc_dash_entries:
  "list_all (\<lambda>n. unat (header_lc_dash ! n) =
      (if 65 \<le> n \<and> n \<le> 90 then n + 32 else if n = 95 then 45 else n)) [0..<256]"
  by code_simp

lemma table_char_lc: "table_char lc_table c = ascii_lower c"
  using lc_table_entries of_char_less_256 [of c]
  by (simp add: table_char_def ascii_lower_def list_all_iff)

lemma char_of_char_eq: "(of_char c :: nat) = n \<Longrightarrow> c = char_of n"
  by (metis char_of_char)

lemma char_of_95: "char_of (95 :: nat) = CHR ''_''"
  by code_simp

lemma char_of_45: "char_of (45 :: nat) = CHR ''-''"
  by code_simp

lemma table_char_header: "table_char header_lc_dash c = header_char c"
proof -
  have entry: "unat (header_lc_dash ! of_char c) =
      (if 65 \<le> (of_char c :: nat) \<and> (of_char c :: nat) \<le> 90 then of_char c + 32
       else if of_char c = (95 :: nat) then 45 else of_char c)"
    using header_lc_dash_entries of_char_less_256 [of c] by (simp add: list_all_iff)
  have under: "(of_char c = (95 :: nat)) = (c = CHR ''_'')"
    using char_of_char_eq [of c 95] char_of_95 by auto
  show ?thesis
    using entry under
    by (auto simp: table_char_def header_char_def ascii_lower_def char_of_45)
qed

lemma ascii_lower_idem: "ascii_lower (ascii_lower c) = ascii_lower c"
  by (auto simp: ascii_lower_def)

lemma header_char_idem: "header_char (header_char c) = header_char c"
proof (cases "c = CHR ''_''")
  case True
  then show ?thesis by (simp add: header_char_def ascii_lower_def)
next
  case False
  have "of_char (ascii_lower c) \<noteq> (95 :: nat)"
    using False char_of_char_eq [of c 95] by (auto simp: ascii_lower_def char_of_95)
  then have "ascii_lower c \<noteq> CHR ''_''" by auto
  with False show ?thesis by (simp add: header_char_def ascii_lower_idem)
qed

section \<open>The comparisons and the normalisation\<close>

lemma eq_lc_loop_iff:
  "length cmp_lc \<le> length s \<Longrightarrow>
   eq_lc_loop cmp_lc s \<longleftrightarrow> map ascii_lower (take (length cmp_lc) s) = cmp_lc"
  by (induction cmp_lc s rule: eq_lc_loop.induct) (auto simp: table_char_lc)

lemma starts_with_lc_iff:
  "dd_string_starts_with_lc s cmp_lc \<longleftrightarrow>
   length cmp_lc \<le> length s \<and> map ascii_lower (take (length cmp_lc) s) = cmp_lc"
  by (auto simp: dd_string_starts_with_lc_def eq_lc_loop_iff)

lemma equals_lc_iff: "dd_string_equals_lc s cmp_lc \<longleftrightarrow> map ascii_lower s = cmp_lc"
proof (cases "length s = length cmp_lc")
  case True
  then show ?thesis by (simp add: dd_string_equals_lc_def eq_lc_loop_iff)
next
  case False
  then show ?thesis by (auto simp: dd_string_equals_lc_def)
qed

lemma normalize_header_map: "dd_string_normalize_header s = map header_char s"
  by (induction s) (simp_all add: table_char_header)

lemma normalize_header2_loop_map:
  "normalize_header2_loop s out = out @ map header_char s"
  by (induction s out rule: normalize_header2_loop.induct) (simp_all add: table_char_header)

lemma normalize_header2_map: "dd_string_normalize_header2 s = map header_char s @ [nul]"
  by (simp add: dd_string_normalize_header2_def normalize_header2_loop_map)

lemma length_normalize_header [simp]: "length (dd_string_normalize_header s) = length s"
  by (simp add: normalize_header_map)

lemma normalize_header_append:
  "dd_string_normalize_header (s @ t) = dd_string_normalize_header s @ dd_string_normalize_header t"
  by (simp add: normalize_header_map)

lemma char_eq_nat: "c = d \<longleftrightarrow> (of_char c :: nat) = of_char d"
  by (simp add: of_char_eq_iff)

lemma of_char_header_char:
  "(of_char (header_char c) :: nat) =
     (if (of_char c :: nat) = 95 then 45
      else if 65 \<le> (of_char c :: nat) \<and> (of_char c :: nat) \<le> 90 then of_char c + 32 else of_char c)"
  by (simp add: header_char_def ascii_lower_def char_eq_nat del: of_char_eq_iff)

section \<open>Properties\<close>

text \<open>
  The two 256-byte tables compute ASCII case folding, with "_" sent to "-" in the
  header table and every other byte kept, so the table-driven loops are case-insensitive
  comparison with a lower-case word, case-insensitive prefix test, and header normalisation,
  and normalising twice changes nothing.
\<close>

theorem string_helpers_reference:
  "(dd_string_equals_lc s w \<longleftrightarrow> map ascii_lower s = w) \<and>
   (dd_string_starts_with_lc s w \<longleftrightarrow> (\<exists>p r. s = p @ r \<and> map ascii_lower p = w)) \<and>
   dd_string_normalize_header s = map header_char s \<and>
   dd_string_normalize_header2 s = dd_string_normalize_header s @ [nul] \<and>
   dd_string_normalize_header (dd_string_normalize_header s) = dd_string_normalize_header s"
proof -
  have "dd_string_starts_with_lc s w \<longleftrightarrow> (\<exists>p r. s = p @ r \<and> map ascii_lower p = w)"
    unfolding starts_with_lc_iff
    by (metis append_take_drop_id append_eq_conv_conj length_append length_map le_add1)
  then show ?thesis
    by (simp add: equals_lc_iff normalize_header_map normalize_header2_map header_char_idem comp_def)
qed

end
