(* ===== verification/Php_Helpers.thy ===== *)
theory Php_Helpers
  imports Prelude
begin

text \<open>
  The PHP values the extension reads and writes, and src/extension/php_helpers.c.

  A zval is a \<open>datatype\<close> with one constructor per type tag the code tests. A \<open>HashTable\<close> is the
  list of its buckets in iteration order together with the two layout flags the code looks at
  (\<open>HT_IS_PACKED\<close>, \<open>HT_IS_WITHOUT_HOLES\<close>); a bucket key is a string or a \<open>zend_ulong\<close>.
  The locale \<open>hash_table\<close> states what the code relies on when it looks up, adds and updates
  entries; it is interpreted on the bucket lists.
\<close>

datatype zkey = KStr string | KInt u64

datatype zval =
    ZUndef
  | ZNull
  | ZFalse
  | ZTrue
  | ZLong int
  | ZDouble u64
  | ZString string
  | ZArray bool bool "(zkey \<times> zval) list"
  | ZObject
  | ZReference zval

type_synonym zend_array = "(zkey \<times> zval) list"

section \<open>Hash table operations\<close>

fun zend_hash_find :: "('k \<times> 'v) list \<Rightarrow> 'k \<Rightarrow> 'v option" where
  "zend_hash_find [] k = None"
| "zend_hash_find ((k', v) # ht) k = (if k' = k then Some v else zend_hash_find ht k)"

definition zend_hash_exists :: "('k \<times> 'v) list \<Rightarrow> 'k \<Rightarrow> bool" where
  "zend_hash_exists ht k = (zend_hash_find ht k \<noteq> None)"

text \<open>\<open>zend_hash_add\<close> returns NULL (here \<open>False\<close>) and leaves the table alone when the key exists.\<close>

definition zend_hash_add :: "('k \<times> 'v) list \<Rightarrow> 'k \<Rightarrow> 'v \<Rightarrow> bool \<times> ('k \<times> 'v) list" where
  "zend_hash_add ht k v = (if zend_hash_exists ht k then (False, ht) else (True, ht @ [(k, v)]))"

fun zend_hash_replace :: "('k \<times> 'v) list \<Rightarrow> 'k \<Rightarrow> 'v \<Rightarrow> ('k \<times> 'v) list" where
  "zend_hash_replace [] k v = []"
| "zend_hash_replace ((k', v') # ht) k v =
     (if k' = k then (k', v) # ht else (k', v') # zend_hash_replace ht k v)"

definition zend_hash_update :: "('k \<times> 'v) list \<Rightarrow> 'k \<Rightarrow> 'v \<Rightarrow> ('k \<times> 'v) list" where
  "zend_hash_update ht k v =
     (if zend_hash_exists ht k then zend_hash_replace ht k v else ht @ [(k, v)])"

definition ht_keys :: "('k \<times> 'v) list \<Rightarrow> 'k list" where
  "ht_keys ht = map fst ht"

definition ht_invar :: "('k \<times> 'v) list \<Rightarrow> bool" where
  "ht_invar ht = distinct (ht_keys ht)"

subsection \<open>The interface the tag and message code relies on\<close>

locale hash_table =
  fixes find :: "'t \<Rightarrow> 'k \<Rightarrow> 'v option"
    and add :: "'t \<Rightarrow> 'k \<Rightarrow> 'v \<Rightarrow> bool \<times> 't"
    and update :: "'t \<Rightarrow> 'k \<Rightarrow> 'v \<Rightarrow> 't"
    and keys :: "'t \<Rightarrow> 'k list"
    and invar :: "'t \<Rightarrow> bool"
  assumes add_result: "fst (add t k v) \<longleftrightarrow> find t k = None"
    and add_find: "find (snd (add t k v)) = (case find t k of None \<Rightarrow> (find t)(k \<mapsto> v) | Some _ \<Rightarrow> find t)"
    and update_find: "find (update t k v) = (find t)(k \<mapsto> v)"
    and keys_find: "set (keys t) = {k. find t k \<noteq> None}"
    and add_keys: "keys (snd (add t k v)) = (if find t k = None then keys t @ [k] else keys t)"
    and update_keys: "keys (update t k v) = (if find t k = None then keys t @ [k] else keys t)"
    and add_invar: "invar t \<Longrightarrow> invar (snd (add t k v))"
    and update_invar: "invar t \<Longrightarrow> invar (update t k v)"
begin

lemma add_other: "k' \<noteq> k \<Longrightarrow> find (snd (add t k v)) k' = find t k'"
  by (simp add: add_find split: option.splits)

lemma add_existing: "find t k = Some w \<Longrightarrow> find (snd (add t k v)) k' = find t k'"
  by (simp add: add_find)

lemma add_new: "find t k = None \<Longrightarrow> find (snd (add t k v)) k = Some v"
  by (simp add: add_find)

lemma add_mono: "find t k' = Some w \<Longrightarrow> find (snd (add t k v)) k' = Some w"
  by (auto simp: add_find split: option.splits)

lemma update_same: "find (update t k v) k = Some v"
  by (simp add: update_find)

lemma update_other: "k' \<noteq> k \<Longrightarrow> find (update t k v) k' = find t k'"
  by (simp add: update_find)

lemma add_defined: "find (snd (add t k v)) k \<noteq> None"
  by (auto simp: add_find split: option.splits)

text \<open>A key list only grows, at its end.\<close>

lemma add_keys_prefix: "\<exists>ks. keys (snd (add t k v)) = keys t @ ks"
  by (simp add: add_keys)

end

lemma find_append:
  "zend_hash_find (xs @ ys) k =
     (case zend_hash_find xs k of None \<Rightarrow> zend_hash_find ys k | Some v \<Rightarrow> Some v)"
  by (induction xs) auto

lemma find_replace:
  "zend_hash_find ht k \<noteq> None \<Longrightarrow>
   zend_hash_find (zend_hash_replace ht k v) = (zend_hash_find ht)(k \<mapsto> v)"
proof (induction ht k v rule: zend_hash_replace.induct)
  case (1 k v)
  then show ?case by simp
next
  case (2 k' v' ht k v)
  then show ?case by (cases "k' = k") (auto simp: fun_eq_iff)
qed

lemma keys_replace: "ht_keys (zend_hash_replace ht k v) = ht_keys ht"
  by (induction ht k v rule: zend_hash_replace.induct) (auto simp: ht_keys_def)

lemma set_keys_find: "set (ht_keys ht) = {k. zend_hash_find ht k \<noteq> None}"
  by (induction ht) (auto simp: ht_keys_def split: if_splits)

interpretation zh: hash_table zend_hash_find zend_hash_add zend_hash_update ht_keys ht_invar
proof (unfold_locales, goal_cases)
  case (1 t k v)
  show ?case by (simp add: zend_hash_add_def zend_hash_exists_def)
next
  case (2 t k v)
  show ?case
    by (auto simp: zend_hash_add_def zend_hash_exists_def find_append fun_eq_iff split: option.splits)
next
  case (3 t k v)
  show ?case
    by (auto simp: zend_hash_update_def zend_hash_exists_def find_append find_replace fun_eq_iff
        split: option.splits)
next
  case (4 t)
  show ?case by (rule set_keys_find)
next
  case (5 t k v)
  show ?case by (simp add: zend_hash_add_def zend_hash_exists_def ht_keys_def)
next
  case (6 t k v)
  show ?case
    by (simp add: zend_hash_update_def zend_hash_exists_def keys_replace) (simp add: ht_keys_def)
next
  case (7 t k v)
  then show ?case
    using set_keys_find [of t]
    by (auto simp: zend_hash_add_def zend_hash_exists_def ht_invar_def ht_keys_def)
next
  case (8 t k v)
  then show ?case
    using set_keys_find [of t]
    by (auto simp: zend_hash_update_def zend_hash_exists_def ht_invar_def keys_replace)
       (auto simp: ht_keys_def)
qed

lemma zend_hash_exists_iff: "zend_hash_exists ht k \<longleftrightarrow> k \<in> set (ht_keys ht)"
  by (simp add: zend_hash_exists_def set_keys_find)

section \<open>Operations of php\_helpers.c\<close>

datatype dd_php_array_type = php_array_type_sequential | php_array_type_associative

fun array_type_loop :: "u64 \<Rightarrow> zend_array \<Rightarrow> dd_php_array_type" where
  "array_type_loop i [] = php_array_type_sequential"
| "array_type_loop i ((KStr s, v) # ht) = php_array_type_associative"
| "array_type_loop i ((KInt h, v) # ht) =
     (if h \<noteq> i then php_array_type_associative else array_type_loop (i + 1) ht)"

fun dd_php_determine_array_type :: "zval \<Rightarrow> dd_php_array_type" where
  "dd_php_determine_array_type (ZArray packed without_holes ht) =
     (if length ht = 0 then php_array_type_sequential
      else if packed \<and> without_holes then php_array_type_sequential
      else array_type_loop 0 ht)"
| "dd_php_determine_array_type _ = php_array_type_sequential"

fun zval_deref :: "zval \<Rightarrow> zval" where
  "zval_deref (ZReference z) = z"
| "zval_deref z = z"

fun is_array :: "zval \<Rightarrow> bool" where
  "is_array (ZArray _ _ _) = True"
| "is_array _ = False"

fun arrval :: "zval \<Rightarrow> zend_array" where
  "arrval (ZArray _ _ ht) = ht"
| "arrval _ = []"

text \<open>
  \<open>http_globals\<close> is \<open>PG(http_globals)\<close>, indexed by the \<open>TRACK_VARS_*\<close> constants, all of which
  are non-negative; \<open>materialized\<close> is the same array after \<open>zend_is_auto_global_str\<close> has run the
  callback of a just-in-time superglobal, and \<open>known\<close> what that call returned.
\<close>

datatype track_var =
  TRACK_VARS_POST | TRACK_VARS_GET | TRACK_VARS_COOKIE | TRACK_VARS_SERVER | TRACK_VARS_FILES

type_synonym http_globals = "track_var \<Rightarrow> zval"

definition dd_php_get_autoglobal ::
  "http_globals \<Rightarrow> bool \<Rightarrow> http_globals \<Rightarrow> track_var \<Rightarrow> zval option" where
  "dd_php_get_autoglobal http_globals known materialized track_var =
     (if is_array (http_globals track_var) then Some (http_globals track_var)
      else if known \<and> is_array (materialized track_var) then Some (materialized track_var)
      else None)"

definition dd_php_get_string_elem :: "zend_array option \<Rightarrow> string \<Rightarrow> string option" where
  "dd_php_get_string_elem arr k =
     (case arr of
        None \<Rightarrow> None
      | Some ht \<Rightarrow>
          (case zend_hash_find ht (KStr k) of
             None \<Rightarrow> None
           | Some z \<Rightarrow> (case zval_deref z of ZString s \<Rightarrow> Some s | _ \<Rightarrow> None)))"

text \<open>
  \<open>dd_php_get_string_elem_cstr\<close> is the same lookup with a C string literal as the key.
\<close>

definition dd_php_get_string_elem_cstr :: "zend_array option \<Rightarrow> string \<Rightarrow> string option" where
  "dd_php_get_string_elem_cstr arr name =
     (case arr of
        None \<Rightarrow> None
      | Some ht \<Rightarrow>
          (case zend_hash_find ht (KStr name) of
             None \<Rightarrow> None
           | Some z \<Rightarrow> (case zval_deref z of ZString s \<Rightarrow> Some s | _ \<Rightarrow> None)))"

section \<open>Array kinds\<close>

text \<open>
  What the engine guarantees of a packed table without holes: its keys are 0, 1, 2, ... in order.
\<close>

definition list_keys :: "nat \<Rightarrow> zkey list" where
  "list_keys n = map (\<lambda>i. KInt (of_nat i)) [0..<n]"

definition layout_ok :: "zval \<Rightarrow> bool" where
  "layout_ok z =
     (case z of
        ZArray packed without_holes ht \<Rightarrow>
          packed \<and> without_holes \<longrightarrow> ht_keys ht = list_keys (length ht)
      | _ \<Rightarrow> True)"

lemma array_type_loop_iff:
  "array_type_loop (of_nat k) ht = php_array_type_sequential \<longleftrightarrow>
     ht_keys ht = map (\<lambda>i. KInt (of_nat i)) [k..<k + length ht]"
proof (induction ht arbitrary: k)
  case Nil
  then show ?case by (simp add: ht_keys_def)
next
  case (Cons b ht)
  obtain key v where b: "b = (key, v)" by force
  have upt: "[k..<k + length (b # ht)] = k # [Suc k..<Suc k + length ht]"
    by (simp add: upt_conv_Cons del: upt_Suc)
  show ?case
  proof (cases key)
    case (KStr s)
    then show ?thesis unfolding upt by (simp add: b ht_keys_def del: upt_Suc)
  next
    case (KInt h)
    have "array_type_loop (of_nat k + 1) ht = array_type_loop (of_nat (Suc k)) ht"
      by (simp add: add.commute)
    with Cons.IH [of "Suc k"] KInt show ?thesis
      unfolding upt by (simp add: b ht_keys_def del: upt_Suc)
  qed
qed

lemma determine_array_type_iff:
  assumes "layout_ok (ZArray packed without_holes ht)"
  shows "dd_php_determine_array_type (ZArray packed without_holes ht) = php_array_type_sequential
     \<longleftrightarrow> ht_keys ht = list_keys (length ht)"
  using assms array_type_loop_iff [of 0 ht]
  by (auto simp: layout_ok_def list_keys_def ht_keys_def)

lemma string_elem_cstr_eq: "dd_php_get_string_elem_cstr = dd_php_get_string_elem"
  by (simp add: fun_eq_iff dd_php_get_string_elem_cstr_def dd_php_get_string_elem_def)

lemma string_elem_Some:
  "dd_php_get_string_elem arr k = Some s \<longleftrightarrow>
   (\<exists>ht z. arr = Some ht \<and> zend_hash_find ht (KStr k) = Some z \<and> zval_deref z = ZString s)"
  by (auto simp: dd_php_get_string_elem_def split: option.splits zval.splits)

section \<open>Properties\<close>

text \<open>
  \<open>dd_php_determine_array_type\<close> says sequential exactly when the keys of the
  array are 0, 1, 2, ... in order, by the fast path for packed tables without holes and by the
  scan of the keys otherwise.
\<close>

theorem determine_array_type_sequential:
  assumes "layout_ok (ZArray packed without_holes ht)"
  shows "dd_php_determine_array_type (ZArray packed without_holes ht) = php_array_type_sequential
     \<longleftrightarrow> ht_keys ht = list_keys (length ht)"
  using assms by (rule determine_array_type_iff)

theorem determine_array_type_sequential_witness:
  "dd_php_determine_array_type (ZArray True False [(KInt 0, ZNull), (KInt 2, ZNull)]) =
     php_array_type_associative \<and>
   ht_keys [(KInt 0, ZNull), (KInt 2, ZNull)] \<noteq> list_keys 2"
proof -
  have "layout_ok (ZArray True False [(KInt 0, ZNull), (KInt 2, ZNull)])"
    by (simp add: layout_ok_def)
  from determine_array_type_sequential [OF this] show ?thesis
    by (simp add: numeral_2_eq_2)
qed

end
