(* ===== verification/Ip_Extraction.thy ===== *)
theory Ip_Extraction
  imports String_Helpers Php_Helpers
begin

text \<open>
  src/extension/ip_extraction.c: finding the client address of a request in its headers.

  \<open>inet_pton\<close> and \<open>inet_ntop\<close> are operating-system functions: the record \<open>inet_api\<close> is a parameter
  of every definition that calls them. Their results are addresses in network byte order.
  The \<open>ipaddr\<close> union is its storage (a byte list that starts with the bytes of \<open>v4\<close> and of \<open>v6\<close>)
  and the address family that says which member is meant; an \<open>out\<close> parameter with a boolean
  result is an \<open>option\<close>.
\<close>

datatype address_family = AF_INET | AF_INET6

record inet_api =
  inet_pton4 :: "string \<Rightarrow> byte list option"
  inet_pton6 :: "string \<Rightarrow> byte list option"
  inet_ntop :: "address_family \<Rightarrow> byte list \<Rightarrow> string option"

record ipaddr =
  af :: address_family
  storage :: "byte list"

definition v4 :: "ipaddr \<Rightarrow> byte list" where
  "v4 a = take 4 (storage a)"

definition v6 :: "ipaddr \<Rightarrow> byte list" where
  "v6 a = take 16 (storage a)"

definition ipaddr_to_zstr :: "inet_api \<Rightarrow> ipaddr \<Rightarrow> string option" where
  "ipaddr_to_zstr api a = inet_ntop api (af a) (case af a of AF_INET \<Rightarrow> v4 a | AF_INET6 \<Rightarrow> v6 a)"

section \<open>Private ranges\<close>

definition ct_htonl :: "u32 \<Rightarrow> u32" where
  "ct_htonl x =
     (drop_bit 24 x AND 0x000000FF) OR (drop_bit 8 x AND 0x0000FF00) OR
     (push_bit 8 x AND 0x00FF0000) OR (push_bit 24 x AND 0xFF000000)"

text \<open>(base, mask) pairs of \<open>priv_ranges\<close> in \<open>_is_private_v4\<close>\<close>

definition priv_ranges_v4 :: "(u32 \<times> u32) list" where
  "priv_ranges_v4 =
     [(ct_htonl 0x0A000000, ct_htonl 0xFF000000),
      (ct_htonl 0xAC100000, ct_htonl 0xFFF00000),
      (ct_htonl 0xC0A80000, ct_htonl 0xFFFF0000),
      (ct_htonl 0x7F000000, ct_htonl 0xFF000000),
      (ct_htonl 0xA9FE0000, ct_htonl 0xFFFF0000)]"

fun in_ranges :: "('a \<Rightarrow> 'a \<Rightarrow> bool) \<Rightarrow> ('a \<times> 'a) list \<Rightarrow> bool" where
  "in_ranges matches [] = False"
| "in_ranges matches ((base, msk) # rs) =
     (if matches base msk then True else in_ranges matches rs)"

definition is_private_v4 :: "byte list \<Rightarrow> bool" where
  "is_private_v4 addr =
     in_ranges (\<lambda>base msk. (load_le addr :: u32) AND msk = base) priv_ranges_v4"

text \<open>The \<open>s6_addr\<close> initialisers; the members not named are zero.\<close>

definition priv_ranges_v6 :: "(byte list \<times> byte list) list" where
  "priv_ranges_v6 =
     [(replicate 15 0 @ [1], replicate 16 0xFF),
      ([0xFE, 0x80] @ replicate 14 0, [0xFF, 0xC0] @ replicate 14 0),
      ([0xFE, 0xC0] @ replicate 14 0, [0xFF, 0xC0] @ replicate 14 0),
      ([0xFD] @ replicate 15 0, [0xFF] @ replicate 15 0),
      ([0xFC] @ replicate 15 0, [0xFE] @ replicate 15 0)]"

definition is_private_v6 :: "byte list \<Rightarrow> bool" where
  "is_private_v6 addr =
     in_ranges (\<lambda>base msk. (load_le addr :: 128 word) AND load_le msk = load_le base) priv_ranges_v6"

definition is_private :: "ipaddr \<Rightarrow> bool" where
  "is_private a = (if af a = AF_INET then is_private_v4 (v4 a) else is_private_v6 (v6 a))"

section \<open>Parsing addresses\<close>

definition ip4_mapped_prefix :: "byte list" where
  "ip4_mapped_prefix = replicate 10 0 @ [0xFF, 0xFF]"

text \<open>
  The address text is copied and NUL-terminated before the calls, so the library sees it up to
  its first NUL.
\<close>

definition parse_ip_address :: "inet_api \<Rightarrow> string \<Rightarrow> ipaddr option" where
  "parse_ip_address api addr =
     (if length addr = 0 then None
      else case inet_pton4 api (c_str addr) of
             Some b \<Rightarrow> Some \<lparr>af = AF_INET, storage = b\<rparr>
           | None \<Rightarrow>
               (case inet_pton6 api (c_str addr) of
                  None \<Rightarrow> None
                | Some s6addr \<Rightarrow>
                    if take 12 s6addr = ip4_mapped_prefix
                    then Some \<lparr>af = AF_INET, storage = take 4 (drop 12 s6addr) @ drop 4 s6addr\<rparr>
                    else Some \<lparr>af = AF_INET6, storage = s6addr\<rparr>))"

definition parse_ip_address_maybe_port_pair :: "inet_api \<Rightarrow> string \<Rightarrow> ipaddr option" where
  "parse_ip_address_maybe_port_pair api addr =
     (if length addr = 0 then None
      else if hd addr = CHR ''['' then
        (case memchr (CHR '']'') (tl addr) of
           None \<Rightarrow> None
         | Some pos_close \<Rightarrow> parse_ip_address api (take pos_close (tl addr)))
      else
        (case memchr (CHR '':'') addr of
           Some colon \<Rightarrow>
             if memrchr (CHR '':'') addr = Some colon
             then parse_ip_address api (take colon addr)
             else parse_ip_address api addr
         | None \<Rightarrow> parse_ip_address api addr))"

text \<open>\<open>succ = parse(...); if (succ) succ = !_is_private(out)\<close>\<close>

definition parse_public :: "inet_api \<Rightarrow> string \<Rightarrow> ipaddr option" where
  "parse_public api s =
     (case parse_ip_address_maybe_port_pair api s of
        None \<Rightarrow> None
      | Some a \<Rightarrow> if is_private a then None else Some a)"

function parse_x_forwarded_for :: "inet_api \<Rightarrow> string \<Rightarrow> ipaddr option" where
  "parse_x_forwarded_for api v =
     (let value = skip_spaces v in
      case memchr (CHR '','') value of
        None \<Rightarrow> parse_public api value
      | Some comma \<Rightarrow>
          (case parse_public api (take comma value) of
             Some a \<Rightarrow> Some a
           | None \<Rightarrow>
               if comma + 1 < length value
               then parse_x_forwarded_for api (drop (comma + 1) value)
               else None))"
  by pat_completeness auto
termination
  by (relation "measure (\<lambda>(api, v). length v)")
     (auto intro: order_less_le_trans [OF _ length_skip_spaces_le])

declare parse_x_forwarded_for.simps [simp del]

datatype fwd_state = Between | Key | Before_value | Value_token | Value_quoted

definition is_sep :: "char \<Rightarrow> bool" where
  "is_sep c = (c = space \<or> c = CHR '';'' \<or> c = CHR '','')"

definition key_is_for :: "string \<Rightarrow> bool" where
  "key_is_for k =
     (length k = 3 \<and>
      (k ! 0 = CHR ''f'' \<or> k ! 0 = CHR ''F'') \<and>
      (k ! 1 = CHR ''o'' \<or> k ! 1 = CHR ''O'') \<and>
      (k ! 2 = CHR ''r'' \<or> k ! 2 = CHR ''R''))"

text \<open>
  The loop of \<open>_parse_forwarded\<close>. The last argument is the text from the read pointer \<open>r\<close> to
  \<open>end\<close>; \<open>tok\<close> is the text from \<open>start\<close> to \<open>r\<close>. In the state \<open>Value_quoted\<close> a backslash makes
  the loop step over the next character, and over \<open>end\<close> when there is none.
\<close>

fun parse_forwarded_loop ::
  "inet_api \<Rightarrow> fwd_state \<Rightarrow> bool \<Rightarrow> string \<Rightarrow> string \<Rightarrow> ipaddr option" where
  "parse_forwarded_loop api st consider_value tok [] = None"
| "parse_forwarded_loop api Between consider_value tok (r # rs) =
     (if is_sep r then parse_forwarded_loop api Between consider_value tok rs
      else parse_forwarded_loop api Key consider_value [r] rs)"
| "parse_forwarded_loop api Key consider_value tok (r # rs) =
     (if r = CHR ''='' then parse_forwarded_loop api Before_value (key_is_for tok) (tok @ [r]) rs
      else parse_forwarded_loop api Key consider_value (tok @ [r]) rs)"
| "parse_forwarded_loop api Before_value consider_value tok (r # rs) =
     (if r = CHR 0x22 then parse_forwarded_loop api Value_quoted consider_value [] rs
      else if is_sep r then parse_forwarded_loop api Between consider_value (tok @ [r]) rs
      else parse_forwarded_loop api Value_token consider_value [r] rs)"
| "parse_forwarded_loop api Value_token consider_value tok (r # rs) =
     (if is_sep r \<or> rs = [] then
        (let token = (if is_sep r then tok else tok @ [r]) in
         case (if consider_value then parse_public api token else None) of
           Some a \<Rightarrow> Some a
         | None \<Rightarrow> parse_forwarded_loop api Between consider_value (tok @ [r]) rs)
      else parse_forwarded_loop api Value_token consider_value (tok @ [r]) rs)"
| "parse_forwarded_loop api Value_quoted consider_value tok (r # rs) =
     (if r = CHR 0x22 then
        (case (if consider_value then parse_public api tok else None) of
           Some a \<Rightarrow> Some a
         | None \<Rightarrow> parse_forwarded_loop api Between consider_value (tok @ [r]) rs)
      else if r = CHR 0x5C then
        (case rs of
           [] \<Rightarrow> None
         | r2 # rs2 \<Rightarrow> parse_forwarded_loop api Value_quoted consider_value (tok @ [r, r2]) rs2)
      else parse_forwarded_loop api Value_quoted consider_value (tok @ [r]) rs)"

definition parse_forwarded :: "inet_api \<Rightarrow> string \<Rightarrow> ipaddr option" where
  "parse_forwarded api zvalue = parse_forwarded_loop api Between False [] zvalue"

definition parse_plain_raw :: "inet_api \<Rightarrow> string \<Rightarrow> ipaddr option" where
  "parse_plain_raw api zvalue = parse_ip_address api zvalue"

definition parse_plain :: "inet_api \<Rightarrow> string \<Rightarrow> ipaddr option" where
  "parse_plain api zvalue =
     (case parse_ip_address api zvalue of
        None \<Rightarrow> None
      | Some a \<Rightarrow> if is_private a then None else Some a)"

section \<open>The header table and the search\<close>

record header_map_node =
  hm_key :: string
  hm_name :: string
  hm_parse_fn :: "inet_api \<Rightarrow> string \<Rightarrow> ipaddr option"

definition priority_header_map :: "header_map_node list" where
  "priority_header_map =
    [\<lparr>hm_key = ''HTTP_X_FORWARDED_FOR'', hm_name = ''x-forwarded-for'',
       hm_parse_fn = parse_x_forwarded_for\<rparr>,
     \<lparr>hm_key = ''HTTP_X_REAL_IP'', hm_name = ''x-real-ip'', hm_parse_fn = parse_plain\<rparr>,
     \<lparr>hm_key = ''HTTP_TRUE_CLIENT_IP'', hm_name = ''true-client-ip'', hm_parse_fn = parse_plain\<rparr>,
     \<lparr>hm_key = ''HTTP_X_CLIENT_IP'', hm_name = ''x-client-ip'', hm_parse_fn = parse_plain\<rparr>,
     \<lparr>hm_key = ''HTTP_X_FORWARDED'', hm_name = ''x-forwarded'', hm_parse_fn = parse_forwarded\<rparr>,
     \<lparr>hm_key = ''HTTP_FORWARDED_FOR'', hm_name = ''forwarded-for'',
       hm_parse_fn = parse_x_forwarded_for\<rparr>,
     \<lparr>hm_key = ''HTTP_X_CLUSTER_CLIENT_IP'', hm_name = ''x-cluster-client-ip'',
       hm_parse_fn = parse_x_forwarded_for\<rparr>,
     \<lparr>hm_key = ''HTTP_FASTLY_CLIENT_IP'', hm_name = ''fastly-client-ip'', hm_parse_fn = parse_plain\<rparr>,
     \<lparr>hm_key = ''HTTP_CF_CONNECTING_IP'', hm_name = ''cf-connecting-ip'', hm_parse_fn = parse_plain\<rparr>,
     \<lparr>hm_key = ''HTTP_CF_CONNECTING_IPV6'', hm_name = ''cf-connecting-ipv6'',
       hm_parse_fn = parse_plain\<rparr>]"

definition remote_addr_key :: string where
  "remote_addr_key = ''REMOTE_ADDR''"

definition fetch_arr_str :: "zend_array \<Rightarrow> string \<Rightarrow> string option" where
  "fetch_arr_str server key =
     (case zend_hash_find server (KStr key) of
        None \<Rightarrow> None
      | Some value \<Rightarrow> (case zval_deref value of ZString s \<Rightarrow> Some s | _ \<Rightarrow> None))"

definition try_extract ::
  "inet_api \<Rightarrow> zend_array \<Rightarrow> string \<Rightarrow> (inet_api \<Rightarrow> string \<Rightarrow> ipaddr option) \<Rightarrow> string option" where
  "try_extract api server key extract_func =
     (case fetch_arr_str server key of
        None \<Rightarrow> None
      | Some value \<Rightarrow>
          (case extract_func api value of Some a \<Rightarrow> ipaddr_to_zstr api a | None \<Rightarrow> None))"

text \<open>
  The loop over \<open>priority_header_map\<close>. \<open>Some r\<close> is a \<open>return r\<close> inside the loop, \<open>None\<close> falling
  through to the remote address. The value of a header is not dereferenced here.
\<close>

fun find_in_headers :: "inet_api \<Rightarrow> zend_array \<Rightarrow> header_map_node list \<Rightarrow> string option option" where
  "find_in_headers api server [] = None"
| "find_in_headers api server (node # nodes) =
     (case zend_hash_find server (KStr (hm_key node)) of
        Some (ZString val) \<Rightarrow>
          if length val > 0 then
            (case hm_parse_fn node api val of
               Some a \<Rightarrow> Some (ipaddr_to_zstr api a)
             | None \<Rightarrow> find_in_headers api server nodes)
          else find_in_headers api server nodes
      | _ \<Rightarrow> find_in_headers api server nodes)"

text \<open>
  \<open>ipheader\<close> is \<open>get_DD_TRACE_CLIENT_IP_HEADER()\<close>. With a configured header the array of
  \<open>server\<close> is read before its type is checked: with no array that is undefined.
\<close>

definition dd_ip_extraction_find ::
  "inet_api \<Rightarrow> string option \<Rightarrow> zval option \<Rightarrow> string option outcome" where
  "dd_ip_extraction_find api ipheader server =
     (if ipheader \<noteq> None \<and> length (the ipheader) > 0 then
        (case server of
           Some (ZArray packed wo ht) \<Rightarrow>
             (case fetch_arr_str ht (the ipheader) of
                None \<Rightarrow> Defined None
              | Some value \<Rightarrow>
                  (case parse_forwarded api value of
                     Some out \<Rightarrow> Defined (ipaddr_to_zstr api out)
                   | None \<Rightarrow>
                       (case parse_x_forwarded_for api value of
                          Some out \<Rightarrow> Defined (ipaddr_to_zstr api out)
                        | None \<Rightarrow> Defined None)))
         | _ \<Rightarrow> Undefined)
      else
        (case server of
           Some (ZArray packed wo ht) \<Rightarrow>
             (case find_in_headers api ht priority_header_map of
                Some r \<Rightarrow> Defined r
              | None \<Rightarrow> Defined (try_extract api ht remote_addr_key parse_plain_raw))
         | _ \<Rightarrow> Defined None))"

text \<open>
  The per-request state is the \<open>client_ip\<close> of the file: \<open>rinit\<close> sets it from the
  \<open>_SERVER\<close> superglobal (\<open>server\<close>, as \<open>dd_php_get_autoglobal\<close> returns it), \<open>rshutdown\<close>
  releases it.
\<close>

definition dd_ip_extraction_rinit ::
  "inet_api \<Rightarrow> string option \<Rightarrow> zval option \<Rightarrow> string option \<Rightarrow> string option outcome" where
  "dd_ip_extraction_rinit api ipheader server client_ip =
     (case server of
        None \<Rightarrow> Defined client_ip
      | Some _ \<Rightarrow> dd_ip_extraction_find api ipheader server)"

definition dd_ip_extraction_rshutdown :: "string option \<Rightarrow> string option" where
  "dd_ip_extraction_rshutdown client_ip = (case client_ip of Some _ \<Rightarrow> None | None \<Rightarrow> client_ip)"

definition dd_ip_extraction_get_ip :: "string option \<Rightarrow> string option" where
  "dd_ip_extraction_get_ip client_ip = client_ip"

section \<open>The configured header name\<close>

definition upper_dash_char :: "char \<Rightarrow> char" where
  "upper_dash_char c =
     (if 97 \<le> (of_char c :: nat) \<and> (of_char c :: nat) \<le> 122 then char_of (of_char c - 97 + 65 :: nat)
      else if c = CHR ''-'' then CHR ''_'' else c)"

fun client_ip_header_loop :: "string \<Rightarrow> string" where
  "client_ip_header_loop [] = []"
| "client_ip_header_loop (p # ps) = upper_dash_char p # client_ip_header_loop ps"

text \<open>
  \<open>value.ptr[0]\<close> is NUL when the value is empty or starts with a NUL byte.
\<close>

definition dd_parse_client_ip_header_config :: "string \<Rightarrow> string" where
  "dd_parse_client_ip_header_config value =
     (if value = [] \<or> hd value = nul then []
      else ''HTTP_'' @ client_ip_header_loop value)"

section \<open>Private ranges as prefixes\<close>

lemma ct_htonl_bytes:
  "ct_htonl 0x0A000000 = load_le [0x0A, 0, 0, 0]" "ct_htonl 0xFF000000 = load_le [0xFF, 0, 0, 0]"
  "ct_htonl 0xAC100000 = load_le [0xAC, 0x10, 0, 0]" "ct_htonl 0xFFF00000 = load_le [0xFF, 0xF0, 0, 0]"
  "ct_htonl 0xC0A80000 = load_le [0xC0, 0xA8, 0, 0]" "ct_htonl 0xFFFF0000 = load_le [0xFF, 0xFF, 0, 0]"
  "ct_htonl 0x7F000000 = load_le [0x7F, 0, 0, 0]" "ct_htonl 0xA9FE0000 = load_le [0xA9, 0xFE, 0, 0]"
  by (simp_all add: ct_htonl_def)

lemma byte_and_FF: "(b :: byte) AND 0xFF = b"
  by (rule all_bytesI) code_simp

lemma byte_and_F0: "(b :: byte) AND 0xF0 = 16 \<longleftrightarrow> 16 \<le> b \<and> b \<le> 31"
  by (rule all_bytesI) code_simp

lemma byte_and_C0: "(b :: byte) AND 0xC0 = 0x80 \<longleftrightarrow> 0x80 \<le> b \<and> b \<le> 0xBF"
  by (rule all_bytesI) code_simp

lemma byte_and_C0': "(b :: byte) AND 0xC0 = 0xC0 \<longleftrightarrow> 0xC0 \<le> b"
  by (rule all_bytesI) code_simp

lemma byte_ge_80: "(0x80 \<le> b \<and> b \<le> 0xBF) \<or> 0xC0 \<le> b \<longleftrightarrow> (0x80 :: byte) \<le> b"
  by (rule all_bytesI) code_simp

lemma byte_and_FE: "(b :: byte) AND 0xFE = 0xFC \<longleftrightarrow> b = 0xFC \<or> b = 0xFD"
  by (rule all_bytesI) code_simp

lemmas byte_masks = byte_and_FF byte_and_F0 byte_and_C0 byte_and_C0' byte_and_FE

lemma masked_u32:
  "(load_le [a, b, c, d] AND load_le [m1, m2, m3, m4] :: u32) = load_le [x1, x2, x3, x4] \<longleftrightarrow>
   a AND m1 = x1 \<and> b AND m2 = x2 \<and> c AND m3 = x3 \<and> d AND m4 = x4"
  by (subst load_le_masked_eq) simp_all

lemma is_private_v4_bytes:
  "is_private_v4 [a, b, c, d] \<longleftrightarrow>
     a = 10 \<or> a = 172 \<and> 16 \<le> b \<and> b \<le> 31 \<or> a = 192 \<and> b = 168 \<or> a = 127 \<or> a = 169 \<and> b = 254"
  unfolding is_private_v4_def priv_ranges_v4_def ct_htonl_bytes in_ranges.simps masked_u32 byte_masks
  by auto

lemma masked_u128:
  assumes "length xs = 16" "length ms = 16" "length bs = 16"
  shows "(load_le xs AND load_le ms :: 128 word) = load_le bs \<longleftrightarrow> map2 (AND) xs ms = bs"
  using assms by (intro load_le_masked_eq) simp_all

lemma map2_and_zeros: "length xs = n \<Longrightarrow> map2 (AND) xs (replicate n (0 :: byte)) = replicate n 0"
  by (induction n arbitrary: xs) (auto simp: length_Suc_conv)

lemma map2_and_ones: "length xs = n \<Longrightarrow> map2 (AND) xs (replicate n (0xFF :: byte)) = xs"
  by (induction n arbitrary: xs) (auto simp: length_Suc_conv byte_and_FF)

lemma is_private_v6_bytes:
  assumes "length rest = 14"
  shows "is_private_v6 (a # b # rest) \<longleftrightarrow>
     a # b # rest = replicate 15 0 @ [1] \<or> a = 0xFE \<and> 0x80 \<le> b \<or> a = 0xFC \<or> a = 0xFD"
proof -
  let ?xs = "a # b # rest"
  let ?m = "\<lambda>ms bs. (load_le ?xs AND load_le ms :: 128 word) = load_le bs"
  have len: "length ?xs = 16" using assms by simp
  have loop: "?m (replicate 16 0xFF) (replicate 15 0 @ [1]) \<longleftrightarrow> ?xs = replicate 15 0 @ [1]"
    using masked_u128 [OF len, of "replicate 16 0xFF" "replicate 15 0 @ [1]"] map2_and_ones [OF len]
    by (simp del: replicate.simps load_le.simps)
  have two: "?m ([m1, m2] @ replicate 14 0) ([x1, x2] @ replicate 14 0) \<longleftrightarrow>
      a AND m1 = x1 \<and> b AND m2 = x2" for m1 m2 x1 x2
    using masked_u128 [OF len, of "[m1, m2] @ replicate 14 0" "[x1, x2] @ replicate 14 0"]
      map2_and_zeros [OF assms]
    by (simp del: replicate.simps load_le.simps)
  have one: "?m ([m1] @ replicate 15 0) ([x1] @ replicate 15 0) \<longleftrightarrow> a AND m1 = x1" for m1 x1
    using masked_u128 [OF len, of "[m1] @ replicate 15 0" "[x1] @ replicate 15 0"]
      map2_and_zeros [of "b # rest" 15] assms
    by (simp del: replicate.simps load_le.simps)
  show ?thesis
    unfolding is_private_v6_def priv_ranges_v6_def in_ranges.simps loop two one byte_masks
    using byte_ge_80 [of b] by auto
qed

section \<open>X-Forwarded-For\<close>

lemma parse_public_Nil [simp]: "parse_public api [] = None"
  by (simp add: parse_public_def parse_ip_address_maybe_port_pair_def)

lemma parse_x_forwarded_for_split:
  "parse_x_forwarded_for api v = first_some (\<lambda>a. parse_public api (skip_spaces a)) (split_on (CHR '','') v)"
proof (induction api v rule: parse_x_forwarded_for.induct)
  case (1 api v)
  let ?f = "first_some (\<lambda>a. parse_public api (skip_spaces a))"
  let ?w = "skip_spaces v"
  have eq: "?f (split_on (CHR '','') v) = ?f (split_on (CHR '','') ?w)"
    by (cases "split_on (CHR '','') v") (simp_all add: split_on_skip_spaces)
  show ?case
  proof (cases "memchr (CHR '','') ?w")
    case None
    then have "split_on (CHR '','') ?w = [?w]" by (simp only: split_on_memchr [of _ ?w] option.case)
    with None show ?thesis
      unfolding eq parse_x_forwarded_for.simps [of api v]
      by (simp del: memchr_None split: option.splits)
  next
    case (Some i)
    have sp: "split_on (CHR '','') ?w = take i ?w # split_on (CHR '','') (drop (Suc i) ?w)"
      using Some by (simp add: split_on_memchr [of _ ?w])
    show ?thesis
    proof (cases "Suc i < length ?w")
      case True
      with Some 1 show ?thesis
        unfolding eq sp parse_x_forwarded_for.simps [of api v] by (simp split: option.splits)
    next
      case False
      then have "drop (Suc i) ?w = []" by simp
      with Some False show ?thesis
        unfolding eq sp parse_x_forwarded_for.simps [of api v]
        by (simp add: skip_spaces_def [of "[]"] split: option.splits)
    qed
  qed
qed


section \<open>Forwarded\<close>

datatype fwd_value = Tok string | Quoted string

fun fwd_raw :: "fwd_value \<Rightarrow> string" where
  "fwd_raw (Tok s) = s"
| "fwd_raw (Quoted s) = s"

fun fwd_text :: "fwd_value \<Rightarrow> string" where
  "fwd_text (Tok s) = s"
| "fwd_text (Quoted s) = CHR 0x22 # s @ [CHR 0x22]"

fun quoted_body :: "string \<Rightarrow> bool" where
  "quoted_body [] = True"
| "quoted_body (c # cs) =
     (c \<noteq> CHR 0x22 \<and>
      (if c = CHR 0x5C then (case cs of [] \<Rightarrow> False | c2 # cs2 \<Rightarrow> quoted_body cs2)
       else quoted_body cs))"

fun render_forwarded :: "(string \<times> fwd_value \<times> string) list \<Rightarrow> string" where
  "render_forwarded [] = []"
| "render_forwarded ((k, v, sep) # es) = k @ CHR ''='' # fwd_text v @ sep @ render_forwarded es"

fun wf_forwarded :: "(string \<times> fwd_value \<times> string) list \<Rightarrow> bool" where
  "wf_forwarded [] = True"
| "wf_forwarded ((k, v, sep) # es) =
     (k \<noteq> [] \<and> \<not> is_sep (hd k) \<and> CHR ''='' \<notin> set k \<and> list_all is_sep sep \<and>
      (case v of
         Tok s \<Rightarrow> s \<noteq> [] \<and> hd s \<noteq> CHR 0x22 \<and> list_all (\<lambda>c. \<not> is_sep c) s \<and>
                  (sep = [] \<longrightarrow> es = [] \<and> 1 < length s)
       | Quoted s \<Rightarrow> quoted_body s) \<and>
      wf_forwarded es)"

definition forwarded_for :: "inet_api \<Rightarrow> string \<times> fwd_value \<times> string \<Rightarrow> ipaddr option" where
  "forwarded_for api e =
     (case e of (k, v, sep) \<Rightarrow> if map ascii_lower k = ''for'' then parse_public api (fwd_raw v) else None)"

lemma loop_key_consider:
  "parse_forwarded_loop api Key cv tok s = parse_forwarded_loop api Key cv' tok s"
  by (induction s arbitrary: tok) simp_all

lemma loop_between_reset:
  "parse_forwarded_loop api Between cv tok s = parse_forwarded_loop api Between False [] s"
  by (induction s arbitrary: tok) (auto intro: loop_key_consider)

lemmas loop_between_append = loop_between_reset [of _ _ "t @ u" for t u]

lemma loop_between_seps:
  "list_all is_sep sep \<Longrightarrow>
   parse_forwarded_loop api Between cv tok (sep @ s) = parse_forwarded_loop api Between False [] s"
  by (induction sep) (simp_all add: loop_between_reset [of api cv tok])

lemma loop_key:
  "CHR ''='' \<notin> set k \<Longrightarrow>
   parse_forwarded_loop api Key cv tok (k @ CHR ''='' # s) =
   parse_forwarded_loop api Before_value (key_is_for (tok @ k)) (tok @ k @ ''='') s"
  by (induction k arbitrary: tok) auto

lemma loop_token_sep:
  "list_all (\<lambda>c. \<not> is_sep c) v \<Longrightarrow> is_sep c \<Longrightarrow>
   parse_forwarded_loop api Value_token cv tok (v @ c # s) =
   (case (if cv then parse_public api (tok @ v) else None) of
      Some a \<Rightarrow> Some a
    | None \<Rightarrow> parse_forwarded_loop api Between False [] s)"
  by (induction v arbitrary: tok) (simp_all add: loop_between_append split: option.splits)

lemma loop_token_end:
  "list_all (\<lambda>c. \<not> is_sep c) v \<Longrightarrow> v \<noteq> [] \<Longrightarrow>
   parse_forwarded_loop api Value_token cv tok v = (if cv then parse_public api (tok @ v) else None)"
proof (induction v arbitrary: tok)
  case (Cons c v)
  then show ?case by (cases v) (simp_all split: option.splits)
qed simp

lemma loop_quoted:
  "quoted_body v \<Longrightarrow>
   parse_forwarded_loop api Value_quoted cv tok (v @ CHR 0x22 # s) =
   (case (if cv then parse_public api (tok @ v) else None) of
      Some a \<Rightarrow> Some a
    | None \<Rightarrow> parse_forwarded_loop api Between False [] s)"
proof (induction v arbitrary: tok rule: quoted_body.induct)
  case 1
  then show ?case by (simp add: loop_between_append split: option.splits)
next
  case (2 c cs)
  then show ?case by (auto split: list.splits if_splits)
qed

lemma length_3_conv: "length k = 3 \<longleftrightarrow> (\<exists>a b c. k = [a, b, c])"
  by (auto simp: numeral_3_eq_3 length_Suc_conv)

lemma ascii_lower_for:
  "ascii_lower c = CHR ''f'' \<longleftrightarrow> c = CHR ''f'' \<or> c = CHR ''F''"
  "ascii_lower c = CHR ''o'' \<longleftrightarrow> c = CHR ''o'' \<or> c = CHR ''O''"
  "ascii_lower c = CHR ''r'' \<longleftrightarrow> c = CHR ''r'' \<or> c = CHR ''R''"
  using of_char_less_256 [of c]
  by (auto simp: ascii_lower_def char_eq_nat)

lemma key_is_for_lower: "key_is_for k \<longleftrightarrow> map ascii_lower k = ''for''"
proof (cases "length k = 3")
  case True
  then show ?thesis by (auto simp: length_3_conv key_is_for_def ascii_lower_for)
next
  case False
  then have "map ascii_lower k \<noteq> ''for''" by (auto dest: arg_cong [of _ _ length])
  with False show ?thesis by (simp add: key_is_for_def)
qed

lemma loop_value:
  assumes "wf_forwarded ((k, v, sep) # es)"
  shows "parse_forwarded_loop api Before_value cv tok (fwd_text v @ sep @ render_forwarded es) =
    (case (if cv then parse_public api (fwd_raw v) else None) of
      Some a \<Rightarrow> Some a
    | None \<Rightarrow> parse_forwarded_loop api Between False [] (render_forwarded es))"
proof (cases v)
  case (Quoted s)
  with assms loop_quoted [of s api cv "[]" "sep @ render_forwarded es"] show ?thesis
    by (simp add: loop_between_seps split: option.splits)
next
  case (Tok s)
  with assms obtain c cs where s: "s = c # cs" "c \<noteq> CHR 0x22" "\<not> is_sep c"
      "list_all (\<lambda>c. \<not> is_sep c) cs"
    by (cases s) auto
  show ?thesis
  proof (cases sep)
    case Nil
    with assms Tok s show ?thesis
      by (simp add: loop_token_end split: option.splits)
  next
    case (Cons d ds)
    with assms Tok s loop_token_sep [of cs d api cv "[c]" "ds @ render_forwarded es"] show ?thesis
      by (simp add: loop_between_seps split: option.splits)
  qed
qed

lemma parse_forwarded_render:
  assumes "wf_forwarded es"
  shows "parse_forwarded api (render_forwarded es) = first_some (forwarded_for api) es"
  using assms
proof (induction es)
  case Nil
  then show ?case by (simp add: parse_forwarded_def)
next
  case (Cons e es)
  obtain k v sep where e: "e = (k, v, sep)" by (cases e)
  with Cons.prems obtain c cs where k: "k = c # cs" "\<not> is_sep c" "CHR ''='' \<notin> set cs"
    by (cases k) auto
  have "parse_forwarded api (render_forwarded (e # es)) =
      parse_forwarded_loop api Before_value (key_is_for k) (k @ ''='')
        (fwd_text v @ sep @ render_forwarded es)"
    using k by (simp add: parse_forwarded_def e loop_key)
  also have "\<dots> = (case forwarded_for api e of Some a \<Rightarrow> Some a
      | None \<Rightarrow> parse_forwarded api (render_forwarded es))"
    using Cons.prems unfolding e
    by (simp only: loop_value key_is_for_lower forwarded_for_def parse_forwarded_def split)
  finally show ?case using Cons e by (simp split: option.splits)
qed

section \<open>Ports\<close>

lemma port_pair_single_colon:
  assumes "CHR '':'' \<notin> set h" "CHR '':'' \<notin> set p" "h = [] \<or> hd h \<noteq> CHR ''[''"
  shows "parse_ip_address_maybe_port_pair api (h @ CHR '':'' # p) = parse_ip_address api h"
  using assms by (cases h) (auto simp: parse_ip_address_maybe_port_pair_def scan_simps
      memrchr_None [THEN iffD2] memrchr_append_fresh [of _ _ "_ # _", simplified])

lemma port_pair_bracket:
  assumes "CHR '']'' \<notin> set h"
  shows "parse_ip_address_maybe_port_pair api (CHR ''['' # h @ CHR '']'' # p) = parse_ip_address api h"
  using assms by (simp add: parse_ip_address_maybe_port_pair_def scan_simps)

lemma port_pair_plain:
  assumes "a \<noteq> []" "hd a \<noteq> CHR ''[''" "CHR '':'' \<notin> set a \<or> memchr (CHR '':'') a \<noteq> memrchr (CHR '':'') a"
  shows "parse_ip_address_maybe_port_pair api a = parse_ip_address api a"
  using assms memchr_None [of "CHR '':''" a]
  by (auto simp: parse_ip_address_maybe_port_pair_def simp del: memchr_None split: option.splits)

section \<open>Mapped addresses\<close>

lemma length_ip4_mapped_prefix [simp]: "length ip4_mapped_prefix = 12"
  by (simp add: ip4_mapped_prefix_def)

lemma parse_ip_address_mapped:
  assumes "s \<noteq> []" "inet_pton4 api (c_str s) = None"
    "inet_pton6 api (c_str s) = Some (ip4_mapped_prefix @ q)" "length q = 4"
  shows "\<exists>a. parse_ip_address api s = Some a \<and> af a = AF_INET \<and> v4 a = q"
  using assms by (simp add: parse_ip_address_def v4_def)

section \<open>Proxy headers\<close>

lemma parse_public_not_private: "parse_public api s = Some a \<Longrightarrow> \<not> is_private a"
  by (auto simp: parse_public_def split: option.splits if_splits)

lemma parse_x_forwarded_for_not_private:
  "parse_x_forwarded_for api v = Some a \<Longrightarrow> \<not> is_private a"
  unfolding parse_x_forwarded_for_split
  by (drule first_some_SomeD) (auto dest: parse_public_not_private)

lemma public_or_continue:
  assumes "(case t of None \<Rightarrow> r | Some x \<Rightarrow> Some x) = Some a"
    and "t = Some a \<Longrightarrow> P" and "t = None \<Longrightarrow> r = Some a \<Longrightarrow> P"
  shows P
  using assms by (cases t) simp_all

lemma parse_forwarded_loop_not_private:
  "parse_forwarded_loop api st cv tok s = Some a \<Longrightarrow> \<not> is_private a"
proof (induction api st cv tok s rule: parse_forwarded_loop.induct)
  case (5 api cv tok r rs)
  show ?case
  proof (cases "is_sep r \<or> rs = []")
    case True
    let ?t = "if cv then parse_public api (if is_sep r then tok else tok @ [r]) else None"
    have "(case ?t of None \<Rightarrow> parse_forwarded_loop api Between cv (tok @ [r]) rs
        | Some x \<Rightarrow> Some x) = Some a"
      using 5 (3) True by (simp only: parse_forwarded_loop.simps Let_def simp_thms if_True)
    then show ?thesis
      by (rule public_or_continue)
         (use True 5 (1) in \<open>auto dest: parse_public_not_private split: if_splits\<close>)
  next
    case False
    with 5 (2, 3) show ?thesis by simp
  qed
next
  case (6 api cv tok r rs)
  let ?t = "if cv then parse_public api tok else None"
  consider (quote) "r = CHR 0x22" | (escape) "r \<noteq> CHR 0x22" "r = CHR 0x5C"
    | (other) "r \<noteq> CHR 0x22" "r \<noteq> CHR 0x5C" by blast
  then show ?case
  proof cases
    case quote
    with 6 (4) have "(case ?t of None \<Rightarrow> parse_forwarded_loop api Between cv (tok @ [r]) rs
        | Some x \<Rightarrow> Some x) = Some a"
      by (simp only: parse_forwarded_loop.simps simp_thms if_True)
    then show ?thesis
      by (rule public_or_continue)
         (use quote 6 (1) in \<open>auto dest: parse_public_not_private split: if_splits\<close>)
  next
    case escape
    with 6 (2, 4) show ?thesis by (simp split: list.splits)
  next
    case other
    with 6 (3, 4) show ?thesis by simp
  qed
qed (auto split: if_splits)

lemma parse_forwarded_not_private: "parse_forwarded api v = Some a \<Longrightarrow> \<not> is_private a"
  unfolding parse_forwarded_def by (rule parse_forwarded_loop_not_private)

lemma parse_plain_not_private: "parse_plain api v = Some a \<Longrightarrow> \<not> is_private a"
  by (auto simp: parse_plain_def split: option.splits if_splits)

lemmas not_private = parse_x_forwarded_for_not_private parse_forwarded_not_private
  parse_plain_not_private

lemma priority_header_map_not_private:
  "node \<in> set priority_header_map \<Longrightarrow> hm_parse_fn node api v = Some a \<Longrightarrow> \<not> is_private a"
  unfolding priority_header_map_def by (auto dest: not_private)

text \<open>The address a header of the table gives, if any.\<close>

definition header_address :: "inet_api \<Rightarrow> zend_array \<Rightarrow> header_map_node \<Rightarrow> ipaddr option" where
  "header_address api server node =
     (case zend_hash_find server (KStr (hm_key node)) of
        Some (ZString val) \<Rightarrow> if val = [] then None else hm_parse_fn node api val
      | _ \<Rightarrow> None)"

lemma find_in_headers_first:
  "find_in_headers api server nodes =
   map_option (ipaddr_to_zstr api) (first_some (header_address api server) nodes)"
  by (induction nodes) (simp_all add: header_address_def split: option.splits zval.splits)

lemma header_address_not_private:
  "node \<in> set priority_header_map \<Longrightarrow> header_address api server node = Some a \<Longrightarrow> \<not> is_private a"
  by (auto simp: header_address_def dest: priority_header_map_not_private
      split: option.splits zval.splits if_splits)

lemma dd_ip_extraction_find_priority:
  assumes "ipheader = None \<or> ipheader = Some []"
  shows "dd_ip_extraction_find api ipheader (Some (ZArray packed wo ht)) =
    Defined (case first_some (header_address api ht) priority_header_map of
       Some a \<Rightarrow> ipaddr_to_zstr api a
     | None \<Rightarrow> (case fetch_arr_str ht ''REMOTE_ADDR'' of
           None \<Rightarrow> None
         | Some value \<Rightarrow> (case parse_ip_address api value of
               None \<Rightarrow> None | Some a \<Rightarrow> ipaddr_to_zstr api a)))"
  using assms
  by (auto simp: dd_ip_extraction_find_def find_in_headers_first try_extract_def
      remote_addr_key_def parse_plain_raw_def split: option.splits)

lemma dd_ip_extraction_find_public:
  assumes "dd_ip_extraction_find api ipheader (Some (ZArray packed wo ht)) = Defined (Some ip)"
  shows "\<exists>a. ipaddr_to_zstr api a = Some ip \<and>
    (\<not> is_private a \<or>
     (ipheader = None \<or> ipheader = Some []) \<and>
     (\<exists>value. fetch_arr_str ht ''REMOTE_ADDR'' = Some value \<and> parse_ip_address api value = Some a))"
proof (cases "ipheader = None \<or> ipheader = Some []")
  case True
  show ?thesis
  proof (cases "first_some (header_address api ht) priority_header_map")
    case None
    with assms True show ?thesis
      by (fastforce simp: dd_ip_extraction_find_priority split: option.splits)
  next
    case (Some a)
    from first_some_SomeD [OF this] have "\<not> is_private a"
      using header_address_not_private by blast
    with assms True Some show ?thesis
      by (auto simp: dd_ip_extraction_find_priority)
  qed
next
  case False
  with assms show ?thesis
    by (auto 4 4 simp: dd_ip_extraction_find_def dest: not_private split: option.splits if_splits)
qed

lemma dd_ip_extraction_find_defined:
  "is_array (the server) \<and> server \<noteq> None \<or> ipheader = None \<or> ipheader = Some [] \<Longrightarrow>
   dd_ip_extraction_find api ipheader server \<noteq> Undefined"
  by (auto simp: dd_ip_extraction_find_def split: option.splits zval.splits)

section \<open>The configured header\<close>

lemma client_ip_header_loop_map: "client_ip_header_loop v = map upper_dash_char v"
  by (induction v) simp_all

lemma of_char_upper_dash:
  "(of_char (upper_dash_char c) :: nat) =
     (if 97 \<le> (of_char c :: nat) \<and> (of_char c :: nat) \<le> 122 then of_char c - 32
      else if (of_char c :: nat) = 45 then 95 else of_char c)"
  using of_char_less_256 [of c] by (auto simp: upper_dash_char_def char_eq_nat simp del: of_char_eq_iff)

lemma header_char_upper_dash: "header_char (upper_dash_char c) = header_char c"
  by (simp only: char_eq_nat of_char_header_char of_char_upper_dash) auto

lemma client_ip_header_roundtrip:
  assumes "v \<noteq> []" "hd v \<noteq> nul"
  shows "take 5 (dd_parse_client_ip_header_config v) = ''HTTP_'' \<and>
    dd_string_normalize_header (drop 5 (dd_parse_client_ip_header_config v)) =
    dd_string_normalize_header v"
  using assms
  by (simp add: dd_parse_client_ip_header_config_def client_ip_header_loop_map normalize_header_map
      header_char_upper_dash)

section \<open>Properties\<close>

text \<open>An instance of the address functions for a few addresses.\<close>

definition sample_inet :: inet_api where
  "sample_inet =
    \<lparr>inet_pton4 = (\<lambda>s. if s = ''8.8.8.8'' then Some [8, 8, 8, 8]
        else if s = ''10.0.0.1'' then Some [10, 0, 0, 1] else None),
     inet_pton6 = (\<lambda>s. if s = ''::1'' then Some (replicate 15 0 @ [1])
        else if s = ''2001::2'' then Some ([0x20, 1] @ replicate 13 0 @ [2])
        else if s = ''::ffff:8.8.8.8'' then Some (ip4_mapped_prefix @ [8, 8, 8, 8]) else None),
     inet_ntop = (\<lambda>fam b. if b = [8, 8, 8, 8] then Some ''8.8.8.8''
        else if b = [10, 0, 0, 1] then Some ''10.0.0.1''
        else if b = [0x20, 1] @ replicate 13 0 @ [2] then Some ''2001::2'' else None)\<rparr>"

text \<open>
  Property C40: \<open>_is_private\<close>, with its tables of masks and byte-swapped constants, decides
  membership in the private ranges: 10/8, 172.16/12, 192.168/16, 127/8 and 169.254/16 for IPv4,
  and ::1, fe80::/10, fec0::/10 and fc00::/7 for IPv6.
\<close>

theorem is_private_ranges:
  assumes "storage a = [b0, b1, b2, b3] @ rest" and "af a = AF_INET6 \<Longrightarrow> length rest = 12"
  shows "is_private a \<longleftrightarrow>
    (case af a of
       AF_INET \<Rightarrow> b0 = 10 \<or> b0 = 172 \<and> 16 \<le> b1 \<and> b1 \<le> 31 \<or> b0 = 192 \<and> b1 = 168 \<or>
                  b0 = 127 \<or> b0 = 169 \<and> b1 = 254
     | AF_INET6 \<Rightarrow> storage a = replicate 15 0 @ [1] \<or> b0 = 0xFE \<and> 0x80 \<le> b1 \<or>
                   b0 = 0xFC \<or> b0 = 0xFD)"
  using assms is_private_v6_bytes [of "b2 # b3 # rest" b0 b1]
  by (cases "af a") (simp_all add: is_private_def v4_def v6_def is_private_v4_bytes)

theorem is_private_ranges_witness:
  "is_private \<lparr>af = AF_INET, storage = [172, 16, 0, 1] @ replicate 12 0\<rparr> \<and>
   \<not> is_private \<lparr>af = AF_INET6, storage = [172, 16, 0, 1] @ replicate 12 0\<rparr>"
  using is_private_ranges [of "\<lparr>af = AF_INET, storage = [172, 16, 0, 1] @ replicate 12 0\<rparr>"
      172 16 0 1 "replicate 12 0"]
    is_private_ranges [of "\<lparr>af = AF_INET6, storage = [172, 16, 0, 1] @ replicate 12 0\<rparr>"
      172 16 0 1 "replicate 12 0"]
    replicate_Suc [of 14 "0 :: byte"]
  by simp

text \<open>
  Property C18: the X-Forwarded-For loop returns the first public address among the
  comma-separated entries, each stripped of its leading spaces and of a port, whatever the
  entries before it are.
\<close>

theorem x_forwarded_for_first_public:
  "parse_x_forwarded_for api value =
   first_some (\<lambda>entry. parse_public api (skip_spaces entry)) (split_on (CHR '','') value)"
  by (rule parse_x_forwarded_for_split)

text \<open>
  Property C17: the Forwarded state machine, run on any header rendered from a list of
  key/value pairs with token or quoted values (escapes included) and separators, returns the
  first public address among the values of the keys that spell "for" in any case.
\<close>

theorem forwarded_first_public:
  assumes "wf_forwarded es"
  shows "parse_forwarded api (render_forwarded es) = first_some (forwarded_for api) es"
  using assms by (rule parse_forwarded_render)

theorem forwarded_first_public_witness:
  "parse_forwarded sample_inet
     (render_forwarded [(''by'', Tok ''8.8.8.8'', '';''), (''For'', Tok ''10.0.0.1:80'', '', ''),
        (''FOR'', Quoted ''[2001::2]:80'', [])]) =
   Some \<lparr>af = AF_INET6, storage = [0x20, 1] @ replicate 13 0 @ [2]\<rparr>"
proof -
  let ?es = "[(''by'', Tok ''8.8.8.8'', '';''), (''For'', Tok ''10.0.0.1:80'', '', ''),
        (''FOR'', Quoted ''[2001::2]:80'', [])]"
  have "wf_forwarded ?es" by code_simp
  from forwarded_first_public [OF this, of sample_inet]
  have "parse_forwarded sample_inet (render_forwarded ?es) =
    first_some (forwarded_for sample_inet) ?es" .
  also have "\<dots> = Some \<lparr>af = AF_INET6, storage = [0x20, 1] @ replicate 13 0 @ [2]\<rparr>"
    by code_simp
  finally show ?thesis .
qed

text \<open>
  A port is stripped from "host:port" and from "[host]:port", and an address
  with no colon or with several (a bare IPv6 address) is parsed whole.
\<close>

theorem maybe_port_pair_cases:
  "(CHR '']'' \<notin> set host \<longrightarrow>
     parse_ip_address_maybe_port_pair api (CHR ''['' # host @ CHR '']'' # port) =
     parse_ip_address api host) \<and>
   (host = [] \<or> hd host \<noteq> CHR ''['' \<longrightarrow> CHR '':'' \<notin> set host \<longrightarrow>
     parse_ip_address_maybe_port_pair api host = parse_ip_address api host \<and>
     (CHR '':'' \<notin> set port \<longrightarrow>
       parse_ip_address_maybe_port_pair api (host @ CHR '':'' # port) = parse_ip_address api host) \<and>
     (CHR '':'' \<in> set port \<longrightarrow>
       parse_ip_address_maybe_port_pair api (host @ CHR '':'' # port) =
       parse_ip_address api (host @ CHR '':'' # port)))"
proof (intro conjI impI)
  assume h: "host = [] \<or> hd host \<noteq> CHR ''[''" "CHR '':'' \<notin> set host"
  show "parse_ip_address_maybe_port_pair api host = parse_ip_address api host"
    using h port_pair_plain [of host api]
    by (cases host) (simp_all add: parse_ip_address_maybe_port_pair_def parse_ip_address_def)
  assume p: "CHR '':'' \<in> set port"
  have "hd (host @ CHR '':'' # port) \<noteq> CHR ''[''" using h by (cases host) simp_all
  then show "parse_ip_address_maybe_port_pair api (host @ CHR '':'' # port) =
      parse_ip_address api (host @ CHR '':'' # port)"
    using h p memrchr_later [of "CHR '':''" port host]
    by (intro port_pair_plain) (auto simp: scan_simps)
qed (simp_all add: port_pair_bracket port_pair_single_colon)

theorem maybe_port_pair_cases_witness:
  "parse_ip_address_maybe_port_pair sample_inet ''8.8.8.8:443'' =
     Some \<lparr>af = AF_INET, storage = [8, 8, 8, 8]\<rparr> \<and>
   parse_ip_address_maybe_port_pair sample_inet ''[2001::2]:443'' =
     Some \<lparr>af = AF_INET6, storage = [0x20, 1] @ replicate 13 0 @ [2]\<rparr>"
proof -
  have "parse_ip_address_maybe_port_pair sample_inet (''8.8.8.8'' @ CHR '':'' # ''443'') =
      parse_ip_address sample_inet ''8.8.8.8''"
    using maybe_port_pair_cases [of "''8.8.8.8''" sample_inet "''443''"] by simp
  moreover have "parse_ip_address_maybe_port_pair sample_inet
      (CHR ''['' # ''2001::2'' @ CHR '']'' # '':443'') = parse_ip_address sample_inet ''2001::2''"
    using maybe_port_pair_cases [of "''2001::2''" sample_inet "'':443''"] by simp
  moreover have "parse_ip_address sample_inet ''8.8.8.8'' =
      Some \<lparr>af = AF_INET, storage = [8, 8, 8, 8]\<rparr>" by code_simp
  moreover have "parse_ip_address sample_inet ''2001::2'' =
      Some \<lparr>af = AF_INET6, storage = [0x20, 1] @ replicate 13 0 @ [2]\<rparr>" by code_simp
  ultimately show ?thesis by simp
qed



text \<open>
  Property C16: a header cannot make the extension report a private address: an address found
  is public, or it is the connection's own REMOTE_ADDR with no header configured.
\<close>

theorem ip_extraction_public:
  assumes "dd_ip_extraction_find api ipheader (Some (ZArray packed wo ht)) = Defined (Some ip)"
  shows "\<exists>a. ipaddr_to_zstr api a = Some ip \<and>
    (\<not> is_private a \<or>
     (ipheader = None \<or> ipheader = Some []) \<and>
     (\<exists>value. fetch_arr_str ht ''REMOTE_ADDR'' = Some value \<and> parse_ip_address api value = Some a))"
  using assms by (rule dd_ip_extraction_find_public)

theorem ip_extraction_public_witness:
  "\<exists>a. ipaddr_to_zstr sample_inet a = Some ''8.8.8.8'' \<and> \<not> is_private a"
proof -
  have "dd_ip_extraction_find sample_inet (Some ''HTTP_X'')
      (Some (ZArray False True [(KStr ''HTTP_X'', ZString ''for=8.8.8.8'')])) =
      Defined (Some ''8.8.8.8'')" by code_simp
  from ip_extraction_public [OF this] show ?thesis by auto
qed

text \<open>
  The configured header name is turned into the key under which PHP stores that
  header: "HTTP_" and a name that denotes the same header (equal up to case and up to "-" and
  "_", as header names are compared elsewhere in the extension).
\<close>

theorem client_ip_header_config_key:
  assumes "v \<noteq> []" "hd v \<noteq> nul"
  shows "take 5 (dd_parse_client_ip_header_config v) = ''HTTP_'' \<and>
    dd_string_normalize_header (drop 5 (dd_parse_client_ip_header_config v)) =
    dd_string_normalize_header v"
  using assms by (rule client_ip_header_roundtrip)

theorem client_ip_header_config_key_witness:
  "dd_parse_client_ip_header_config ''x-Real'' = ''HTTP_X_REAL'' \<and>
   dd_string_normalize_header ''X_REAL'' = dd_string_normalize_header ''x-Real''"
proof -
  have "dd_parse_client_ip_header_config ''x-Real'' = ''HTTP_X_REAL''" by code_simp
  with client_ip_header_config_key [of "''x-Real''"] show ?thesis by simp
qed

end
