(* ===== verification/Os.thy ===== *)
theory Os
  imports Prelude "HOL-Library.State_Monad" "HOL-Library.Multiset"
begin

text \<open>
  The operating system as the extension sees it. A system call is a value of the type
  \<open>syscall\<close>; its result is chosen by the environment, a parameter of every definition that makes
  a call, from the calls made before and the call itself. The calls and their results are
  recorded in the field \<open>trace\<close> of the state, so that a theorem can speak of the descriptors that
  are open and of the order of calls, and holds for every behaviour of the system unless it states
  a hypothesis on the environment.

  Stateful code is in the state monad of the library; \<open>wp\<close> is its weakest precondition, with one
  equation per construct.
\<close>

section \<open>System calls\<close>

datatype open_flag = O_WRONLY | O_APPEND | O_NOFOLLOW | O_TRUNC | O_CREAT

datatype syscall =
    Sys_socket
  | Sys_getfl int
  | Sys_setfl int int
  | Sys_connect int string
  | Sys_poll int int
  | Sys_close int
  | Sys_writev int "string list"
  | Sys_set_passcred int int
  | Sys_set_timeo int int int int
  | Sys_recv int nat
  | Sys_send int string
  | Sys_recvmsg int nat
  | Sys_malloc nat
  | Sys_free nat
  | Sys_geteuid
  | Sys_getuid
  | Sys_getgid
  | Sys_getenv string
  | Sys_open string
  | Sys_flock int
  | Sys_unlink string
  | Sys_bind int string
  | Sys_listen int int
  | Sys_fork
  | Sys_waitpid int
  | Sys_clock_gettime
  | Sys_signal_dfl int
  | Sys_sigprocmask
  | Sys_getfd int
  | Sys_dup int
  | Sys_dup2 int int
  | Sys_chdir string
  | Sys_umask int
  | Sys_sigemptyset
  | Sys_sighup_ignore
  | Sys_setsid
  | Sys_execv string "string list"
  | Sys_exit int
  | Sys_exit_now int
  | Sys_opendir string
  | Sys_closedir
  | Sys_getrlimit
  | Sys_accept int
  | Sys_chmod string
  | Sys_fstat int
  | Sys_open_log string "open_flag list"
  | Sys_write int string
  | Sys_getpid
  | Sys_openlog string
  | Sys_syslog int string
  | Sys_closelog
  | Sys_php_verror u32 u32 string

text \<open>
  \<open>rv\<close> is the value returned; the other fields are what the call stores through its pointer
  arguments: \<open>errno\<close>, a time (seconds, nanoseconds), bytes received (also the text a name lookup
  returns), flags (\<open>revents\<close> of \<open>poll\<close>, a wait status), and the ancillary data of \<open>recvmsg\<close>
  (length, level, type and the user id inside). For \<open>opendir\<close>, \<open>out_names\<close> are the names that the
  successive calls of \<open>readdir\<close> return before the final NULL.
\<close>

record sys_result =
  rv :: int
  errno :: int
  out_time :: "int \<times> int"
  out_bytes :: string
  out_flags :: int
  out_cmsg :: "(int \<times> int \<times> int \<times> int) option"
  out_names :: "string list"

definition sys_ret :: "int \<Rightarrow> sys_result" where
  "sys_ret n = \<lparr>rv = n, errno = 0, out_time = (0, 0), out_bytes = [], out_flags = 0, out_cmsg = None,
      out_names = []\<rparr>"

type_synonym sys_trace = "(syscall \<times> sys_result) list"
type_synonym sys_env = "sys_trace \<Rightarrow> syscall \<Rightarrow> sys_result"

record world =
  trace :: sys_trace

definition sys :: "sys_env \<Rightarrow> syscall \<Rightarrow> ('w world_scheme, sys_result) state" where
  "sys env c = State (\<lambda>w. (env (trace w) c, w\<lparr>trace := trace w @ [(c, env (trace w) c)]\<rparr>))"

definition ret :: "'a \<Rightarrow> ('s, 'a) state" where
  "ret a = State_Monad.return a"

definition gets :: "('s \<Rightarrow> 'a) \<Rightarrow> ('s, 'a) state" where
  "gets f = State (\<lambda>s. (f s, s))"

definition modify :: "('s \<Rightarrow> 's) \<Rightarrow> ('s, unit) state" where
  "modify f = State (\<lambda>s. ((), f s))"

lemma run_state_simps [simp]:
  "run_state (sys env c) w = (env (trace w) c, w\<lparr>trace := trace w @ [(c, env (trace w) c)]\<rparr>)"
  "run_state (ret a) s = (a, s)"
  "run_state (gets f) s = (f s, s)"
  "run_state (modify g) s = ((), g s)"
  by (simp_all add: sys_def ret_def gets_def modify_def)

section \<open>Weakest preconditions\<close>

definition wp :: "('s, 'a) state \<Rightarrow> ('a \<Rightarrow> 's \<Rightarrow> bool) \<Rightarrow> 's \<Rightarrow> bool" where
  "wp m Q s = (case run_state m s of (a, s') \<Rightarrow> Q a s')"

named_theorems wp_rules \<open>equations and rules of the weakest precondition\<close>

lemma wp_bind [wp_rules]: "wp (m \<bind> f) Q s = wp m (\<lambda>a. wp (f a) Q) s"
  by (simp add: wp_def split: prod.splits)

lemma wp_ret [wp_rules]: "wp (ret a) Q s = Q a s"
  by (simp add: wp_def)

lemma wp_gets [wp_rules]: "wp (gets f) Q s = Q (f s) s"
  by (simp add: wp_def)

lemma wp_modify [wp_rules]: "wp (modify f) Q s = Q () (f s)"
  by (simp add: wp_def)

lemma wp_if [wp_rules]: "wp (if b then m else n) Q s = (if b then wp m Q s else wp n Q s)"
  by simp

lemma wp_sys [wp_rules]:
  "wp (sys env c) Q w =
   Q (env (trace w) c) (w\<lparr>trace := trace w @ [(c, env (trace w) c)]\<rparr>)"
  by (simp add: wp_def)

text \<open>
  The same constructs as introduction rules; the result of a call becomes an arbitrary value, of
  which the rule for a call gives what is assumed of the environment.
\<close>

named_theorems wp_intros \<open>introduction rules of the weakest precondition\<close>

lemma wp_bindI [wp_intros]: "wp m (\<lambda>a. wp (f a) Q) s \<Longrightarrow> wp (m \<bind> f) Q s"
  by (simp add: wp_bind)

lemma wp_retI [wp_intros]: "Q a s \<Longrightarrow> wp (ret a) Q s"
  by (simp add: wp_ret)

lemma wp_getsI [wp_intros]: "Q (f s) s \<Longrightarrow> wp (gets f) Q s"
  by (simp add: wp_gets)

lemma wp_modifyI [wp_intros]: "Q () (f s) \<Longrightarrow> wp (modify f) Q s"
  by (simp add: wp_modify)

lemma wp_ifI [wp_intros]:
  "(b \<Longrightarrow> wp m Q s) \<Longrightarrow> (\<not> b \<Longrightarrow> wp n Q s) \<Longrightarrow> wp (if b then m else n) Q s"
  by simp

lemma wp_case_prodI [wp_intros]:
  "(\<And>x y. p = (x, y) \<Longrightarrow> wp (m x y) Q s) \<Longrightarrow> wp (case p of (x, y) \<Rightarrow> m x y) Q s"
  by (cases p) simp

lemma wp_case_optionI [wp_intros]:
  "(p = None \<Longrightarrow> wp m Q s) \<Longrightarrow> (\<And>x. p = Some x \<Longrightarrow> wp (n x) Q s) \<Longrightarrow>
   wp (case p of None \<Rightarrow> m | Some x \<Rightarrow> n x) Q s"
  by (cases p) simp_all

lemma wp_sysI:
  "(\<And>r. Q r (w\<lparr>trace := trace w @ [(c, r)]\<rparr>)) \<Longrightarrow> wp (sys env c) Q w"
  by (simp add: wp_sys)

lemma wp_sys_envI:
  "(\<And>r. P (trace w) c r \<Longrightarrow> Q r (w\<lparr>trace := trace w @ [(c, r)]\<rparr>)) \<Longrightarrow>
   (\<And>tr. P tr c (env tr c)) \<Longrightarrow> wp (sys env c) Q w"
  by (simp add: wp_sys)

lemma wp_mono: "wp m P s \<Longrightarrow> (\<And>a s'. P a s' \<Longrightarrow> Q a s') \<Longrightarrow> wp m Q s"
  by (simp add: wp_def split: prod.splits)

lemma wp_conj: "wp m P s \<Longrightarrow> wp m Q s \<Longrightarrow> wp m (\<lambda>a s'. P a s' \<and> Q a s') s"
  by (simp add: wp_def split: prod.splits)

lemma wp_run: "wp m Q s \<Longrightarrow> run_state m s = (a, s') \<Longrightarrow> Q a s'"
  by (simp add: wp_def)

lemma wp_fst_snd: "wp m Q s \<longleftrightarrow> Q (fst (run_state m s)) (snd (run_state m s))"
  by (simp add: wp_def split: prod.splits)

lemma wp_True: "wp m (\<lambda>_ _. True) s"
  by (simp add: wp_def split: prod.splits)

section \<open>Frames\<close>

text \<open>A relation that every step of a computation keeps between the states before and after it.\<close>

definition keeps :: "('s \<Rightarrow> 's \<Rightarrow> bool) \<Rightarrow> ('s, 'a) state \<Rightarrow> bool" where
  "keeps R m \<longleftrightarrow> (\<forall>s. R s (snd (run_state m s)))"

locale frame_relation =
  fixes R :: "'s \<Rightarrow> 's \<Rightarrow> bool"
  assumes frame_refl: "R s s"
    and frame_trans: "R s s' \<Longrightarrow> R s' s'' \<Longrightarrow> R s s''"
begin

lemma keeps_ret: "keeps R (ret a)"
  by (simp add: keeps_def frame_refl)

lemma keeps_gets: "keeps R (gets f)"
  by (simp add: keeps_def frame_refl)

lemma keeps_modify: "(\<And>s. R s (f s)) \<Longrightarrow> keeps R (modify f)"
  by (simp add: keeps_def)

lemma keeps_State: "(\<And>s. R s (snd (f s))) \<Longrightarrow> keeps R (State f)"
  by (simp add: keeps_def)

lemma keeps_bind: "keeps R m \<Longrightarrow> (\<And>a. keeps R (f a)) \<Longrightarrow> keeps R (m \<bind> f)"
  by (auto simp: keeps_def case_prod_beta intro: frame_trans)

lemma keeps_if: "(b \<Longrightarrow> keeps R m) \<Longrightarrow> (\<not> b \<Longrightarrow> keeps R n) \<Longrightarrow> keeps R (if b then m else n)"
  by simp

lemma keeps_case_option:
  "keeps R m \<Longrightarrow> (\<And>x. keeps R (n x)) \<Longrightarrow> keeps R (case p of None \<Rightarrow> m | Some x \<Rightarrow> n x)"
  by (simp split: option.splits)

lemma keeps_case_prod: "(\<And>x y. keeps R (m x y)) \<Longrightarrow> keeps R (case p of (x, y) \<Rightarrow> m x y)"
  by (simp split: prod.splits)

lemma keeps_case_sum:
  "(\<And>x. keeps R (m x)) \<Longrightarrow> (\<And>y. keeps R (n y)) \<Longrightarrow> keeps R (case p of Inl x \<Rightarrow> m x | Inr y \<Rightarrow> n y)"
  by (simp split: sum.splits)

lemma keeps_wp: "keeps R m \<Longrightarrow> wp m (\<lambda>_. R s) s"
  by (simp add: keeps_def wp_fst_snd)

lemmas keeps_rules = keeps_ret keeps_gets keeps_bind keeps_if keeps_case_option keeps_case_prod keeps_case_sum

end

text \<open>A result that has a property whatever the state.\<close>

definition yields :: "('a \<Rightarrow> bool) \<Rightarrow> ('s, 'a) state \<Rightarrow> bool" where
  "yields P m \<longleftrightarrow> (\<forall>s. P (fst (run_state m s)))"

lemma yields_ret: "P a \<Longrightarrow> yields P (ret a)"
  by (simp add: yields_def)

lemma yields_bind: "(\<And>a. yields P (f a)) \<Longrightarrow> yields P (m \<bind> f)"
  by (simp add: yields_def case_prod_beta)

lemma yields_bind_result: "yields Q m \<Longrightarrow> (\<And>a. Q a \<Longrightarrow> yields P (f a)) \<Longrightarrow> yields P (m \<bind> f)"
  by (simp add: yields_def case_prod_beta)

lemma yields_if: "(b \<Longrightarrow> yields P m) \<Longrightarrow> (\<not> b \<Longrightarrow> yields P n) \<Longrightarrow> yields P (if b then m else n)"
  by simp

lemma yields_case_option:
  "(p = None \<Longrightarrow> yields P m) \<Longrightarrow> (\<And>x. p = Some x \<Longrightarrow> yields P (n x)) \<Longrightarrow> yields P (case p of None \<Rightarrow> m | Some x \<Rightarrow> n x)"
  by (simp split: option.splits)

lemma yields_case_prod: "(\<And>x y. p = (x, y) \<Longrightarrow> yields P (m x y)) \<Longrightarrow> yields P (case p of (x, y) \<Rightarrow> m x y)"
  by (simp split: prod.splits)

lemmas yields_rules = yields_if yields_bind

lemma wp_yields_bind:
  assumes "yields P m" "\<And>a s'. P a \<Longrightarrow> wp (f a) Q s'"
  shows "wp (m \<bind> f) Q s"
  using assms by (auto simp: wp_fst_snd yields_def case_prod_beta)

lemma wp_any_bind: "(\<And>a s'. wp (f a) Q s') \<Longrightarrow> wp (m \<bind> f) Q s"
  by (auto simp: wp_fst_snd case_prod_beta)

section \<open>Open descriptors\<close>

text \<open>The descriptors a sequence of calls has opened and not closed.\<close>

fun fd_step :: "int multiset \<Rightarrow> syscall \<times> sys_result \<Rightarrow> int multiset" where
  "fd_step M (Sys_socket, r) = (if rv r = -1 then M else add_mset (rv r) M)"
| "fd_step M (Sys_open p, r) = (if rv r = -1 then M else add_mset (rv r) M)"
| "fd_step M (Sys_open_log p fl, r) = (if rv r = -1 then M else add_mset (rv r) M)"
| "fd_step M (Sys_close fd, r) = M - {#fd#}"
| "fd_step M _ = M"

definition open_fds :: "sys_trace \<Rightarrow> int multiset" where
  "open_fds tr = foldl fd_step {#} tr"

lemma open_fds_Nil [simp]: "open_fds [] = {#}"
  by (simp add: open_fds_def)

lemma open_fds_append [simp]: "open_fds (tr @ es) = foldl fd_step (open_fds tr) es"
  by (simp add: open_fds_def)

text \<open>
  A new descriptor is a positive number: descriptor 0 is the standard input, which a PHP process
  keeps open.
\<close>

definition positive_fds :: "sys_env \<Rightarrow> bool" where
  "positive_fds env =
     (\<forall>tr c. (c = Sys_socket \<or> (\<exists>p. c = Sys_open p)) \<longrightarrow> rv (env tr c) = -1 \<or> rv (env tr c) > 0)"

lemma positive_fdsD:
  "positive_fds env \<Longrightarrow> rv (env tr Sys_socket) \<noteq> -1 \<Longrightarrow> rv (env tr Sys_socket) > 0"
  "positive_fds env \<Longrightarrow> rv (env tr (Sys_open p)) \<noteq> -1 \<Longrightarrow> rv (env tr (Sys_open p)) > 0"
  unfolding positive_fds_def by blast+

end
