(* ===== verification/Network.thy ===== *)
theory Network
  imports Os "HOL-Library.Signed_Division"
begin

text \<open>
  src/extension/network.c and network.h: the connection to the helper over a UNIX socket.

  A message is an 8-byte header ("dds", a NUL, the length of the body as a 32-bit number in
  machine order, which is little-endian) followed by the body. The connection is the record
  \<open>dd_conn\<close>, taken and returned by the operations that change it. A pointer argument through which
  \<open>recv\<close> stores a buffer is a \<open>recv_data\<close>: not assigned, a buffer with its contents, or left
  pointing to freed memory.
\<close>

section \<open>Connections\<close>

record dd_conn =
  sun_path :: string
  socket :: int

definition SUN_PATH_SIZE :: nat where "SUN_PATH_SIZE = 108"
definition CONNECT_TIMEOUT :: int where "CONNECT_TIMEOUT = 2500"
definition MAX_RECV_MESSAGE_SIZE :: nat where "MAX_RECV_MESSAGE_SIZE = 4 * 1024 * 1024"
definition HEADER_SIZE :: nat where "HEADER_SIZE = 8"
definition SSIZE_MAX :: nat where "SSIZE_MAX = 2 ^ 63 - 1"
definition INT_MAX :: nat where "INT_MAX = 2 ^ 31 - 1"
definition O_NONBLOCK :: int where "O_NONBLOCK = 0x800"
definition EINPROGRESS :: int where "EINPROGRESS = 115"
definition POLLERR :: int where "POLLERR = 8"
definition POLLHUP :: int where "POLLHUP = 16"

lemmas network_consts [dd_defs] = SUN_PATH_SIZE_def CONNECT_TIMEOUT_def MAX_RECV_MESSAGE_SIZE_def
  HEADER_SIZE_def SSIZE_MAX_def INT_MAX_def O_NONBLOCK_def EINPROGRESS_def POLLERR_def POLLHUP_def

definition dd_conn_connected :: "dd_conn \<Rightarrow> bool" where
  "dd_conn_connected conn = (socket conn > 0)"

definition dd_conn_destroy :: "sys_env \<Rightarrow> dd_conn \<Rightarrow> ('w world_scheme, int \<times> dd_conn) state" where
  "dd_conn_destroy env conn =
     (if socket conn = -1 then ret (0, conn)
      else do {
        r \<leftarrow> sys env (Sys_close (socket conn));
        ret (rv r, conn\<lparr>socket := -1\<rparr>)
      })"

text \<open>The error exits of \<open>dd_conn_init\<close> after the socket is open.\<close>

definition conn_init_fail ::
  "sys_env \<Rightarrow> dd_conn \<Rightarrow> ('w world_scheme, dd_result \<times> dd_conn) state" where
  "conn_init_fail env conn = do {
     (res, conn) \<leftarrow> dd_conn_destroy env conn;
     ret (dd_error, conn)
   }"

definition conn_init_finish ::
  "sys_env \<Rightarrow> dd_conn \<Rightarrow> int \<Rightarrow> ('w world_scheme, dd_result \<times> dd_conn) state" where
  "conn_init_finish env conn flags_before = do {
     _ \<leftarrow> sys env (Sys_setfl (socket conn) (flags_before AND NOT O_NONBLOCK));
     ret (dd_success, conn)
   }"

definition conn_init_poll ::
  "sys_env \<Rightarrow> dd_conn \<Rightarrow> int \<Rightarrow> ('w world_scheme, dd_result \<times> dd_conn) state" where
  "conn_init_poll env conn flags_before = do {
     p \<leftarrow> sys env (Sys_poll (socket conn) CONNECT_TIMEOUT);
     if rv p = 0 then conn_init_fail env conn
     else if rv p = -1 then conn_init_fail env conn
     else if out_flags p AND POLLERR \<noteq> 0 then conn_init_fail env conn
     else if out_flags p AND POLLHUP \<noteq> 0 then conn_init_fail env conn
     else conn_init_finish env conn flags_before
   }"

definition conn_init_connect ::
  "sys_env \<Rightarrow> dd_conn \<Rightarrow> int \<Rightarrow> ('w world_scheme, dd_result \<times> dd_conn) state" where
  "conn_init_connect env conn flags_before = do {
     c \<leftarrow> sys env (Sys_connect (socket conn) (sun_path conn));
     if rv c = -1 then
       (if errno c = EINPROGRESS then conn_init_poll env conn flags_before
        else conn_init_fail env conn)
     else conn_init_finish env conn flags_before
   }"

definition dd_conn_init ::
  "sys_env \<Rightarrow> dd_conn \<Rightarrow> string \<Rightarrow> ('w world_scheme, dd_result \<times> dd_conn) state" where
  "dd_conn_init env conn path =
     (if length path > SUN_PATH_SIZE - 1 then ret (dd_error, conn)
      else do {
        s \<leftarrow> sys env Sys_socket;
        conn \<leftarrow> ret (conn\<lparr>socket := rv s\<rparr>);
        if rv s = -1 then ret (dd_error, conn)
        else do {
          conn \<leftarrow> ret (conn\<lparr>sun_path := take (SUN_PATH_SIZE - 1) path\<rparr>);
          f \<leftarrow> sys env (Sys_getfl (socket conn));
          if rv f = -1 then conn_init_fail env conn
          else do {
            g \<leftarrow> sys env (Sys_setfl (socket conn) O_NONBLOCK);
            if rv g = -1 then conn_init_fail env conn
            else conn_init_connect env conn (rv f)
          }
        }
      })"

datatype comm_type = comm_type_recv | comm_type_send

definition sockopt_of :: "comm_type \<Rightarrow> int" where
  "sockopt_of t = (case t of comm_type_recv \<Rightarrow> 20 | comm_type_send \<Rightarrow> 21)"

definition dd_conn_set_timeout ::
  "sys_env \<Rightarrow> dd_conn \<Rightarrow> comm_type \<Rightarrow> int \<Rightarrow> ('w world_scheme, dd_result) state" where
  "dd_conn_set_timeout env conn t milliseconds =
     (if \<not> dd_conn_connected conn then ret dd_error
      else do {
        _ \<leftarrow> sys env (Sys_set_timeo (socket conn) (sockopt_of t)
               (milliseconds sdiv 1000) ((milliseconds smod 1000) * 1000));
        ret dd_success
      })"

section \<open>Sending\<close>

text \<open>A 32-bit number as four bytes in machine order, and back.\<close>

definition le32 :: "u32 \<Rightarrow> string" where
  "le32 w = map (\<lambda>i. char_of (unat (take_bit 8 (drop_bit (8 * i) w)))) [0..<4]"

fun le_value :: "string \<Rightarrow> nat" where
  "le_value [] = 0"
| "le_value (c # cs) = of_char c + 256 * le_value cs"

text \<open>\<open>dd_header h = {"dds", data_len}\<close>: the length is stored in a \<open>uint32_t\<close>.\<close>

definition dd_header :: "nat \<Rightarrow> string" where
  "dd_header data_len = ''dds'' @ [nul] @ le32 (of_nat data_len)"

text \<open>The total is a \<open>size_t\<close>.\<close>

definition iovecs_total_size :: "string list \<Rightarrow> nat" where
  "iovecs_total_size iovecs = foldl (\<lambda>total iov. (total + length iov) mod 2 ^ 64) 0 iovecs"

definition dd_conn_sendv ::
  "sys_env \<Rightarrow> dd_conn \<Rightarrow> string list \<Rightarrow> ('w world_scheme, dd_result) state" where
  "dd_conn_sendv env conn iovecs =
     (let data_len = iovecs_total_size iovecs; iovecs_count = length iovecs in
      if \<not> dd_conn_connected conn \<or> data_len > SSIZE_MAX - HEADER_SIZE \<or> iovecs_count > INT_MAX - 1
      then ret dd_error
      else do {
        sent \<leftarrow> sys env (Sys_writev (socket conn) (dd_header data_len # iovecs));
        if rv sent = -1 then ret dd_network
        else if rv sent \<noteq> int (HEADER_SIZE + data_len) then ret dd_network
        else ret dd_success
      })"

definition dd_conn_sendv_cred ::
  "sys_env \<Rightarrow> dd_conn \<Rightarrow> string list \<Rightarrow> ('w world_scheme, dd_result) state" where
  "dd_conn_sendv_cred env conn iovecs = do {
     r \<leftarrow> sys env (Sys_set_passcred (socket conn) 1);
     if rv r = -1 then ret dd_error else dd_conn_sendv env conn iovecs
   }"

section \<open>Receiving\<close>

datatype recv_data = Unset | Buffer string | Dangling

record recv_out =
  ro_data :: recv_data
  ro_len :: nat

text \<open>
  The loop of \<open>_recv_message_body\<close>; \<open>got\<close> is what is between the start of the buffer and the
  pointer that the loop advances. It returns whether the body is complete. The fuel bounds the
  iterations: \<open>None\<close> is running out of it.
\<close>

fun recv_body_loop ::
  "nat \<Rightarrow> sys_env \<Rightarrow> int \<Rightarrow> nat \<Rightarrow> string \<Rightarrow> ('w world_scheme, (bool \<times> string) option) state" where
  "recv_body_loop 0 env sock remaining_bytes got = ret None"
| "recv_body_loop (Suc fuel) env sock remaining_bytes got =
     (if remaining_bytes > 0 then do {
        r \<leftarrow> sys env (Sys_recv sock remaining_bytes);
        if rv r = -1 then ret (Some (False, got))
        else if rv r = 0 then ret (Some (False, got))
        else recv_body_loop fuel env sock (remaining_bytes - nat (rv r)) (got @ out_bytes r)
      }
      else ret (Some (True, got)))"

text \<open>
  \<open>malloc\<close> gives 0 for NULL. On the error path \<open>free\<close> is called with the advanced pointer, so its
  argument is recorded as the offset from the start of the allocation.
\<close>

definition recv_message_body ::
  "sys_env \<Rightarrow> int \<Rightarrow> nat \<Rightarrow> ('w world_scheme, (dd_result \<times> recv_out) option) state" where
  "recv_message_body env sock expected_size = do {
     m \<leftarrow> sys env (Sys_malloc expected_size);
     if rv m = 0 then ret (Some (dd_error, \<lparr>ro_data = Unset, ro_len = 0\<rparr>))
     else do {
       b \<leftarrow> recv_body_loop (Suc expected_size) env sock expected_size [];
       case b of
         None \<Rightarrow> ret None
       | Some (True, got) \<Rightarrow>
           ret (Some (dd_success, \<lparr>ro_data = Buffer got, ro_len = expected_size\<rparr>))
       | Some (False, got) \<Rightarrow> do {
           _ \<leftarrow> sys env (Sys_free (length got));
           ret (Some (dd_network, \<lparr>ro_data = Dangling, ro_len = expected_size\<rparr>))
         }
     }
   }"

abbreviation no_data :: recv_out where
  "no_data \<equiv> \<lparr>ro_data = Unset, ro_len = 0\<rparr>"

definition header_code_ok :: "string \<Rightarrow> bool" where
  "header_code_ok h = (take 3 h = ''dds'')"

definition header_size :: "string \<Rightarrow> nat" where
  "header_size h = le_value (take 4 (drop 4 h))"

definition dd_conn_recv ::
  "sys_env \<Rightarrow> dd_conn \<Rightarrow> ('w world_scheme, (dd_result \<times> recv_out) option) state" where
  "dd_conn_recv env conn =
     (if socket conn \<le> 0 then ret (Some (dd_error, no_data))
      else do {
        r \<leftarrow> sys env (Sys_recv (socket conn) HEADER_SIZE);
        if rv r = -1 then ret (Some (dd_network, no_data))
        else if rv r \<noteq> int HEADER_SIZE then ret (Some (dd_network, no_data))
        else if \<not> header_code_ok (out_bytes r) then ret (Some (dd_network, no_data))
        else if header_size (out_bytes r) > MAX_RECV_MESSAGE_SIZE
        then ret (Some (dd_network, no_data))
        else recv_message_body env (socket conn) (header_size (out_bytes r))
      })"

text \<open>\<open>CMSG_LEN(sizeof(struct ucred))\<close> is 28; \<open>SOL_SOCKET\<close> is 1 and \<open>SCM_CREDENTIALS\<close> 2.\<close>

fun atoi_digits :: "int \<Rightarrow> string \<Rightarrow> int" where
  "atoi_digits acc [] = acc"
| "atoi_digits acc (c # cs) =
     (if 48 \<le> (of_char c :: nat) \<and> (of_char c :: nat) \<le> 57
      then atoi_digits (10 * acc + of_char c - 48) cs else acc)"

definition c_isspace :: "char \<Rightarrow> bool" where
  "c_isspace c = (c \<in> {space, CHR 0x09, CHR 0x0A, CHR 0x0B, CHR 0x0C, CHR 0x0D})"

definition atoi :: "string \<Rightarrow> int" where
  "atoi s =
     (let t = dropWhile c_isspace s in
      case t of
        [] \<Rightarrow> 0
      | c # cs \<Rightarrow>
          if c = CHR ''-'' then - atoi_digits 0 cs
          else if c = CHR ''+'' then atoi_digits 0 cs else atoi_digits 0 t)"

definition check_credentials ::
  "sys_env \<Rightarrow> (int \<times> int \<times> int \<times> int) option \<Rightarrow> ('w world_scheme, dd_result) state" where
  "check_credentials env cmsgp =
     (case cmsgp of
        None \<Rightarrow> ret dd_network
      | Some (cmsg_len, cmsg_level, cmsg_type, uid) \<Rightarrow>
          if cmsg_len \<noteq> 28 then ret dd_network
          else if cmsg_level \<noteq> 1 \<or> cmsg_type \<noteq> 2 then ret dd_network
          else do {
            use_zend_alloc \<leftarrow> sys env (Sys_getenv ''USE_ZEND_ALLOC'');
            if rv use_zend_alloc \<noteq> 0 \<and> atoi (out_bytes use_zend_alloc) = 0 then ret dd_success
            else do {
              e \<leftarrow> sys env Sys_geteuid;
              ret (if uid \<noteq> rv e then dd_network else dd_success)
            }
          })"

definition dd_conn_recv_cred ::
  "sys_env \<Rightarrow> dd_conn \<Rightarrow> ('w world_scheme, (dd_result \<times> recv_out) option) state" where
  "dd_conn_recv_cred env conn =
     (if socket conn \<le> 0 then ret (Some (dd_error, no_data))
      else do {
        r \<leftarrow> sys env (Sys_recvmsg (socket conn) HEADER_SIZE);
        _ \<leftarrow> sys env (Sys_set_passcred (socket conn) 0);
        if rv r \<le> 0 then ret (Some (dd_network, no_data))
        else if rv r < int HEADER_SIZE then ret (Some (dd_network, no_data))
        else do {
          ddres \<leftarrow> check_credentials env (out_cmsg r);
          if ddres \<noteq> dd_success then ret (Some (ddres, no_data))
          else if \<not> header_code_ok (out_bytes r) then ret (Some (dd_network, no_data))
          else recv_message_body env (socket conn) (header_size (out_bytes r))
        }
      })"

section \<open>Descriptors of a connection\<close>

definition conn_init_post ::
  "dd_conn \<Rightarrow> string \<Rightarrow> int multiset \<Rightarrow> dd_result \<times> dd_conn \<Rightarrow> int multiset \<Rightarrow> bool" where
  "conn_init_post conn path fds rc fds' =
     (case rc of (res, conn') \<Rightarrow>
        if res = dd_success
        then dd_conn_connected conn' \<and> sun_path conn' = path \<and> fds' = add_mset (socket conn') fds
        else (socket conn' = -1 \<or> conn' = conn) \<and> fds' = fds)"

lemma wp_conn_init_fail:
  assumes "socket c \<noteq> -1" "open_fds (trace w) = add_mset (socket c) fds"
  shows "wp (conn_init_fail env c) (\<lambda>rc w'. conn_init_post conn path fds rc (open_fds (trace w'))) w"
  unfolding conn_init_fail_def dd_conn_destroy_def
  by (intro wp_intros wp_sysI) (use assms in \<open>simp_all add: conn_init_post_def\<close>)

lemma wp_conn_init_finish:
  assumes "socket c > 0" "sun_path c = path" "open_fds (trace w) = add_mset (socket c) fds"
  shows "wp (conn_init_finish env c fl) (\<lambda>rc w'. conn_init_post conn path fds rc (open_fds (trace w'))) w"
  unfolding conn_init_finish_def
  by (intro wp_intros wp_sysI) (use assms in \<open>simp_all add: conn_init_post_def dd_conn_connected_def\<close>)

lemma wp_conn_init_connect:
  assumes "socket c > 0" "sun_path c = path" "open_fds (trace w) = add_mset (socket c) fds"
  shows "wp (conn_init_connect env c fl) (\<lambda>rc w'. conn_init_post conn path fds rc (open_fds (trace w'))) w"
  unfolding conn_init_connect_def conn_init_poll_def
  by (intro wp_intros wp_sysI wp_conn_init_finish wp_conn_init_fail)
     (use assms in \<open>simp_all add: conn_init_post_def dd_conn_connected_def\<close>)

lemma wp_dd_conn_init:
  assumes "positive_fds env" 
  shows "wp (dd_conn_init env conn path)
     (\<lambda>rc w'. conn_init_post conn path (open_fds (trace w)) rc (open_fds (trace w'))) w"
proof -
  have sock: "wp (sys env Sys_socket) Q w" if "\<And>r. rv r = -1 \<or> rv r > 0 \<Longrightarrow> Q r (w\<lparr>trace := trace w @ [(Sys_socket, r)]\<rparr>)"
    for Q
    by (rule wp_sys_envI [where P = "\<lambda>tr c r. rv r = -1 \<or> rv r > 0"]) 
       (use that positive_fdsD(1) [OF assms] in blast)+
  show ?thesis
    unfolding dd_conn_init_def
    by (rule wp_ifI, simp add: wp_ret conn_init_post_def, rule wp_bindI, rule sock)
       (intro wp_intros wp_sysI wp_conn_init_fail wp_conn_init_connect,
        auto simp: conn_init_post_def network_consts)
qed

lemma frame_dd_conn_init:
  "wp (dd_conn_init env conn path) (\<lambda>rc w'. world.more w' = world.more w) w"
  unfolding dd_conn_init_def conn_init_connect_def conn_init_poll_def
  conn_init_finish_def conn_init_fail_def dd_conn_destroy_def
  by (intro wp_intros wp_sysI) simp_all

section \<open>Framing\<close>

lemma length_le32 [simp]: "length (le32 n) = 4"
  by (simp add: le32_def)

lemma le_value_le32: "le_value (le32 w) = unat w"
proof -
  let ?n = "unat w"
  have digit: "unat (take_bit 8 (drop_bit k w)) = ?n div 2 ^ k mod 256" for k
  proof -
    have "unat (take_bit 8 (drop_bit k w)) = take_bit 8 (drop_bit k ?n)"
      by (rule bit_eqI) (auto simp: bit_simps bit_imp_le_length)
    then show ?thesis by (simp add: take_bit_eq_mod drop_bit_eq_div)
  qed
  have less: "?n < 2 ^ 32" using unsigned_less [of w] by simp
  then have "?n div 16777216 < 256" by (simp add: less_mult_imp_div_less)
  moreover from less have "?n = ?n mod 256 + 256 * (?n div 256 mod 256 +
      256 * (?n div 65536 mod 256 + 256 * (?n div 16777216 mod 256)))"
    using mod_mult2_eq [of ?n 256 16777216] mod_mult2_eq [of "?n div 256" 256 65536]
      mod_mult2_eq [of "?n div 65536" 256 256]
    by (simp add: div_mult2_eq [symmetric])
  moreover have "[0..<4] = [0, 1, 2, 3 :: nat]" by code_simp
  ultimately show ?thesis by (simp add: le32_def digit)
qed

lemma header_roundtrip:
  "length (dd_header n) = HEADER_SIZE" "header_code_ok (dd_header n)"
  "header_size (dd_header n) = n mod 2 ^ 32"
  by (simp_all add: dd_header_def header_code_ok_def header_size_def le_value_le32 unat_of_nat
      network_consts)

lemma iovecs_total_size_concat:
  "iovecs_total_size iovecs = length (concat iovecs) mod 2 ^ 64"
proof -
  have "foldl (\<lambda>total iov. (total + length iov) mod 2 ^ 64) t iovecs =
      (t + length (concat iovecs)) mod 2 ^ 64" if "t < 2 ^ 64" for t :: nat
    using that
    by (induction iovecs arbitrary: t) (simp_all add: mod_add_left_eq add.assoc)
  from this [of 0] show ?thesis by (simp add: iovecs_total_size_def)
qed

section \<open>Sending\<close>

lemma run_sendv_success:
  assumes "run_state (dd_conn_sendv env conn iovecs) w = (dd_success, w')"
  shows "\<exists>r. trace w' = trace w @ [(Sys_writev (socket conn) (dd_header (length (concat iovecs) mod 2 ^ 64) # iovecs), r)] \<and>
    rv r = int (HEADER_SIZE + length (concat iovecs) mod 2 ^ 64) \<and> dd_conn_connected conn"
  using assms
  by (auto simp: dd_conn_sendv_def Let_def iovecs_total_size_concat split: if_splits)

section \<open>Receiving\<close>

fun recv_bytes :: "syscall \<times> sys_result \<Rightarrow> string" where
  "recv_bytes (Sys_recv fd n, r) = out_bytes r"
| "recv_bytes (Sys_recvmsg fd n, r) = out_bytes r"
| "recv_bytes _ = []"

definition received :: "sys_trace \<Rightarrow> string" where
  "received tr = concat (map recv_bytes tr)"

lemma received_append [simp]: "received (tr @ es) = received tr @ received es"
  by (simp add: received_def)

lemma received_simps [simp]: "received [] = []" "received (e # es) = recv_bytes e @ received es"
  by (simp_all add: received_def)

text \<open>What \<open>recv\<close> documents: an error, the end of the stream, or at most the bytes asked for.\<close>

definition recv_ok :: "sys_env \<Rightarrow> bool" where
  "recv_ok env =
     (\<forall>tr fd n. let r = env tr (Sys_recv fd n) in
        rv r = -1 \<or> 0 \<le> rv r \<and> rv r \<le> int n \<and> length (out_bytes r) = nat (rv r))"

lemma wp_recvI:
  assumes "recv_ok env"
    and "\<And>r. rv r = -1 \<or> 0 \<le> rv r \<and> rv r \<le> int n \<and> length (out_bytes r) = nat (rv r) \<Longrightarrow>
      Q r (w\<lparr>trace := trace w @ [(Sys_recv fd n, r)]\<rparr>)"
  shows "wp (sys env (Sys_recv fd n)) Q w"
  using assms by (simp add: recv_ok_def wp_sys Let_def)

text \<open>
  What the loop leaves: the body is complete, or a call to \<open>recv\<close> failed or found the end of the
  stream.
\<close>

definition body_post ::
  "'w world_scheme \<Rightarrow> int \<Rightarrow> nat \<Rightarrow> string \<Rightarrow> (bool \<times> string) option \<Rightarrow> 'w world_scheme \<Rightarrow> bool" where
  "body_post w sock n got b w' =
     (\<exists>ok g es. b = Some (ok, got @ g) \<and> trace w' = trace w @ es \<and>
        (if ok then length g = n \<and> received es = g
         else length g < n \<and> (\<exists>m r. (Sys_recv sock m, r) \<in> set es \<and> rv r \<le> 0)))"

lemma body_post_step:
  assumes "body_post (w\<lparr>trace := trace w @ [(Sys_recv sock n, r)]\<rparr>) sock (n - nat (rv r))
      (got @ out_bytes r) b w'"
    and "0 \<le> rv r" "rv r \<le> int n" "length (out_bytes r) = nat (rv r)"
  shows "body_post w sock n got b w'"
proof -
  from assms(1) obtain ok g es where
    b: "b = Some (ok, got @ out_bytes r @ g)" "trace w' = trace w @ (Sys_recv sock n, r) # es"
    and post: "if ok then length g = n - nat (rv r) \<and> received es = g
       else length g < n - nat (rv r) \<and> (\<exists>m r. (Sys_recv sock m, r) \<in> set es \<and> rv r \<le> 0)"
    unfolding body_post_def by auto
  from post assms show ?thesis
    unfolding body_post_def
    by (intro exI [of _ ok] exI [of _ "out_bytes r @ g"] exI [of _ "(Sys_recv sock n, r) # es"])
       (auto simp: b split: if_splits)
qed

lemma wp_recv_body_loop:
  assumes "recv_ok env" "remaining < fuel"
  shows "wp (recv_body_loop fuel env sock remaining got) (body_post w sock remaining got) w"
  using assms(2)
proof (induction fuel arbitrary: remaining got w)
  case 0
  then show ?case by simp
next
  case (Suc fuel)
  show ?case
  proof (cases "remaining > 0")
    case False
    then show ?thesis by (auto simp: wp_ret body_post_def intro!: exI [of _ True])
  next
    case True
    have step: "wp (recv_body_loop fuel env sock (remaining - nat (rv r)) (got @ out_bytes r))
        (body_post w sock remaining got) (w\<lparr>trace := trace w @ [(Sys_recv sock remaining, r)]\<rparr>)"
      if r: "rv r \<noteq> 0" "0 \<le> rv r" "rv r \<le> int remaining" "length (out_bytes r) = nat (rv r)" for r
      by (rule wp_mono [OF Suc.IH body_post_step]) (use r True Suc.prems in auto)
    have stop: "body_post w sock remaining got (Some (False, got))
        (w\<lparr>trace := trace w @ [(Sys_recv sock remaining, r)]\<rparr>)" if "rv r = -1 \<or> rv r = 0" for r
      using that True unfolding body_post_def
      by (intro exI [of _ False] exI [of _ "[]"] exI [of _ "[(Sys_recv sock remaining, r)]"]) auto
    show ?thesis
      using True
      by (simp, intro wp_bindI wp_recvI [OF assms(1)] wp_ifI) (auto simp: wp_ret intro: step stop)
  qed
qed

definition stream_broken :: "int \<Rightarrow> sys_trace \<Rightarrow> bool" where
  "stream_broken sock es =
     ((\<exists>n r. (Sys_malloc n, r) \<in> set es \<and> rv r = 0) \<or>
      (\<exists>m r. (Sys_recv sock m, r) \<in> set es \<and> rv r \<le> 0))"

text \<open>
  What a receive leaves, for the size \<open>n\<close> the header announces: a buffer with the body, or no
  buffer because memory ran out or the stream broke.
\<close>

definition message_post ::
  "'w world_scheme \<Rightarrow> int \<Rightarrow> nat \<Rightarrow> (dd_result \<times> recv_out) option \<Rightarrow> 'w world_scheme \<Rightarrow> bool" where
  "message_post w sock n out w' =
     (\<exists>res ro es. out = Some (res, ro) \<and> trace w' = trace w @ es \<and>
        (if res = dd_success
         then \<exists>body. ro = \<lparr>ro_data = Buffer body, ro_len = n\<rparr> \<and> length body = n \<and> received es = body
         else (\<forall>body. ro_data ro \<noteq> Buffer body) \<and> stream_broken sock es))"

lemma wp_recv_message_body:
  assumes "recv_ok env"
  shows "wp (recv_message_body env sock n) (message_post w sock n) w"
  unfolding recv_message_body_def
proof (intro wp_bindI wp_sysI wp_ifI)
  fix m
  let ?w = "w\<lparr>trace := trace w @ [(Sys_malloc n, m)]\<rparr>"
  show "wp (ret (Some (dd_error, no_data))) (message_post w sock n) ?w" if "rv m = 0"
    using that by (auto simp: wp_ret message_post_def stream_broken_def)
  have "message_post w sock n (Some (dd_success, \<lparr>ro_data = Buffer g, ro_len = n\<rparr>)) w'"
    if "body_post ?w sock n [] (Some (True, g)) w'" for g w'
    using that by (auto simp: body_post_def message_post_def)
  moreover have "message_post w sock n (Some (dd_network, \<lparr>ro_data = Dangling, ro_len = n\<rparr>))
      (w'\<lparr>trace := trace w' @ [(Sys_free k, r)]\<rparr>)"
    if "body_post ?w sock n [] (Some (False, g)) w'" for g w' k r
    using that by (auto simp: body_post_def message_post_def stream_broken_def)
  ultimately show "wp (recv_body_loop (Suc n) env sock n []) (\<lambda>b. wp (case b of
         None \<Rightarrow> ret None
       | Some (True, got) \<Rightarrow> ret (Some (dd_success, \<lparr>ro_data = Buffer got, ro_len = n\<rparr>))
       | Some (False, got) \<Rightarrow>
           sys env (Sys_free (length got)) \<bind>
           (\<lambda>_. ret (Some (dd_network, \<lparr>ro_data = Dangling, ro_len = n\<rparr>))))
       (message_post w sock n)) ?w"
    by (intro wp_mono [OF wp_recv_body_loop [OF assms]])
       (auto simp: wp_rules body_post_def [of _ _ _ _ None] split: option.splits bool.splits)
qed

text \<open>Why a receive may fail: the first result in the list is that of the header.\<close>

definition header_refused :: "nat option \<Rightarrow> sys_result \<Rightarrow> bool" where
  "header_refused limit r =
     (rv r \<noteq> int HEADER_SIZE \<or> \<not> header_code_ok (out_bytes r) \<or>
      (case limit of None \<Rightarrow> False | Some k \<Rightarrow> header_size (out_bytes r) > k))"

definition recv_post ::
  "dd_conn \<Rightarrow> 'w world_scheme \<Rightarrow> (dd_result \<times> recv_out) option \<Rightarrow> 'w world_scheme \<Rightarrow> bool" where
  "recv_post conn w out w' =
     (\<exists>res ro es. out = Some (res, ro) \<and> trace w' = trace w @ es \<and>
        (if res = dd_success
         then \<exists>h body. ro = \<lparr>ro_data = Buffer body, ro_len = length body\<rparr> \<and>
                received es = h @ body \<and> length h = HEADER_SIZE \<and> header_code_ok h \<and>
                header_size h = length body \<and> length body \<le> MAX_RECV_MESSAGE_SIZE
         else (\<forall>body. ro_data ro \<noteq> Buffer body) \<and>
           (socket conn \<le> 0 \<or>
            header_refused (Some MAX_RECV_MESSAGE_SIZE) (snd (hd es)) \<or> stream_broken (socket conn) es)))"

lemma recv_post_refused:
  "header_refused (Some MAX_RECV_MESSAGE_SIZE) r \<Longrightarrow>
   recv_post conn w (Some (dd_network, no_data)) (w\<lparr>trace := trace w @ [(c, r)]\<rparr>)"
  by (simp add: recv_post_def)

lemma recv_post_body:
  assumes "message_post (w\<lparr>trace := trace w @ [(Sys_recv (socket conn) HEADER_SIZE, r)]\<rparr>)
      (socket conn) (header_size (out_bytes r)) out w'"
    and "\<not> header_refused (Some MAX_RECV_MESSAGE_SIZE) r" "length (out_bytes r) = nat (rv r)"
  shows "recv_post conn w out w'"
proof -
  from assms(1) obtain res ro es where out: "out = Some (res, ro)"
      "trace w' = trace w @ (Sys_recv (socket conn) HEADER_SIZE, r) # es"
    and post: "if res = dd_success
       then \<exists>body. ro = \<lparr>ro_data = Buffer body, ro_len = header_size (out_bytes r)\<rparr> \<and>
              length body = header_size (out_bytes r) \<and> received es = body
       else (\<forall>body. ro_data ro \<noteq> Buffer body) \<and> stream_broken (socket conn) es"
    unfolding message_post_def by auto
  show ?thesis
    unfolding recv_post_def
    by (rule exI [of _ res], rule exI [of _ ro],
        rule exI [of _ "(Sys_recv (socket conn) HEADER_SIZE, r) # es"])
       (use out post assms(2,3) in \<open>auto simp: header_refused_def stream_broken_def split: if_splits\<close>)
qed

lemma wp_dd_conn_recv:
  assumes "recv_ok env"
  shows "wp (dd_conn_recv env conn) (recv_post conn w) w"
  unfolding dd_conn_recv_def
  by (intro wp_ifI wp_bindI wp_recvI [OF assms] wp_retI recv_post_refused
        wp_mono [OF wp_recv_message_body [OF assms] recv_post_body])
     (auto simp: header_refused_def network_consts, auto simp: recv_post_def)

text \<open>
  With credentials: the peer has our effective user id, unless the environment variable
  \<open>USE_ZEND_ALLOC\<close> turns the check off.
\<close>

definition peer_trusted :: "(int \<times> int \<times> int \<times> int) option \<Rightarrow> sys_trace \<Rightarrow> bool" where
  "peer_trusted cmsg es =
     (\<exists>uid. cmsg = Some (28, 1, 2, uid) \<and>
        ((\<exists>r. (Sys_geteuid, r) \<in> set es \<and> rv r = uid) \<or>
         (\<exists>r. (Sys_getenv ''USE_ZEND_ALLOC'', r) \<in> set es \<and> rv r \<noteq> 0 \<and> atoi (out_bytes r) = 0)))"

lemma peer_trusted_append: "peer_trusted cmsg es \<Longrightarrow> peer_trusted cmsg (es @ fs)"
  unfolding peer_trusted_def by auto

definition recv_cred_post ::
  "dd_conn \<Rightarrow> 'w world_scheme \<Rightarrow> (dd_result \<times> recv_out) option \<Rightarrow> 'w world_scheme \<Rightarrow> bool" where
  "recv_cred_post conn w out w' =
     (\<exists>res ro es. out = Some (res, ro) \<and> trace w' = trace w @ es \<and>
        (if res = dd_success
         then (\<exists>r fs body. es = (Sys_recvmsg (socket conn) HEADER_SIZE, r) # fs \<and>
                ro = \<lparr>ro_data = Buffer body, ro_len = header_size (out_bytes r)\<rparr> \<and>
                length body = ro_len ro \<and> received fs = body \<and>
                header_code_ok (out_bytes r) \<and> peer_trusted (out_cmsg r) fs)
         else \<forall>body. ro_data ro \<noteq> Buffer body))"

lemma recv_cred_post_body:
  assumes "message_post w1 (socket conn) (header_size (out_bytes r)) out w'"
    and "trace w1 = trace w @ (Sys_recvmsg (socket conn) HEADER_SIZE, r) # fs"
    and "received fs = []" "header_code_ok (out_bytes r)" "peer_trusted (out_cmsg r) fs"
  shows "recv_cred_post conn w out w'"
proof -
  from assms(1,2) obtain res ro es where out: "out = Some (res, ro)"
      "trace w' = trace w @ (Sys_recvmsg (socket conn) HEADER_SIZE, r) # fs @ es"
    and post: "if res = dd_success
       then \<exists>body. ro = \<lparr>ro_data = Buffer body, ro_len = header_size (out_bytes r)\<rparr> \<and>
              length body = header_size (out_bytes r) \<and> received es = body
       else (\<forall>body. ro_data ro \<noteq> Buffer body) \<and> stream_broken (socket conn) es"
    unfolding message_post_def by auto
  show ?thesis
    unfolding recv_cred_post_def
    by (rule exI [of _ res], rule exI [of _ ro],
        rule exI [of _ "(Sys_recvmsg (socket conn) HEADER_SIZE, r) # fs @ es"])
       (use out post assms(3-5) in \<open>auto simp: peer_trusted_append\<close>)
qed

lemma wp_check_credentials_quiet:
  "wp (check_credentials env cmsg)
     (\<lambda>res w'. \<exists>es. trace w' = trace w @ es \<and> received es = [] \<and>
        (res = dd_success \<longrightarrow> peer_trusted cmsg es)) w"
  unfolding check_credentials_def
  by (auto intro!: wp_intros wp_sysI simp: peer_trusted_def split: option.split prod.split)

lemma wp_dd_conn_recv_cred:
  assumes "recv_ok env"
  shows "wp (dd_conn_recv_cred env conn) (recv_cred_post conn w) w"
proof -
  have none: "recv_cred_post conn w (Some (res, no_data)) w'"
    if "res \<noteq> dd_success" "trace w' = trace w @ es" for res w' es
    using that by (auto simp: recv_cred_post_def)
  have body: "wp (recv_message_body env (socket conn) (header_size (out_bytes r))) (recv_cred_post conn w) w1"
    if "trace w1 = trace w @ (Sys_recvmsg (socket conn) HEADER_SIZE, r) # fs"
      "received fs = []" "header_code_ok (out_bytes r)" "peer_trusted (out_cmsg r) fs" for r w1 fs
    by (rule wp_mono [OF wp_recv_message_body [OF assms] recv_cred_post_body]) (use that in auto)
  have after: "wp (if ddres \<noteq> dd_success then ret (Some (ddres, no_data))
        else if \<not> header_code_ok (out_bytes r) then ret (Some (dd_network, no_data))
        else recv_message_body env (socket conn) (header_size (out_bytes r))) (recv_cred_post conn w) w1"
    if "\<exists>es. trace w1 = trace w @ [(Sys_recvmsg (socket conn) HEADER_SIZE, r), e] @ es \<and>
        received (e # es) = [] \<and> (ddres = dd_success \<longrightarrow> peer_trusted (out_cmsg r) (e # es))" for r e w1 ddres
    using that by (auto intro!: wp_intros intro: none body)
  show ?thesis
    unfolding dd_conn_recv_cred_def
    by (intro wp_ifI wp_bindI wp_sysI wp_retI none after wp_mono [OF wp_check_credentials_quiet])
       (auto simp: peer_trusted_def)
qed

section \<open>Properties\<close>

text \<open>A system in which every call succeeds and the peer sends one two-byte message.\<close>

definition sample_env :: sys_env where
  "sample_env tr c =
     (case c of
        Sys_socket \<Rightarrow> sys_ret 5
      | Sys_open p \<Rightarrow> sys_ret 7
      | Sys_malloc n \<Rightarrow> sys_ret 1
      | Sys_geteuid \<Rightarrow> sys_ret 1000
      | Sys_recv fd n \<Rightarrow>
          (sys_ret (int n))\<lparr>out_bytes := (if n = 8 then dd_header 2 else replicate n (CHR ''x''))\<rparr>
      | Sys_recvmsg fd n \<Rightarrow>
          (sys_ret 8)\<lparr>out_bytes := dd_header 2, out_cmsg := Some (28, 1, 2, 1000)\<rparr>
      | Sys_writev fd bs \<Rightarrow> sys_ret (int (length (concat bs)))
      | Sys_fork \<Rightarrow> sys_ret 42
      | _ \<Rightarrow> sys_ret 0)"

lemma sample_env_ok: "recv_ok sample_env" "positive_fds sample_env"
  using header_roundtrip(1) [of 2]
  by (auto simp: recv_ok_def positive_fds_def sample_env_def sys_ret_def HEADER_SIZE_def Let_def)

text \<open>
  \<open>dd_conn_init\<close> leaks no descriptor whatever the system calls return: on success
  the connection holds the one new descriptor, on every failure no descriptor is left open and the
  connection is closed or untouched.
\<close>

theorem conn_init_descriptors:
  assumes "positive_fds env"
    and "run_state (dd_conn_init env conn path) w = ((res, conn'), w')"
  shows "if res = dd_success
    then dd_conn_connected conn' \<and> sun_path conn' = path \<and>
         open_fds (trace w') = add_mset (socket conn') (open_fds (trace w))
    else (socket conn' = -1 \<or> conn' = conn) \<and> open_fds (trace w') = open_fds (trace w)"
  using wp_run [OF wp_dd_conn_init [OF assms(1)] assms(2)] by (simp add: conn_init_post_def)

theorem conn_init_descriptors_witness:
  "open_fds (trace (snd (run_state (dd_conn_init sample_env \<lparr>sun_path = [], socket = 0\<rparr> ''/s'')
     \<lparr>trace = []\<rparr>))) = {#5#}"
proof -
  obtain res conn' w' where run: "run_state (dd_conn_init sample_env \<lparr>sun_path = [], socket = 0\<rparr> ''/s'')
     \<lparr>trace = []\<rparr> = ((res, conn'), w')" by (metis prod.exhaust)
  then have "res = dd_success" "socket conn' = 5"
    by (auto simp: dd_conn_init_def conn_init_connect_def conn_init_finish_def sample_env_def
        sys_ret_def network_consts)
  with conn_init_descriptors [OF sample_env_ok(2) run] run show ?thesis by simp
qed

text \<open>
  A message that \<open>dd_conn_sendv\<close> reports as sent was written with one call, as a
  header that announces exactly the bytes of the body followed by the body, and the peer took all
  of it.
\<close>

theorem sendv_framing:
  assumes "run_state (dd_conn_sendv env conn iovecs) w = (dd_success, w')"
    and "length (concat iovecs) < 2 ^ 32"
  shows "\<exists>h r. trace w' = trace w @ [(Sys_writev (socket conn) (h # iovecs), r)] \<and>
    length h = HEADER_SIZE \<and> header_code_ok h \<and> header_size h = length (concat iovecs) \<and>
    rv r = int (length (concat (h # iovecs)))"
  using run_sendv_success [OF assms(1)] assms(2)
  by (auto simp: header_roundtrip)

theorem sendv_framing_witness:
  "\<exists>h r. trace (snd (run_state (dd_conn_sendv sample_env \<lparr>sun_path = [], socket = 5\<rparr> [''ab'', ''c''])
     \<lparr>trace = []\<rparr>)) = [(Sys_writev 5 [h, ''ab'', ''c''], r)] \<and> header_size h = 3"
proof -
  obtain res w' where run: "run_state (dd_conn_sendv sample_env \<lparr>sun_path = [], socket = 5\<rparr>
      [''ab'', ''c'']) \<lparr>trace = []\<rparr> = (res, w')" by (metis prod.exhaust)
  then have "res = dd_success"
    by (auto simp: dd_conn_sendv_def sample_env_def sys_ret_def network_consts Let_def
        iovecs_total_size_def dd_conn_connected_def dd_header_def)
  with run sendv_framing [of sample_env "\<lparr>sun_path = [], socket = 5\<rparr>" "[''ab'', ''c'']"
      "\<lparr>trace = []\<rparr>" w'] show ?thesis by auto
qed



text \<open>
  Property C39: a message accepted by \<open>dd_conn_recv_cred\<close> came with the credentials of a peer
  whose user id is our effective user id, unless \<open>USE_ZEND_ALLOC\<close> is set to zero in the
  environment; its buffer is the whole body the header announced.
\<close>

theorem recv_cred_trusted_peer:
  assumes "recv_ok env"
    and "run_state (dd_conn_recv_cred env conn) w = (out, w')"
  shows "\<exists>res ro es. out = Some (res, ro) \<and> trace w' = trace w @ es \<and>
    (if res = dd_success
     then (\<exists>r fs body. es = (Sys_recvmsg (socket conn) HEADER_SIZE, r) # fs \<and>
            ro = \<lparr>ro_data = Buffer body, ro_len = header_size (out_bytes r)\<rparr> \<and>
            length body = ro_len ro \<and> received fs = body \<and>
            header_code_ok (out_bytes r) \<and> peer_trusted (out_cmsg r) fs)
     else \<forall>body. ro_data ro \<noteq> Buffer body)"
  using wp_run [OF wp_dd_conn_recv_cred [OF assms(1)] assms(2)] unfolding recv_cred_post_def .

theorem recv_cred_trusted_peer_witness:
  "\<exists>ro. fst (run_state (dd_conn_recv_cred sample_env \<lparr>sun_path = [], socket = 5\<rparr>) \<lparr>trace = []\<rparr>) =
     Some (dd_success, ro) \<and> (\<exists>body. ro_data ro = Buffer body)"
proof -
  obtain out w' where run: "run_state (dd_conn_recv_cred sample_env \<lparr>sun_path = [], socket = 5\<rparr>)
      \<lparr>trace = []\<rparr> = (out, w')" by (metis prod.exhaust)
  moreover have "fst (run_state (dd_conn_recv_cred sample_env \<lparr>sun_path = [], socket = 5\<rparr>)
      \<lparr>trace = []\<rparr>) = Some (dd_success, \<lparr>ro_data = Buffer ''xx'', ro_len = 2\<rparr>)"
    by code_simp
  ultimately show ?thesis using recv_cred_trusted_peer [OF sample_env_ok(1) run] by auto
qed

text \<open>
  The error path of \<open>_recv_message_body\<close> frees the advanced pointer: a body that breaks off after
  its first byte makes it call \<open>free\<close> one byte into the allocation.
\<close>

definition broken_peer :: sys_env where
  "broken_peer tr c =
     (case c of
        Sys_recv fd n \<Rightarrow>
          if n = 8 then (sys_ret 8)\<lparr>out_bytes := dd_header 2\<rparr>
          else if n = 2 then (sys_ret 1)\<lparr>out_bytes := ''x''\<rparr> else sys_ret (-1)
      | Sys_malloc n \<Rightarrow> sys_ret 1
      | _ \<Rightarrow> sys_ret 0)"


end
