(* ===== verification/Helper_Process.thy ===== *)
theory Helper_Process
  imports Network String_Helpers
begin

text \<open>
  src/extension/helper_process.c: the manager of the connection to the helper, which connects to
  the helper's socket, launches the helper when nothing listens there, backs off after failures
  and makes sure that a helper that cannot be launched is not launched again.

  The state is the record \<open>dd_helper_mgr\<close> of the file (the thread-local \<open>_mgr\<close>) and the atomic
  \<open>_launch_failure_fd_lock\<close>, added to the trace of system calls. Configuration values read with
  \<open>get_DD_*\<close> are the record \<open>helper_config\<close>. Log messages are not part of the model.
\<close>

section \<open>State\<close>

record dd_helper_mgr =
  conn :: dd_conn
  next_retry :: "int \<times> int"
  failed_count :: u16
  connected_this_req :: bool
  launched_this_req :: bool
  pid :: int
  socket_path :: string
  lock_path :: string

record helper_world = world +
  mgr :: dd_helper_mgr
  launch_failure_fd_lock :: int

record helper_config =
  cfg_helper_launch :: bool
  cfg_runtime_path :: string
  cfg_helper_log_file :: string
  cfg_helper_path :: string
  cfg_helper_extra_args :: string
  cfg_version :: string

text \<open>\<open>_mgr\<close> is zero-initialised; \<open>dd_helper_startup\<close> stores -1 in the lock.\<close>

definition initial_mgr :: dd_helper_mgr where
  "initial_mgr =
     \<lparr>conn = \<lparr>sun_path = [], socket = 0\<rparr>, next_retry = (0, 0), failed_count = 0,
      connected_this_req = False, launched_this_req = False, pid = 0,
      socket_path = [], lock_path = []\<rparr>"

abbreviation upd_mgr :: "(dd_helper_mgr \<Rightarrow> dd_helper_mgr) \<Rightarrow> ('w helper_world_scheme, unit) state" where
  "upd_mgr f \<equiv> modify (\<lambda>w. w\<lparr>mgr := f (mgr w)\<rparr>)"

definition dd_helper_startup :: "('w helper_world_scheme, unit) state" where
  "dd_helper_startup = modify (\<lambda>w. w\<lparr>launch_failure_fd_lock := -1\<rparr>)"

definition dd_helper_shutdown :: "sys_env \<Rightarrow> ('w helper_world_scheme, unit) state" where
  "dd_helper_shutdown env = do {
     failure_lock_fd \<leftarrow> gets launch_failure_fd_lock;
     if failure_lock_fd \<noteq> -1 then do {
       modify (\<lambda>w. w\<lparr>launch_failure_fd_lock := -1\<rparr>);
       _ \<leftarrow> sys env (Sys_close failure_lock_fd);
       ret ()
     } else ret ()
   }"

definition dd_helper_rshutdown :: "('w helper_world_scheme, unit) state" where
  "dd_helper_rshutdown =
     upd_mgr (\<lambda>m. m\<lparr>connected_this_req := False, launched_this_req := False\<rparr>)"

section \<open>Paths\<close>

text \<open>\<open>DD_PATH_FORMAT\<close>: "%s%sddappsec_" VERSION "_%u.%u"; "%s" reads up to a NUL.\<close>

definition dd_path :: "string \<Rightarrow> string \<Rightarrow> string \<Rightarrow> nat \<Rightarrow> nat \<Rightarrow> string" where
  "dd_path version base separator uid gid =
     c_str base @ separator @ ''ddappsec_'' @ version @ ''_'' @ nat_dec uid @ ''.'' @ nat_dec gid"

text \<open>
  With an empty base the code reads the byte before the string, the last byte of the length
  field of the \<open>zend_string\<close>, which is zero; the separator is "/" there.
\<close>

definition dd_on_runtime_path_update ::
  "sys_env \<Rightarrow> string \<Rightarrow> string \<Rightarrow> ('w helper_world_scheme, bool) state" where
  "dd_on_runtime_path_update env version base = do {
     uid \<leftarrow> sys env Sys_getuid;
     gid \<leftarrow> sys env Sys_getgid;
     let separator = (if base \<noteq> [] \<and> last base = CHR ''/'' then [] else ''/'');
     let path = dd_path version base separator (nat (rv uid)) (nat (rv gid));
     upd_mgr (\<lambda>m. m\<lparr>socket_path := path @ ''.sock''\<rparr>);
     upd_mgr (\<lambda>m. m\<lparr>lock_path := path @ ''.lock''\<rparr>);
     ret True
   }"

section \<open>Backoff\<close>

definition backoff_initial :: nat where "backoff_initial = 3"
definition backoff_base :: nat where "backoff_base = 2"
definition backoff_max_exponent :: nat where "backoff_max_exponent = 10"

definition wait_for_next_retry :: "sys_env \<Rightarrow> ('w helper_world_scheme, bool) state" where
  "wait_for_next_retry env = do {
     m \<leftarrow> gets mgr;
     if fst (next_retry m) = 0 then ret False
     else do {
       t \<leftarrow> sys env Sys_clock_gettime;
       if rv t = -1 then ret False
       else if fst (out_time t) < fst (next_retry m) \<or>
               fst (out_time t) = fst (next_retry m) \<and> snd (out_time t) < snd (next_retry m)
       then ret True
       else ret False
     }
   }"

definition connection_succeeded :: "('w helper_world_scheme, unit) state" where
  "connection_succeeded =
     upd_mgr (\<lambda>m. m\<lparr>connected_this_req := True, failed_count := 0, next_retry := (0, 0)\<rparr>)"

text \<open>The doubles of the code are exact integers here: at most 3 * 2 ^ 10.\<close>

definition inc_failed_counter :: "sys_env \<Rightarrow> ('w helper_world_scheme, unit) state" where
  "inc_failed_counter env = do {
     m \<leftarrow> gets mgr;
     (if failed_count m \<noteq> -1
      then upd_mgr (\<lambda>m. m\<lparr>failed_count := failed_count m + 1\<rparr>) else ret ());
     m \<leftarrow> gets mgr;
     t \<leftarrow> sys env Sys_clock_gettime;
     if rv t = -1 then upd_mgr (\<lambda>m. m\<lparr>next_retry := (0, 0)\<rparr>)
     else do {
       let wait = backoff_initial *
             backoff_base ^ min (unat (failed_count m) - 1) backoff_max_exponent;
       upd_mgr (\<lambda>m. m\<lparr>next_retry := (fst (out_time t) + int wait, snd (out_time t))\<rparr>)
     }
   }"

section \<open>The launch lock\<close>

definition acquire_lock :: "sys_env \<Rightarrow> ('w helper_world_scheme, int) state" where
  "acquire_lock env = do {
     m \<leftarrow> gets mgr;
     fd \<leftarrow> sys env (Sys_open (lock_path m));
     if rv fd = -1 then ret (-1)
     else do {
       res \<leftarrow> sys env (Sys_flock (rv fd));
       if rv res = -1 then do {
         _ \<leftarrow> sys env (Sys_close (rv fd));
         ret (-1)
       }
       else ret (rv fd)
     }
   }"

text \<open>The compare-and-exchange that stores the descriptor, or closes it when one is stored.\<close>

definition hold_lock :: "sys_env \<Rightarrow> int \<Rightarrow> ('w helper_world_scheme, unit) state" where
  "hold_lock env lock_fd = do {
     cur \<leftarrow> gets launch_failure_fd_lock;
     if cur = -1 then modify (\<lambda>w. w\<lparr>launch_failure_fd_lock := lock_fd\<rparr>)
     else do { _ \<leftarrow> sys env (Sys_close lock_fd); ret () }
   }"

definition prevent_launch_attempts :: "sys_env \<Rightarrow> int \<Rightarrow> ('w helper_world_scheme, unit) state" where
  "prevent_launch_attempts env lock_fd =
     (if lock_fd = -1 then do {
        fd \<leftarrow> acquire_lock env;
        if fd = -1 then ret () else hold_lock env fd
      }
      else hold_lock env lock_fd)"

section \<open>Splitting the arguments\<close>

text \<open>
  \<open>_split_params\<close> writes the arguments one after the other to a buffer. \<open>sp_buf\<close> is what has been
  written (\<open>wp\<close> points to its end), \<open>sp_start\<close> the offset of \<open>param_start\<close> and \<open>sp_ret\<close> the offsets
  stored in \<open>ret\<close> from its second entry on.
\<close>

datatype split_state = between | double_quoted | single_quoted | bare_param

record split_st =
  sp_state :: split_state
  sp_escaped :: bool
  sp_buf :: string
  sp_start :: nat
  sp_ret :: "nat list"

abbreviation dquote :: char where "dquote \<equiv> CHR 0x22"
abbreviation squote :: char where "squote \<equiv> CHR 0x27"
abbreviation backslash :: char where "backslash \<equiv> CHR 0x5C"

definition sp_put :: "char \<Rightarrow> split_st \<Rightarrow> split_st" where
  "sp_put c st = st\<lparr>sp_buf := sp_buf st @ [c]\<rparr>"

definition sp_begin :: "split_state \<Rightarrow> split_st \<Rightarrow> split_st" where
  "sp_begin s st = st\<lparr>sp_state := s, sp_start := length (sp_buf st)\<rparr>"

fun split_step :: "split_st \<Rightarrow> char \<Rightarrow> split_st" where
  "split_step st p =
     (case sp_state st of
        between \<Rightarrow>
          (if p = space then st
           else if p = dquote then sp_begin double_quoted st
           else if p = squote then sp_begin single_quoted st
           else if p = backslash then (sp_begin bare_param st)\<lparr>sp_escaped := True\<rparr>
           else sp_put p (sp_begin bare_param st))
      | bare_param \<Rightarrow>
          (if sp_escaped st then (sp_put p st)\<lparr>sp_escaped := False\<rparr>
           else if p = backslash then st\<lparr>sp_escaped := True\<rparr>
           else if p = dquote then st\<lparr>sp_state := double_quoted\<rparr>
           else if p = squote then st\<lparr>sp_state := single_quoted\<rparr>
           else if p = space then
             (sp_put nul st)\<lparr>sp_ret := sp_ret st @ [sp_start st], sp_state := between\<rparr>
           else sp_put p st)
      | _ \<Rightarrow>
          (if sp_escaped st then (sp_put p st)\<lparr>sp_escaped := False\<rparr>
           else if p = (if sp_state st = double_quoted then dquote else squote)
           then st\<lparr>sp_state := bare_param\<rparr>
           else if p = backslash then st\<lparr>sp_escaped := True\<rparr>
           else sp_put p st))"

definition sp_init :: split_st where
  "sp_init = \<lparr>sp_state = between, sp_escaped = False, sp_buf = [], sp_start = 0, sp_ret = []\<rparr>"

definition split_loop :: "string \<Rightarrow> split_st" where
  "split_loop p = foldl split_step sp_init p"

text \<open>The result: the buffer and the offsets of the arguments in it; \<open>None\<close> is the NULL result.\<close>

definition split_params :: "string \<Rightarrow> (string \<times> nat list) option" where
  "split_params orig_params_str =
     (let p = skip_spaces orig_params_str in
      if p = [] then Some ([], [])
      else
        let st = split_loop p in
        if sp_escaped st then None
        else if sp_state st = single_quoted \<or> sp_state st = double_quoted then None
        else if sp_state st \<noteq> between then Some (sp_buf st @ [nul], sp_ret st @ [sp_start st])
        else Some (sp_buf st, sp_ret st))"

text \<open>The argument vector as the new process sees it, up to the final NULL.\<close>

definition split_argv :: "string \<Rightarrow> string \<Rightarrow> string list option" where
  "split_argv executable params =
     map_option (\<lambda>(buf, offs). executable # map (\<lambda>i. c_str (drop i buf)) offs) (split_params params)"

section \<open>Launching\<close>

definition ENOENT :: int where "ENOENT = 2"
definition BACKLOG :: int where "BACKLOG = 20"

definition open_socket_for_helper :: "sys_env \<Rightarrow> ('w helper_world_scheme, int) state" where
  "open_socket_for_helper env = do {
     m \<leftarrow> gets mgr;
     if length (socket_path m) \<ge> SUN_PATH_SIZE - 1 then ret (-1)
     else do {
       u \<leftarrow> sys env (Sys_unlink (socket_path m));
       if rv u = -1 \<and> errno u \<noteq> ENOENT then ret (-1)
       else do {
         s \<leftarrow> sys env Sys_socket;
         if rv s = -1 then ret (-1)
         else do {
           b \<leftarrow> sys env (Sys_bind (rv s) (socket_path m));
           if rv b = -1 then do { _ \<leftarrow> sys env (Sys_close (rv s)); ret (-1) }
           else do {
             l \<leftarrow> sys env (Sys_listen (rv s) BACKLOG);
             if rv l = -1 then do { _ \<leftarrow> sys env (Sys_close (rv s)); ret (-1) }
             else ret (rv s)
           }
         }
       }
     }
   }"

text \<open>
  \<open>stat_loc\<close> as the kernel encodes it: \<open>WIFEXITED\<close> is that the low seven bits are zero,
  \<open>WEXITSTATUS\<close> the next byte.
\<close>

definition WIFEXITED :: "int \<Rightarrow> bool" where "WIFEXITED st = (st AND 0x7F = 0)"
definition WEXITSTATUS :: "int \<Rightarrow> int" where "WEXITSTATUS st = drop_bit 8 (st AND 0xFF00)"

definition wait_for_intermediate_process :: "sys_env \<Rightarrow> int \<Rightarrow> ('w helper_world_scheme, dd_result) state" where
  "wait_for_intermediate_process env p = do {
     r \<leftarrow> sys env (Sys_waitpid p);
     if rv r = -1 then ret dd_error
     else if WIFEXITED (out_flags r) \<and> WEXITSTATUS (out_flags r) = 0 then ret dd_success
     else ret dd_error
   }"

text \<open>
  \<open>strtol\<close> on a directory entry, when it reads some digits and nothing is left after them.
\<close>

definition fd_name :: "string \<Rightarrow> int option" where
  "fd_name s =
     (let t = dropWhile c_isspace s;
          digits = (if t \<noteq> [] \<and> (hd t = CHR ''-'' \<or> hd t = CHR ''+'') then tl t else t) in
      if digits \<noteq> [] \<and> list_all (\<lambda>c. 48 \<le> (of_char c :: nat) \<and> (of_char c :: nat) \<le> 57) digits
      then Some (atoi s) else None)"

fun readdir_loop :: "sys_env \<Rightarrow> int list \<Rightarrow> string list \<Rightarrow> ('w helper_world_scheme, unit) state" where
  "readdir_loop env keep [] = ret ()"
| "readdir_loop env keep (d_name # names) =
     (if d_name \<noteq> [] \<and> hd d_name = CHR ''.'' then readdir_loop env keep names
      else case fd_name d_name of
             Some fd \<Rightarrow>
               if fd \<notin> set keep
               then do { _ \<leftarrow> sys env (Sys_close fd); readdir_loop env keep names }
               else readdir_loop env keep names
           | None \<Rightarrow> readdir_loop env keep names)"

fun close_range_loop :: "sys_env \<Rightarrow> int list \<Rightarrow> nat list \<Rightarrow> ('w helper_world_scheme, unit) state" where
  "close_range_loop env keep [] = ret ()"
| "close_range_loop env keep (i # is) =
     (if int i \<notin> set keep
      then do { _ \<leftarrow> sys env (Sys_close (int i)); close_range_loop env keep is }
      else close_range_loop env keep is)"

definition MAX_RLIMIT :: int where "MAX_RLIMIT = 1024"

definition close_file_descriptors ::
  "sys_env \<Rightarrow> int \<Rightarrow> int \<Rightarrow> int \<Rightarrow> ('w helper_world_scheme, unit) state" where
  "close_file_descriptors env log_fd lock_fd sock_fd = do {
     self \<leftarrow> sys env (Sys_opendir ''/proc/self/fd/'');
     if rv self \<noteq> 0 then do {
       _ \<leftarrow> readdir_loop env [log_fd, lock_fd, sock_fd] (out_names self);
       _ \<leftarrow> sys env Sys_closedir;
       ret ()
     }
     else do {
       rl \<leftarrow> sys env Sys_getrlimit;
       let fd_max = (if rv rl = -1 \<or> out_flags rl > MAX_RLIMIT then MAX_RLIMIT else out_flags rl);
       close_range_loop env [log_fd, lock_fd, sock_fd] [0..<nat fd_max]
     }
   }"

fun signal_loop :: "sys_env \<Rightarrow> nat list \<Rightarrow> ('w helper_world_scheme, unit) state" where
  "signal_loop env [] = ret ()"
| "signal_loop env (i # is) = do { _ \<leftarrow> sys env (Sys_signal_dfl (int i)); signal_loop env is }"

definition SIGRTMIN :: nat where "SIGRTMIN = 32"

definition reset_signals_state :: "sys_env \<Rightarrow> ('w helper_world_scheme, bool) state" where
  "reset_signals_state env = do {
     _ \<leftarrow> signal_loop env [1..<SIGRTMIN];
     r \<leftarrow> sys env Sys_sigprocmask;
     ret (rv r \<noteq> -1)
   }"

text \<open>
  The process between the two forks and, after the second, the one that becomes the helper. It
  never returns: each path ends with a call that ends or replaces the process. Writes to the log
  descriptor are not recorded.
\<close>

definition EXIT_SIGNALS_STATE :: int where "EXIT_SIGNALS_STATE = 9"
definition EXIT_GETFD :: int where "EXIT_GETFD = 2"
definition EXIT_FD_OPEN :: int where "EXIT_FD_OPEN = 3"
definition EXIT_UNEXPECTED_FD :: int where "EXIT_UNEXPECTED_FD = 4"
definition EXIT_SIGACTION :: int where "EXIT_SIGACTION = 5"
definition EXIT_SIGHUP_IGNORE :: int where "EXIT_SIGHUP_IGNORE = 6"
definition EXIT_SETSID :: int where "EXIT_SETSID = 7"
definition EXIT_SECOND_FORK :: int where "EXIT_SECOND_FORK = 8"
definition EXIT_CODE_MASK :: int where "EXIT_CODE_MASK = 0x7F"

definition sys_unit :: "sys_env \<Rightarrow> syscall \<Rightarrow> ('w helper_world_scheme, unit) state" where
  "sys_unit env c = do { _ \<leftarrow> sys env c; ret () }"

definition exec_helper :: "sys_env \<Rightarrow> string \<Rightarrow> string list \<Rightarrow> ('w helper_world_scheme, unit) state" where
  "exec_helper env executable argv = do {
     s \<leftarrow> sys env Sys_setsid;
     if rv s = -1 then sys_unit env (Sys_exit EXIT_SETSID)
     else do {
       e \<leftarrow> sys env (Sys_execv executable argv);
       if rv e = -1 then
         sys_unit env (Sys_exit (if errno e AND EXIT_CODE_MASK \<noteq> 0 then errno e AND EXIT_CODE_MASK else 1))
       else ret ()
     }
   }"

definition second_fork :: "sys_env \<Rightarrow> string \<Rightarrow> string list \<Rightarrow> ('w helper_world_scheme, unit) state" where
  "second_fork env executable argv = do {
     p \<leftarrow> sys env Sys_fork;
     if rv p = -1 then sys_unit env (Sys_exit EXIT_SECOND_FORK)
     else if rv p \<noteq> 0 then sys_unit env (Sys_exit_now 0)
     else exec_helper env executable argv
   }"

definition detach_and_fork ::
  "sys_env \<Rightarrow> int \<Rightarrow> string \<Rightarrow> string list \<Rightarrow> ('w helper_world_scheme, unit) state" where
  "detach_and_fork env log_fd executable argv = do {
     fd0 \<leftarrow> sys env (Sys_open ''/dev/null'');
     fd1 \<leftarrow> sys env (Sys_dup 0);
     fd2 \<leftarrow> sys env (Sys_dup2 log_fd 2);
     _ \<leftarrow> sys env (Sys_close log_fd);
     if rv fd0 = -1 \<or> rv fd1 = -1 \<or> rv fd2 = -1 then sys_unit env (Sys_exit EXIT_FD_OPEN)
     else if rv fd0 \<noteq> 0 \<or> rv fd1 \<noteq> 1 \<or> rv fd2 \<noteq> 2 then sys_unit env (Sys_exit EXIT_UNEXPECTED_FD)
     else do {
       _ \<leftarrow> sys env (Sys_chdir ''/'');
       _ \<leftarrow> sys env (Sys_umask 0);
       m \<leftarrow> sys env Sys_sigemptyset;
       if rv m = -1 then sys_unit env (Sys_exit EXIT_SIGACTION)
       else do {
         h \<leftarrow> sys env Sys_sighup_ignore;
         if rv h = -1 then sys_unit env (Sys_exit EXIT_SIGHUP_IGNORE)
         else second_fork env executable argv
       }
     }
   }"

fun check_fds :: "sys_env \<Rightarrow> int list \<Rightarrow> ('w helper_world_scheme, bool) state" where
  "check_fds env [] = ret True"
| "check_fds env (fd # fds) = do {
     r \<leftarrow> sys env (Sys_getfd fd);
     if rv r = -1 then ret False else check_fds env fds
   }"

definition continue_in_intermediate_process ::
  "sys_env \<Rightarrow> int \<Rightarrow> int \<Rightarrow> int \<Rightarrow> string \<Rightarrow> string list \<Rightarrow> ('w helper_world_scheme, unit) state" where
  "continue_in_intermediate_process env log_fd lock_fd sock_fd executable argv = do {
     _ \<leftarrow> close_file_descriptors env log_fd lock_fd sock_fd;
     sig \<leftarrow> reset_signals_state env;
     if \<not> sig then sys_unit env (Sys_exit EXIT_SIGNALS_STATE)
     else do {
       valid \<leftarrow> check_fds env [log_fd, lock_fd, sock_fd];
       if \<not> valid then sys_unit env (Sys_exit EXIT_GETFD)
       else detach_and_fork env log_fd executable argv
     }
   }"

text \<open>
  The arguments added to the configured ones tell the helper which descriptor is its socket. In
  the extension \<open>fork\<close> does not return 0; the branch where it does is the new process.
\<close>

definition helper_args :: "string \<Rightarrow> int \<Rightarrow> string" where
  "helper_args extra_args sock_fd =
     extra_args @ (if extra_args \<noteq> [] then '' '' else []) @
     ''--lock_path - --socket_path fd:'' @
     (if sock_fd < 0 then ''-'' else []) @ nat_dec (nat \<bar>sock_fd\<bar>)"

definition spawn_helper ::
  "sys_env \<Rightarrow> helper_config \<Rightarrow> int \<Rightarrow> int \<Rightarrow> int \<Rightarrow> ('w helper_world_scheme, dd_result) state" where
  "spawn_helper env cfg lock_fd log_fd sock_fd =
     (case split_argv (c_str (cfg_helper_path cfg))
             (helper_args (c_str (cfg_helper_extra_args cfg)) sock_fd) of
        None \<Rightarrow> do {
          _ \<leftarrow> sys env (Sys_close log_fd);
          _ \<leftarrow> sys env (Sys_close sock_fd);
          ret dd_error
        }
      | Some argv \<Rightarrow> do {
          p \<leftarrow> sys env Sys_fork;
          if rv p \<noteq> 0 then do {
            _ \<leftarrow> sys env (Sys_close log_fd);
            _ \<leftarrow> sys env (Sys_close sock_fd);
            if rv p = -1 then ret dd_error
            else wait_for_intermediate_process env (rv p)
          }
          else do {
            _ \<leftarrow> continue_in_intermediate_process env log_fd lock_fd sock_fd (hd argv) argv;
            ret dd_error
          }
        })"

definition launch_helper_daemon ::
  "sys_env \<Rightarrow> helper_config \<Rightarrow> int \<Rightarrow> ('w helper_world_scheme, dd_result) state" where
  "launch_helper_daemon env cfg lock_fd = do {
     log_fd \<leftarrow> sys env (Sys_open (c_str (cfg_helper_log_file cfg)));
     if rv log_fd = -1 then ret dd_error
     else do {
       sock_fd \<leftarrow> open_socket_for_helper env;
       if sock_fd = -1 then do { _ \<leftarrow> sys env (Sys_close (rv log_fd)); ret dd_error }
       else spawn_helper env cfg lock_fd (rv log_fd) sock_fd
     }
   }"

text \<open>
  A failed launch keeps the lock for good; a successful one releases it and leaves its copy to
  the helper.
\<close>

definition finish_launch :: "sys_env \<Rightarrow> int \<Rightarrow> dd_result \<Rightarrow> ('w helper_world_scheme, bool) state" where
  "finish_launch env lock_fd res =
     (if res \<noteq> dd_success then do {
        _ \<leftarrow> prevent_launch_attempts env lock_fd;
        ret False
      }
      else do {
        _ \<leftarrow> sys env (Sys_close lock_fd);
        upd_mgr (\<lambda>m. m\<lparr>launched_this_req := True\<rparr>);
        ret True
      })"

definition maybe_launch_helper ::
  "sys_env \<Rightarrow> helper_config \<Rightarrow> ('w helper_world_scheme, bool) state" where
  "maybe_launch_helper env cfg =
     (if \<not> cfg_helper_launch cfg then ret False
      else do {
        lock_fd \<leftarrow> acquire_lock env;
        if lock_fd = -1 then ret False
        else do {
          res \<leftarrow> launch_helper_daemon env cfg lock_fd;
          finish_launch env lock_fd res
        }
      })"

section \<open>Acquiring and closing the connection\<close>

definition timeout_send :: int where "timeout_send = 500"
definition timeout_recv_initial :: int where "timeout_recv_initial = 7500"
definition timeout_recv_subseq :: int where "timeout_recv_subseq = 2000"

text \<open>The operations of network.c on the connection of the manager.\<close>

definition mgr_conn_init :: "sys_env \<Rightarrow> ('w helper_world_scheme, dd_result) state" where
  "mgr_conn_init env = do {
     m \<leftarrow> gets mgr;
     (res, c) \<leftarrow> dd_conn_init env (conn m) (socket_path m);
     upd_mgr (\<lambda>m. m\<lparr>conn := c\<rparr>);
     ret res
   }"

definition mgr_conn_destroy :: "sys_env \<Rightarrow> ('w helper_world_scheme, int) state" where
  "mgr_conn_destroy env = do {
     m \<leftarrow> gets mgr;
     (res, c) \<leftarrow> dd_conn_destroy env (conn m);
     upd_mgr (\<lambda>m. m\<lparr>conn := c\<rparr>);
     ret res
   }"

definition mgr_set_timeout ::
  "sys_env \<Rightarrow> comm_type \<Rightarrow> int \<Rightarrow> ('w helper_world_scheme, dd_result) state" where
  "mgr_set_timeout env t ms = do {
     m \<leftarrow> gets mgr;
     dd_conn_set_timeout env (conn m) t ms
   }"

type_synonym 'w client_init_func = "dd_conn \<Rightarrow> ('w helper_world_scheme, dd_result) state"

text \<open>The rest of an iteration once a connection is open; \<open>True\<close> is leaving the loop by \<open>break\<close>.\<close>

definition test_connection ::
  "sys_env \<Rightarrow> 'w client_init_func \<Rightarrow> nat \<Rightarrow> ('w helper_world_scheme, bool) state" where
  "test_connection env init_func attempt = do {
     _ \<leftarrow> mgr_set_timeout env comm_type_send timeout_send;
     _ \<leftarrow> mgr_set_timeout env comm_type_recv timeout_recv_initial;
     m \<leftarrow> gets mgr;
     res \<leftarrow> init_func (conn m);
     if res \<noteq> dd_success then do {
       _ \<leftarrow> mgr_conn_destroy env;
       (if attempt = 1 then prevent_launch_attempts env (-1) else ret ());
       ret False
     }
     else do {
       _ \<leftarrow> mgr_set_timeout env comm_type_recv timeout_recv_subseq;
       ret True
     }
   }"

text \<open>
  The loop of \<open>dd_helper_mgr_acquire_conn\<close>: \<open>Some True\<close> is \<open>break\<close>, \<open>Some False\<close> is \<open>goto error\<close>,
  and \<open>None\<close> running out of fuel.
\<close>

fun acquire_loop ::
  "nat \<Rightarrow> sys_env \<Rightarrow> helper_config \<Rightarrow> 'w client_init_func \<Rightarrow> nat \<Rightarrow>
   ('w helper_world_scheme, bool option) state" where
  "acquire_loop 0 env cfg init_func attempt = ret None"
| "acquire_loop (Suc fuel) env cfg init_func attempt = do {
     res \<leftarrow> mgr_conn_init env;
     if res \<noteq> dd_success then
       (if attempt = 0 then do {
          retry \<leftarrow> maybe_launch_helper env cfg;
          if retry then acquire_loop fuel env cfg init_func (attempt + 1) else ret (Some False)
        }
        else do {
          _ \<leftarrow> prevent_launch_attempts env (-1);
          ret (Some False)
        })
     else do {
       ok \<leftarrow> test_connection env init_func attempt;
       ret (Some ok)
     }
   }"

text \<open>
  The result is whether a connection (the one of the manager) is returned. Two iterations are
  enough (\<open>acquire_loop_returns\<close> below), which is the fuel given here.
\<close>

definition dd_helper_mgr_acquire_conn ::
  "sys_env \<Rightarrow> helper_config \<Rightarrow> 'w client_init_func \<Rightarrow> ('w helper_world_scheme, bool) state" where
  "dd_helper_mgr_acquire_conn env cfg init_func = do {
     m \<leftarrow> gets mgr;
     if dd_conn_connected (conn m) then ret True
     else do {
       wait \<leftarrow> wait_for_next_retry env;
       if wait then ret False
       else do {
         _ \<leftarrow> dd_on_runtime_path_update env (cfg_version cfg) (cfg_runtime_path cfg);
         ok \<leftarrow> acquire_loop 2 env cfg init_func 0;
         if ok = Some True then do {
           connection_succeeded;
           ret True
         }
         else do {
           inc_failed_counter env;
           ret False
         }
       }
     }
   }"

definition dd_helper_mgr_cur_conn :: "('w helper_world_scheme, dd_conn option) state" where
  "dd_helper_mgr_cur_conn = do {
     m \<leftarrow> gets mgr;
     ret (if dd_conn_connected (conn m) then Some (conn m) else None)
   }"

definition dd_helper_close_conn :: "sys_env \<Rightarrow> ('w helper_world_scheme, unit) state" where
  "dd_helper_close_conn env = do {
     m \<leftarrow> gets mgr;
     if \<not> dd_conn_connected (conn m) then ret ()
     else do {
       _ \<leftarrow> mgr_conn_destroy env;
       (if connected_this_req m then inc_failed_counter env else ret ());
       (if launched_this_req m then do {
          lock_fd \<leftarrow> acquire_lock env;
          if lock_fd = -1 then ret () else prevent_launch_attempts env lock_fd
        } else ret ())
     }
   }"

section \<open>Descriptors the manager holds\<close>

definition mgr_fds :: "'w helper_world_scheme \<Rightarrow> int multiset" where
  "mgr_fds w =
     (if dd_conn_connected (conn (mgr w)) then {#socket (conn (mgr w))#} else {#}) +
     (if launch_failure_fd_lock w \<noteq> -1 then {#launch_failure_fd_lock w#} else {#})"

definition helper_inv :: "'w helper_world_scheme \<Rightarrow> bool" where
  "helper_inv w = (open_fds (trace w) = mgr_fds w)"

text \<open>A call sequence that changes nothing but the trace.\<close>

definition quiet :: "'w helper_world_scheme \<Rightarrow> 'w helper_world_scheme \<Rightarrow> bool" where
  "quiet w w' = (mgr w' = mgr w \<and> launch_failure_fd_lock w' = launch_failure_fd_lock w)"

text \<open>A call that opens at most one descriptor and returns it, or -1.\<close>

definition opens_one :: "'w helper_world_scheme \<Rightarrow> int \<Rightarrow> 'w helper_world_scheme \<Rightarrow> bool" where
  "opens_one w fd w' =
     (quiet w w' \<and>
      (if fd = -1 then open_fds (trace w') = open_fds (trace w)
       else fd > 0 \<and> open_fds (trace w') = add_mset fd (open_fds (trace w))))"

lemma wp_openI:
  assumes "positive_fds env"
    and "\<And>r. rv r = -1 \<or> rv r > 0 \<Longrightarrow> Q r (w\<lparr>trace := trace w @ [(Sys_open p, r)]\<rparr>)"
  shows "wp (sys env (Sys_open p)) Q w"
  by (rule wp_sys_envI [where P = "\<lambda>tr c r. rv r = -1 \<or> rv r > 0"])
     (use assms(2) positive_fdsD(2) [OF assms(1)] in blast)+

lemma wp_socketI:
  assumes "positive_fds env"
    and "\<And>r. rv r = -1 \<or> rv r > 0 \<Longrightarrow> Q r (w\<lparr>trace := trace w @ [(Sys_socket, r)]\<rparr>)"
  shows "wp (sys env Sys_socket) Q w"
  by (rule wp_sys_envI [where P = "\<lambda>tr c r. rv r = -1 \<or> rv r > 0"])
     (use assms(2) positive_fdsD(1) [OF assms(1)] in blast)+

lemma wp_acquire_lock:
  assumes "positive_fds env"
  shows "wp (acquire_lock env) (opens_one w) w"
  unfolding acquire_lock_def
  by (intro wp_bindI wp_getsI wp_openI [OF assms] wp_ifI wp_retI)
     (auto simp: wp_rules opens_one_def quiet_def)

lemma wp_open_socket_for_helper:
  assumes "positive_fds env"
  shows "wp (open_socket_for_helper env) (opens_one w) w"
  unfolding open_socket_for_helper_def
  by (intro wp_bindI wp_getsI wp_ifI wp_retI wp_sysI [where c = "Sys_unlink _"] wp_socketI [OF assms])
     (auto intro!: wp_intros wp_sysI simp: opens_one_def quiet_def)

lemma wp_hold_lock:
  assumes "fd \<noteq> -1" "open_fds (trace w) = add_mset fd (mgr_fds w)"
  shows "wp (hold_lock env fd)
    (\<lambda>_ w'. helper_inv w' \<and> mgr w' = mgr w \<and> launch_failure_fd_lock w' \<noteq> -1) w"
  unfolding hold_lock_def
  by (intro wp_intros wp_sysI) (use assms in \<open>auto simp: helper_inv_def mgr_fds_def\<close>)

lemma mgr_fds_quiet: "quiet w w' \<Longrightarrow> mgr_fds w' = mgr_fds w"
  by (simp add: quiet_def mgr_fds_def)

lemma opens_one_inv:
  assumes "opens_one w fd w'" "helper_inv w"
  shows "if fd = -1 then helper_inv w' else fd > 0 \<and> open_fds (trace w') = add_mset fd (mgr_fds w')"
  using assms mgr_fds_quiet [of w w'] by (auto simp: opens_one_def helper_inv_def)

lemma wp_prevent_launch_attempts:
  assumes "positive_fds env" "helper_inv w"
  shows "wp (prevent_launch_attempts env (-1)) (\<lambda>_ w'. helper_inv w' \<and> mgr w' = mgr w) w"
proof -
  have "wp (if fd = -1 then ret () else hold_lock env fd) (\<lambda>_ w'. helper_inv w' \<and> mgr w' = mgr w) w1"
    if "opens_one w fd w1" for fd w1
    using opens_one_inv [OF that assms(2)] that
    by (auto simp: wp_ret opens_one_def quiet_def intro!: wp_mono [OF wp_hold_lock])
  then show ?thesis
    unfolding prevent_launch_attempts_def
    by (simp, intro wp_bindI wp_mono [OF wp_acquire_lock [OF assms(1)]])
qed

lemma wp_wait_for_intermediate:
  "wp (wait_for_intermediate_process env p)
     (\<lambda>_ w'. quiet w w' \<and> open_fds (trace w') = open_fds (trace w)) w"
  unfolding wait_for_intermediate_process_def
  by (intro wp_intros wp_sysI) (auto simp: quiet_def)

text \<open>The environment of the process that called \<open>fork\<close>.\<close>

definition parent_env :: "sys_env \<Rightarrow> bool" where
  "parent_env env = (\<forall>tr. rv (env tr Sys_fork) \<noteq> 0)"

lemma wp_forkI:
  assumes "parent_env env"
    and "\<And>r. rv r \<noteq> 0 \<Longrightarrow> Q r (w\<lparr>trace := trace w @ [(Sys_fork, r)]\<rparr>)"
  shows "wp (sys env Sys_fork) Q w"
  by (rule wp_sys_envI [where P = "\<lambda>tr c r. rv r \<noteq> 0"])
     (use assms in \<open>auto simp: parent_env_def\<close>)

lemma wp_spawn_helper:
  assumes "parent_env env" "open_fds (trace w) = add_mset sock_fd (add_mset log_fd fds)"
  shows "wp (spawn_helper env cfg lock_fd log_fd sock_fd)
    (\<lambda>_ w'. quiet w w' \<and> open_fds (trace w') = fds) w"
proof -
  have wait: "wp (wait_for_intermediate_process env p) (\<lambda>_ w'. quiet w w' \<and> open_fds (trace w') = fds) w2"
    if "quiet w w2" "open_fds (trace w2) = fds" for p w2
    by (rule wp_mono [OF wp_wait_for_intermediate]) (use that in \<open>auto simp: quiet_def\<close>)
  show ?thesis
    unfolding spawn_helper_def
    by (intro wp_bindI wp_ifI wp_case_optionI wp_retI wait wp_forkI [OF assms(1)]
           wp_sysI [where c = "Sys_close _"])
       (use assms(2) in \<open>auto simp: quiet_def\<close>)
qed

lemma wp_launch_helper_daemon:
  assumes "positive_fds env" "parent_env env"
  shows "wp (launch_helper_daemon env cfg lock_fd)
    (\<lambda>_ w'. quiet w w' \<and> open_fds (trace w') = open_fds (trace w)) w"
  unfolding launch_helper_daemon_def
  by (intro wp_bindI wp_openI [OF assms(1)] wp_ifI wp_retI wp_sysI [where c = "Sys_close _"]
        wp_mono [OF wp_open_socket_for_helper [OF assms(1)]]
        wp_mono [OF wp_spawn_helper [OF assms(2), where fds = "open_fds (trace w)"]])
     (auto simp: quiet_def opens_one_def)

lemma wp_finish_launch:
  assumes "fd > 0" "open_fds (trace w) = add_mset fd (mgr_fds w)"
  shows "wp (finish_launch env fd res)
    (\<lambda>r w'. helper_inv w' \<and> (r \<longleftrightarrow> res = dd_success) \<and>
       mgr w' = (mgr w)\<lparr>launched_this_req := launched_this_req (mgr w) \<or> r\<rparr> \<and>
       (\<not> r \<longrightarrow> launch_failure_fd_lock w' \<noteq> -1)) w"
  using assms unfolding finish_launch_def prevent_launch_attempts_def
  by (auto intro!: wp_intros wp_sysI wp_mono [OF wp_hold_lock] simp: helper_inv_def mgr_fds_def)

lemma wp_maybe_launch_helper:
  assumes "positive_fds env" "parent_env env" "helper_inv w"
  shows "wp (maybe_launch_helper env cfg)
    (\<lambda>r w'. helper_inv w' \<and> mgr w' = (mgr w)\<lparr>launched_this_req := launched_this_req (mgr w) \<or> r\<rparr>) w"
    (is "wp _ ?Q w")
proof -
  have mid: "wp (if fd = -1 then ret False
        else do { res \<leftarrow> launch_helper_daemon env cfg fd; finish_launch env fd res }) ?Q w1"
    if w1: "opens_one w fd w1" for fd w1
  proof (cases "fd = -1")
    case True
    with opens_one_inv [OF w1 assms(3)] w1 show ?thesis by (simp add: wp_ret opens_one_def quiet_def)
  next
    case False
    with opens_one_inv [OF w1 assms(3)] w1 have "mgr w1 = mgr w" "fd > 0"
      "open_fds (trace w1) = add_mset fd (mgr_fds w1)" by (auto simp: opens_one_def quiet_def)
    with False show ?thesis
      by (simp only: if_False, intro wp_bindI wp_mono [OF wp_launch_helper_daemon [OF assms(1,2)]]
            wp_mono [OF wp_finish_launch])
         (auto simp: quiet_def mgr_fds_def)
  qed
  show ?thesis
    unfolding maybe_launch_helper_def
    by (intro wp_ifI wp_bindI wp_mono [OF wp_acquire_lock [OF assms(1)]] mid)
       (use assms in \<open>auto simp: wp_ret\<close>)
qed

section \<open>Acquiring the connection\<close>

lemma quiet_more: "world.more w' = world.more w \<Longrightarrow> quiet w w'"
  by (cases w, cases w') (simp add: quiet_def)

lemma wp_helper_conn_init:
  assumes "positive_fds env" "helper_inv w" "\<not> dd_conn_connected c"
  shows "wp (dd_conn_init env c path)
    (\<lambda>(res, c') w'. quiet w w' \<and> (res = dd_success \<longleftrightarrow> dd_conn_connected c') \<and>
       open_fds (trace w') = (if dd_conn_connected c' then {#socket c'#} else {#}) + open_fds (trace w)) w"
  using assms(3)
  by (intro wp_mono [OF wp_conj [OF wp_dd_conn_init [OF assms(1)] frame_dd_conn_init]])
     (auto simp: conn_init_post_def dd_conn_connected_def dest!: quiet_more split: prod.splits if_splits)

lemma wp_mgr_conn_init:
  assumes "positive_fds env" "helper_inv w" "\<not> dd_conn_connected (conn (mgr w))"
  shows "wp (mgr_conn_init env)
    (\<lambda>res w'. helper_inv w' \<and> (res = dd_success \<longleftrightarrow> dd_conn_connected (conn (mgr w'))) \<and>
       mgr w' = (mgr w)\<lparr>conn := conn (mgr w')\<rparr>) w"
  unfolding mgr_conn_init_def
  by (intro wp_bindI wp_getsI wp_mono [OF wp_helper_conn_init [OF assms]])
     (use assms(2,3) in \<open>auto simp: wp_rules helper_inv_def mgr_fds_def quiet_def split: if_splits\<close>)

lemma wp_mgr_conn_destroy:
  assumes "helper_inv w" "dd_conn_connected (conn (mgr w))"
  shows "wp (mgr_conn_destroy env)
    (\<lambda>_ w'. helper_inv w' \<and> \<not> dd_conn_connected (conn (mgr w')) \<and>
       mgr w' = (mgr w)\<lparr>conn := conn (mgr w')\<rparr> \<and> launch_failure_fd_lock w' = launch_failure_fd_lock w) w"
  using assms unfolding mgr_conn_destroy_def dd_conn_destroy_def
  by (auto simp: wp_rules helper_inv_def mgr_fds_def dd_conn_connected_def split: prod.splits)

lemma wp_mgr_set_timeout:
  "wp (mgr_set_timeout env t ms) (\<lambda>_ w'. quiet w w' \<and> open_fds (trace w') = open_fds (trace w)) w"
  unfolding mgr_set_timeout_def dd_conn_set_timeout_def
  by (intro wp_intros wp_sysI) (auto simp: quiet_def)

text \<open>What the manager relies on of the first exchange: it opens and closes nothing and keeps the state.\<close>

definition init_keeps :: "'w client_init_func \<Rightarrow> bool" where
  "init_keeps init_func =
     (\<forall>c w. wp (init_func c) (\<lambda>_ w'. quiet w w' \<and> open_fds (trace w') = open_fds (trace w)) w)"

lemma helper_inv_quiet: "quiet w w' \<Longrightarrow> open_fds (trace w') = open_fds (trace w) \<Longrightarrow> helper_inv w \<Longrightarrow> helper_inv w'"
  by (simp add: helper_inv_def mgr_fds_quiet)

lemma wp_keep:
  assumes "wp m (\<lambda>_ w'. quiet w w' \<and> open_fds (trace w') = open_fds (trace w)) w"
    and "mgr w = M" "helper_inv w" "\<And>a w'. mgr w' = M \<Longrightarrow> helper_inv w' \<Longrightarrow> R a w'"
  shows "wp m R w"
proof (rule wp_mono [OF assms(1)])
  fix a w'
  assume q: "quiet w w' \<and> open_fds (trace w') = open_fds (trace w)"
  then have "mgr w' = M" using assms(2) by (simp add: quiet_def)
  with q assms(3) show "R a w'" by (intro assms(4) helper_inv_quiet [of w w']) auto
qed

lemma wp_test_connection:
  assumes "positive_fds env" "init_keeps init_func" "helper_inv w" "dd_conn_connected (conn (mgr w))"
  shows "wp (test_connection env init_func attempt)
    (\<lambda>ok w'. helper_inv w' \<and> (ok \<longleftrightarrow> dd_conn_connected (conn (mgr w'))) \<and>
       mgr w' = (mgr w)\<lparr>conn := conn (mgr w')\<rparr>) w"
proof -
  have fail: "wp (prevent_launch_attempts env (- 1)) (\<lambda>a. wp (ret False) (\<lambda>ok w'. helper_inv w' \<and>
        (ok \<longleftrightarrow> dd_conn_connected (conn (mgr w'))) \<and> mgr w' = (mgr w)\<lparr>conn := conn (mgr w')\<rparr>)) w1"
    if "helper_inv w1" "\<not> dd_conn_connected (conn (mgr w1))" "mgr w1 = (mgr w)\<lparr>conn := conn (mgr w1)\<rparr>" for w1
    by (rule wp_mono [OF wp_prevent_launch_attempts [OF assms(1) that(1)]]) (use that in \<open>auto simp: wp_ret\<close>)
  have inits: "wp (init_func c) (\<lambda>_ w'. quiet w1 w' \<and> open_fds (trace w') = open_fds (trace w1)) w1" for c w1
    using assms(2) by (simp add: init_keeps_def)
  show ?thesis
    unfolding test_connection_def
    by (intro wp_bindI wp_getsI wp_keep [OF wp_mgr_set_timeout, where M = "mgr w"] wp_keep [OF inits, where M = "mgr w"] wp_ifI wp_retI 
          wp_mono [OF wp_mgr_conn_destroy] fail)
       (use assms in auto)
qed

text \<open>The loop changes the connection and the launch mark only.\<close>

definition mgr_frame :: "dd_helper_mgr \<Rightarrow> dd_helper_mgr \<Rightarrow> bool" where
  "mgr_frame m m' = (m' = m\<lparr>conn := conn m', launched_this_req := launched_this_req m'\<rparr>)"

lemma mgr_frame_conn: "m' = m\<lparr>conn := conn m'\<rparr> \<Longrightarrow> mgr_frame m m'"
  by (cases m, cases m') (simp add: mgr_frame_def)

lemma mgr_frame_launched: "m' = m\<lparr>launched_this_req := l\<rparr> \<Longrightarrow> mgr_frame m m'"
  by (cases m, cases m') (simp add: mgr_frame_def)

lemma mgr_frame_trans: "mgr_frame m m1 \<Longrightarrow> mgr_frame m1 m2 \<Longrightarrow> mgr_frame m m2"
  by (cases m, cases m1, cases m2) (simp add: mgr_frame_def)

lemma mgr_frame_refl: "mgr_frame m m"
  by (simp add: mgr_frame_def)

definition loop_post :: "'w helper_world_scheme \<Rightarrow> bool option \<Rightarrow> 'w helper_world_scheme \<Rightarrow> bool" where
  "loop_post w r w' =
     (\<exists>ok. r = Some ok \<and> helper_inv w' \<and> (ok \<longleftrightarrow> dd_conn_connected (conn (mgr w'))) \<and>
        mgr_frame (mgr w) (mgr w'))"

lemma loop_post_trans: "loop_post w1 r w' \<Longrightarrow> mgr_frame (mgr w) (mgr w1) \<Longrightarrow> loop_post w r w'"
  unfolding loop_post_def using mgr_frame_trans by blast

lemma wp_acquire_loop:
  assumes "positive_fds env" "parent_env env" "init_keeps init_func"
    and "helper_inv w" "\<not> dd_conn_connected (conn (mgr w))" "fuel \<ge> 1" "attempt = 0 \<Longrightarrow> fuel \<ge> 2"
  shows "wp (acquire_loop fuel env cfg init_func attempt) (loop_post w) w"
  using assms(4-)
proof (induction fuel arbitrary: attempt w)
  case 0
  then show ?case by simp
next
  case (Suc fuel)
  have tested: "wp (test_connection env init_func attempt) (\<lambda>ok. wp (ret (Some ok)) (loop_post w)) w1"
    if "helper_inv w1" "dd_conn_connected (conn (mgr w1))" "mgr_frame (mgr w) (mgr w1)" for w1
    by (rule wp_mono [OF wp_test_connection [OF assms(1,3) that(1,2)]])
       (use that(3) mgr_frame_conn mgr_frame_trans in \<open>fastforce simp: wp_ret loop_post_def\<close>)
  have again: "wp (acquire_loop fuel env cfg init_func (attempt + 1)) (loop_post w) w1"
    if "attempt = 0" "helper_inv w1" "\<not> dd_conn_connected (conn (mgr w1))"
      "mgr_frame (mgr w) (mgr w1)" for w1
    by (rule wp_mono [OF Suc.IH loop_post_trans]) (use that Suc.prems in auto)
  have launch: "wp (maybe_launch_helper env cfg) (\<lambda>retry. wp (if retry
        then acquire_loop fuel env cfg init_func (attempt + 1) else ret (Some False)) (loop_post w)) w1"
    if "attempt = 0" "helper_inv w1" "\<not> dd_conn_connected (conn (mgr w1))"
      "mgr_frame (mgr w) (mgr w1)" for w1
  proof (rule wp_mono [OF wp_maybe_launch_helper [OF assms(1,2) that(2)]])
    fix r and w' :: "'a helper_world_scheme"
    assume l: "helper_inv w' \<and>
        mgr w' = (mgr w1)\<lparr>launched_this_req := launched_this_req (mgr w1) \<or> r\<rparr>"
    then have "mgr_frame (mgr w) (mgr w')"
      using that(4) mgr_frame_launched mgr_frame_trans by blast
    with l that show "wp (if r then acquire_loop fuel env cfg init_func (attempt + 1)
        else ret (Some False)) (loop_post w) w'"
      by (intro wp_ifI wp_retI again) (auto simp: loop_post_def)
  qed
  have give_up: "wp (prevent_launch_attempts env (- 1)) (\<lambda>_. wp (ret (Some False)) (loop_post w)) w1"
    if "helper_inv w1" "\<not> dd_conn_connected (conn (mgr w1))" "mgr_frame (mgr w) (mgr w1)" for w1
    by (rule wp_mono [OF wp_prevent_launch_attempts [OF assms(1) that(1)]])
       (use that in \<open>auto simp: wp_ret loop_post_def\<close>)
  show ?case
    unfolding acquire_loop.simps
    by (intro wp_bindI wp_mono [OF wp_mgr_conn_init [OF assms(1)]] wp_ifI launch give_up tested)
       (use Suc.prems in \<open>auto intro: mgr_frame_conn\<close>)
qed

lemma wp_inc_failed_counter:
  "wp (inc_failed_counter env)
    (\<lambda>_ w'. launch_failure_fd_lock w' = launch_failure_fd_lock w \<and>
       open_fds (trace w') = open_fds (trace w) \<and>
       conn (mgr w') = conn (mgr w) \<and> failed_count (mgr w') \<noteq> 0) w"
  unfolding inc_failed_counter_def Let_def
  by (intro wp_intros wp_sysI) (auto simp: eq_neg_iff_add_eq_0 [symmetric])

lemma wp_wait_for_next_retry:
  "wp (wait_for_next_retry env) (\<lambda>_ w'. quiet w w' \<and> open_fds (trace w') = open_fds (trace w)) w"
  unfolding wait_for_next_retry_def
  by (intro wp_intros wp_sysI) (auto simp: quiet_def)

lemma wp_runtime_path_update:
  "wp (dd_on_runtime_path_update env v b)
     (\<lambda>_ w'. launch_failure_fd_lock w' = launch_failure_fd_lock w \<and>
       open_fds (trace w') = open_fds (trace w) \<and>
       (\<exists>p q. mgr w' = (mgr w)\<lparr>socket_path := p, lock_path := q\<rparr>)) w"
  unfolding dd_on_runtime_path_update_def Let_def
  by (intro wp_intros wp_sysI) auto

text \<open>The invariant of the manager between calls.\<close>

definition mgr_inv :: "'w helper_world_scheme \<Rightarrow> bool" where
  "mgr_inv w =
     (helper_inv w \<and> (failed_count (mgr w) = 0 \<longrightarrow> next_retry (mgr w) = (0, 0)))"

definition acquire_post :: "'w helper_world_scheme \<Rightarrow> bool \<Rightarrow> 'w helper_world_scheme \<Rightarrow> bool" where
  "acquire_post w r w' =
     (mgr_inv w' \<and> (r \<longleftrightarrow> dd_conn_connected (conn (mgr w'))) \<and>
      (dd_conn_connected (conn (mgr w)) \<longrightarrow> w' = w) \<and>
      (r \<and> \<not> dd_conn_connected (conn (mgr w)) \<longrightarrow>
         connected_this_req (mgr w') \<and> failed_count (mgr w') = 0 \<and> next_retry (mgr w') = (0, 0)))"

lemma mgr_fds_conn_lock:
  "conn (mgr w') = conn (mgr w) \<Longrightarrow> launch_failure_fd_lock w' = launch_failure_fd_lock w \<Longrightarrow>
   mgr_fds w' = mgr_fds w"
  by (simp add: mgr_fds_def)

lemma wp_acquire_conn:
  assumes "positive_fds env" "parent_env env" "init_keeps init_func" "mgr_inv w"
  shows "wp (dd_helper_mgr_acquire_conn env cfg init_func) (acquire_post w) w"
proof (cases "dd_conn_connected (conn (mgr w))")
  case True
  with assms(4) show ?thesis
    by (simp add: dd_helper_mgr_acquire_conn_def wp_rules acquire_post_def)
next
  case False
  have succ: "wp connection_succeeded (\<lambda>_. wp (ret True) (acquire_post w)) w2"
    if "helper_inv w2" "dd_conn_connected (conn (mgr w2))" for w2
    using that False
    by (simp add: connection_succeeded_def wp_rules acquire_post_def mgr_inv_def helper_inv_def mgr_fds_def)
  have fail: "wp (inc_failed_counter env) (\<lambda>_. wp (ret False) (acquire_post w)) w2"
    if "helper_inv w2" "\<not> dd_conn_connected (conn (mgr w2))" for w2
    by (rule wp_mono [OF wp_inc_failed_counter])
       (use that False in \<open>auto simp: wp_ret acquire_post_def mgr_inv_def helper_inv_def mgr_fds_def\<close>)
  have loop: "wp (acquire_loop 2 env cfg init_func 0) (\<lambda>ok. wp (if ok = Some True
      then do { connection_succeeded; ret True } else do { inc_failed_counter env; ret False })
      (acquire_post w)) w1" if "helper_inv w1" "\<not> dd_conn_connected (conn (mgr w1))" for w1
    by (rule wp_mono [OF wp_acquire_loop [OF assms(1-3) that]])
       (auto simp: loop_post_def intro!: wp_ifI wp_bindI succ fail)
  have update: "wp (dd_on_runtime_path_update env (cfg_version cfg) (cfg_runtime_path cfg))
      (\<lambda>_. wp (do { ok \<leftarrow> acquire_loop 2 env cfg init_func 0; if ok = Some True
      then do { connection_succeeded; ret True } else do { inc_failed_counter env; ret False } })
      (acquire_post w)) w1" if "helper_inv w1" "\<not> dd_conn_connected (conn (mgr w1))" for w1
    by (rule wp_mono [OF wp_runtime_path_update])
       (use that in \<open>auto intro!: wp_bindI loop simp: helper_inv_def mgr_fds_def\<close>)
  show ?thesis
    unfolding dd_helper_mgr_acquire_conn_def
    by (intro wp_bindI wp_getsI wp_ifI wp_retI wp_keep [OF wp_wait_for_next_retry, where M = "mgr w"] update)
       (use False assms(4) in \<open>auto simp: acquire_post_def mgr_inv_def\<close>)
qed

lemma wp_prevent_with_lock:
  assumes "fd > 0" "open_fds (trace w) = add_mset fd (mgr_fds w)"
  shows "wp (prevent_launch_attempts env fd)
    (\<lambda>_ w'. helper_inv w' \<and> mgr w' = mgr w \<and> launch_failure_fd_lock w' \<noteq> -1) w"
  unfolding prevent_launch_attempts_def using assms wp_hold_lock [of fd w env] by simp

lemma wp_close_conn:
  assumes "positive_fds env" "mgr_inv w"
  shows "wp (dd_helper_close_conn env)
    (\<lambda>_ w'. mgr_inv w' \<and> \<not> dd_conn_connected (conn (mgr w'))) w"
proof (cases "dd_conn_connected (conn (mgr w))")
  case False
  with assms(2) show ?thesis by (simp add: dd_helper_close_conn_def wp_rules)
next
  case True
  let ?Q = "\<lambda>_ w'. mgr_inv w' \<and> \<not> dd_conn_connected (conn (mgr w'))"
  let ?lock = "if launched_this_req (mgr w) then do {
          lock_fd \<leftarrow> acquire_lock env;
          if lock_fd = -1 then ret () else prevent_launch_attempts env lock_fd
        } else ret ()"
  have locked: "wp (if fd = -1 then ret () else prevent_launch_attempts env fd) ?Q w2"
    if "opens_one w1 fd w2" "mgr_inv w1" "\<not> dd_conn_connected (conn (mgr w1))" for w1 w2 fd
    using opens_one_inv [OF that(1)] that
    by (auto simp: wp_ret mgr_inv_def opens_one_def quiet_def intro!: wp_mono [OF wp_prevent_with_lock])
  have lock: "wp ?lock ?Q w1" if "mgr_inv w1" "\<not> dd_conn_connected (conn (mgr w1))" for w1
    by (intro wp_ifI wp_bindI wp_retI wp_mono [OF wp_acquire_lock [OF assms(1)]] locked)
       (use that in auto)
  have count: "wp (if connected_this_req (mgr w) then inc_failed_counter env else ret ())
      (\<lambda>_. wp ?lock ?Q) w1" if "mgr_inv w1" "\<not> dd_conn_connected (conn (mgr w1))" for w1
    by (intro wp_ifI wp_retI lock wp_mono [OF wp_inc_failed_counter])
       (use that in \<open>auto simp: mgr_inv_def helper_inv_def mgr_fds_def\<close>)
  have destroyed: "mgr_inv w1" if "helper_inv w1" "mgr w1 = (mgr w)\<lparr>conn := c\<rparr>" for w1 c
    using that assms(2) by (simp add: mgr_inv_def)
  show ?thesis
    unfolding dd_helper_close_conn_def
    by (intro wp_bindI wp_getsI wp_ifI [where b = "\<not> _"] wp_retI
          wp_mono [OF wp_mgr_conn_destroy] count)
       (use True assms(2) destroyed in \<open>auto simp: mgr_inv_def\<close>)
qed

section \<open>The argument buffer\<close>

declare split_step.simps [simp del]

lemma split_step_grows: "length (sp_buf (split_step st p)) \<le> Suc (length (sp_buf st))"
  by (auto simp: split_step.simps sp_put_def sp_begin_def split: split_state.splits)

lemma split_loop_grows: "length (sp_buf (foldl split_step st p)) \<le> length (sp_buf st) + length p"
proof (induction p arbitrary: st)
  case (Cons c p)
  from Cons [of "split_step st c"] split_step_grows [of st c] show ?case by simp
qed simp

text \<open>The offsets lie in what has been written, and the first of them is the start of the buffer.\<close>

definition split_inv :: "split_st \<Rightarrow> bool" where
  "split_inv st =
     (sp_start st \<le> length (sp_buf st) \<and> (\<forall>i \<in> set (sp_ret st). i < length (sp_buf st)) \<and>
      (sp_ret st = [] \<longrightarrow> (if sp_state st = between then sp_buf st = [] else sp_start st = 0)) \<and>
      (sp_ret st \<noteq> [] \<longrightarrow> hd (sp_ret st) = 0) \<and> (sp_state st = between \<longrightarrow> \<not> sp_escaped st))"

lemma split_inv_step: "split_inv st \<Longrightarrow> split_inv (split_step st p)"
  by (auto simp: split_inv_def split_step.simps sp_put_def sp_begin_def less_Suc_eq hd_append split: split_state.splits)

lemma split_inv_loop: "split_inv (foldl split_step sp_init p)"
proof -
  have "split_inv st \<Longrightarrow> split_inv (foldl split_step st p)" for st
    by (induction p arbitrary: st) (simp_all add: split_inv_step)
  moreover have "split_inv sp_init" by (simp add: split_inv_def sp_init_def)
  ultimately show ?thesis by blast
qed

lemma split_params_buffer:
  assumes "split_params params = Some (buf, offs)"
  shows "length buf \<le> length params + 1 \<and> (\<forall>i \<in> set offs. i < length buf) \<and>
    (offs \<noteq> [] \<longrightarrow> hd offs = 0)"
proof -
  let ?p = "skip_spaces params"
  have "length (sp_buf (split_loop ?p)) \<le> length params"
    using split_loop_grows [of sp_init ?p] length_skip_spaces_le [of params]
    by (simp add: split_loop_def sp_init_def)
  with assms split_inv_loop [of ?p] show ?thesis
    by (auto simp: split_params_def Let_def split_loop_def [symmetric] split_inv_def less_Suc_eq hd_append
        split: if_splits)
qed

section \<open>Quoting\<close>

datatype arg_seg = Plain char | Escaped char | DQ string | SQ string

definition quote_body :: "char \<Rightarrow> string \<Rightarrow> string" where
  "quote_body q s = concat (map (\<lambda>c. if c = q \<or> c = backslash then [backslash, c] else [c]) s)"

fun seg_text :: "arg_seg \<Rightarrow> string" where
  "seg_text (Plain c) = [c]"
| "seg_text (Escaped c) = [c]"
| "seg_text (DQ s) = s"
| "seg_text (SQ s) = s"

fun seg_render :: "arg_seg \<Rightarrow> string" where
  "seg_render (Plain c) = [c]"
| "seg_render (Escaped c) = [backslash, c]"
| "seg_render (DQ s) = dquote # quote_body dquote s @ [dquote]"
| "seg_render (SQ s) = squote # quote_body squote s @ [squote]"

fun seg_ok :: "arg_seg \<Rightarrow> bool" where
  "seg_ok (Plain c) = (c \<notin> {space, dquote, squote, backslash})"
| "seg_ok _ = True"

definition arg_text :: "arg_seg list \<Rightarrow> string" where
  "arg_text a = concat (map seg_text a)"

definition arg_render :: "arg_seg list \<Rightarrow> string" where
  "arg_render a = concat (map seg_render a)"

definition arg_ok :: "arg_seg list \<Rightarrow> bool" where
  "arg_ok a = (a \<noteq> [] \<and> list_all seg_ok a \<and> nul \<notin> set (arg_text a))"

fun join_args :: "arg_seg list list \<Rightarrow> string" where
  "join_args [] = []"
| "join_args [a] = arg_render a"
| "join_args (a # as) = arg_render a @ [space] @ join_args as"

abbreviation "spst \<equiv> \<lambda>s b k r. \<lparr>sp_state = s, sp_escaped = False, sp_buf = b, sp_start = k, sp_ret = r\<rparr>"

lemma split_dq: "foldl split_step (spst double_quoted b k r) (quote_body dquote s) = spst double_quoted (b @ s) k r"
  by (induction s arbitrary: b) (auto simp: quote_body_def split_step.simps sp_put_def)

lemma split_sq: "foldl split_step (spst single_quoted b k r) (quote_body squote s) = spst single_quoted (b @ s) k r"
  by (induction s arbitrary: b) (auto simp: quote_body_def split_step.simps sp_put_def)

lemma split_seg_bare:
  "seg_ok g \<Longrightarrow> foldl split_step (spst bare_param b k r) (seg_render g) = spst bare_param (b @ seg_text g) k r"
  by (cases g) (simp_all add: split_dq split_sq split_step.simps sp_put_def)

lemma split_seg_between:
  "seg_ok g \<Longrightarrow>
   foldl split_step (spst between b k r) (seg_render g) = spst bare_param (b @ seg_text g) (length b) r"
  by (cases g) (simp_all add: split_dq split_sq split_step.simps sp_put_def sp_begin_def)

lemma split_segs_bare:
  "list_all seg_ok a \<Longrightarrow>
   foldl split_step (spst bare_param b k r) (arg_render a) = spst bare_param (b @ arg_text a) k r"
  by (induction a arbitrary: b)
     (simp_all add: arg_render_def arg_text_def split_seg_bare)

lemma split_arg:
  assumes "arg_ok a"
  shows "foldl split_step (spst between b k r) (arg_render a) = spst bare_param (b @ arg_text a) (length b) r"
proof -
  from assms obtain g gs where "a = g # gs" "seg_ok g" "list_all seg_ok gs"
    by (cases a) (auto simp: arg_ok_def)
  then show ?thesis
    using split_segs_bare [of gs] by (simp add: arg_render_def arg_text_def split_seg_between)
qed

lemma split_space: "split_step (spst bare_param b k r) space = spst between (b @ [nul]) k (r @ [k])"
  by (simp add: split_step.simps sp_put_def)

definition stored :: "string \<Rightarrow> nat \<Rightarrow> string \<Rightarrow> bool" where
  "stored buf i t = (\<exists>u v. buf = u @ t @ nul # v \<and> length u = i)"

lemma stored_append: "stored buf i t \<Longrightarrow> stored (buf @ x) i t"
  unfolding stored_def by (metis append.assoc append_Cons)

lemma stored_here: "stored (b @ t @ nul # v) (length b) t"
  unfolding stored_def by blast

lemma stored_c_str: "stored buf i t \<Longrightarrow> nul \<notin> set t \<Longrightarrow> c_str (drop i buf) = t"
  by (auto simp: stored_def c_str_def takeWhile_append takeWhile_eq_all_conv)

lemma split_args:
  assumes "list_all arg_ok as" "as \<noteq> []" "list_all2 (stored b) r ts"
  shows "\<exists>b' k' r'. foldl split_step (spst between b k r) (join_args as) = spst bare_param b' k' r' \<and>
    list_all2 (stored (b' @ [nul])) (r' @ [k']) (ts @ map arg_text as)"
  using assms
proof (induction as arbitrary: b k r ts rule: join_args.induct)
  case (2 a)
  then have "list_all2 (stored (b @ arg_text a @ [nul])) r ts"
    by (auto elim!: list_all2_mono intro: stored_append)
  moreover note stored_here [of b "arg_text a" "[]"]
  ultimately show ?case using 2 by (simp add: split_arg list_all2_appendI)
next
  case (3 a a' as)
  let ?b = "b @ arg_text a @ [nul]"
  have "list_all2 (stored ?b) (r @ [length b]) (ts @ [arg_text a])"
    using 3(4) stored_here [of b "arg_text a" "[]"]
    by (auto elim!: list_all2_mono intro!: list_all2_appendI intro: stored_append)
  from 3(1) [OF _ _ this, of "length b"] 3(2) show ?case
    by (simp add: split_arg split_space)
qed simp

lemma hd_arg_render: "arg_ok a \<Longrightarrow> arg_render a \<noteq> [] \<and> hd (arg_render a) \<noteq> space"
  by (cases a; cases "hd a") (auto simp: arg_ok_def arg_render_def)

lemma join_args_Cons: "join_args (a # as) = arg_render a @ (if as = [] then [] else space # join_args as)"
  by (cases as) simp_all

lemma skip_join_args: "list_all arg_ok as \<Longrightarrow> skip_spaces (join_args as) = join_args as"
proof (cases as)
  case (Cons a as')
  assume "list_all arg_ok as"
  with Cons hd_arg_render [of a] obtain c cs where "arg_render a = c # cs" "c \<noteq> space"
    by (cases "arg_render a") auto
  with Cons show ?thesis by (simp add: join_args_Cons skip_spaces_def)
qed simp

lemma map_stored:
  "list_all2 (stored buf) offs ts \<Longrightarrow> list_all (\<lambda>t. nul \<notin> set t) ts \<Longrightarrow>
   map (\<lambda>i. c_str (drop i buf)) offs = ts"
  by (induction offs ts rule: list_all2_induct) (auto intro: stored_c_str)

lemma split_argv_join:
  assumes "list_all arg_ok as"
  shows "split_argv exe (join_args as) = Some (exe # map arg_text as)"
proof (cases "as = []")
  case True
  then show ?thesis by (simp add: split_argv_def split_params_def)
next
  case False
  from split_args [OF assms False, of "[]" "[]" "[]" 0] obtain b k r where
    st: "split_loop (join_args as) = spst bare_param b k r"
    and offs: "list_all2 (stored (b @ [nul])) (r @ [k]) (map arg_text as)"
    by (auto simp: split_loop_def sp_init_def)
  have "join_args as \<noteq> []" using False assms hd_arg_render by (cases as) (auto simp: join_args_Cons)
  moreover have "list_all (\<lambda>t. nul \<notin> set t) (map arg_text as)"
    using assms by (auto simp: list_all_iff arg_ok_def)
  from map_stored [OF offs this]
  have "map (\<lambda>i. c_str (drop i (b @ [nul]))) (r @ [k]) = map arg_text as" .
  ultimately show ?thesis
    using assms by (simp add: split_argv_def split_params_def skip_join_args st Let_def)
qed

lemma join_args_append:
  "as \<noteq> [] \<Longrightarrow> bs \<noteq> [] \<Longrightarrow> join_args (as @ bs) = join_args as @ [space] @ join_args bs"
  by (induction as) (auto simp: join_args_Cons)

definition plain_arg :: "string \<Rightarrow> arg_seg list" where
  "plain_arg s = map Plain s"

lemma plain_arg_text [simp]: "arg_text (plain_arg s) = s" "arg_render (plain_arg s) = s"
  by (induction s) (auto simp: plain_arg_def arg_text_def arg_render_def)

lemma nat_dec_digits: "c \<in> set (nat_dec n) \<Longrightarrow> \<exists>d < 10. c = char_of (48 + d :: nat)"
proof (induction n rule: nat_dec.induct)
  case (1 n)
  show ?case
  proof (cases "n < 10")
    case True
    with 1(2) show ?thesis by (auto simp: nat_dec.simps [of n])
  next
    case False
    with 1 show ?thesis by (auto simp: nat_dec.simps [of n] intro: exI [of _ "n mod 10"])
  qed
qed

lemma digit_plain: "d < 10 \<Longrightarrow> seg_ok (Plain (char_of (48 + d :: nat))) \<and> char_of (48 + d) \<noteq> nul"
  by (simp add: char_eq_nat del: of_char_eq_iff)

lemma plain_arg_ok:
  "s \<noteq> [] \<Longrightarrow> (\<forall>c \<in> set s. seg_ok (Plain c) \<and> c \<noteq> nul) \<Longrightarrow> arg_ok (plain_arg s)"
  by (simp add: arg_ok_def list_all_iff plain_arg_text(1)) (simp add: plain_arg_def, blast)

lemma helper_args_argv:
  assumes "list_all arg_ok as" "fd \<ge> 0"
  shows "split_argv exe (helper_args (join_args as) fd) =
    Some (exe # map arg_text as @
      [''--lock_path'', ''-'', ''--socket_path'', ''fd:'' @ nat_dec (nat fd)])"
proof -
  let ?own = "map plain_arg [''--lock_path'', ''-'', ''--socket_path'', ''fd:'' @ nat_dec (nat fd)]"
  have "\<forall>c \<in> set (nat_dec (nat fd)). seg_ok (Plain c) \<and> c \<noteq> nul"
    by (rule ballI, drule nat_dec_digits, erule exE, erule conjE, drule digit_plain, erule ssubst)
  then have "arg_ok (plain_arg (''fd:'' @ nat_dec (nat fd)))" by (intro plain_arg_ok) auto
  moreover have "arg_ok (plain_arg ''--lock_path'')" "arg_ok (plain_arg ''-'')"
    "arg_ok (plain_arg ''--socket_path'')" by code_simp+
  ultimately have own: "list_all arg_ok ?own" by simp
  have "join_args as = [] \<longleftrightarrow> as = []"
    using assms(1) hd_arg_render by (cases as) (auto simp: join_args_Cons)
  then have "helper_args (join_args as) fd = join_args (as @ ?own)"
    using assms(2) by (cases "as = []") (simp_all add: helper_args_def join_args_append)
  with split_argv_join [of "as @ ?own" exe] assms(1) own show ?thesis by (simp add: comp_def)
qed

section \<open>The intermediate process\<close>

text \<open>The closes in a trace spare the given descriptors.\<close>

definition spares :: "int list \<Rightarrow> sys_trace \<Rightarrow> bool" where
  "spares keep es = (\<forall>fd r. (Sys_close fd, r) \<in> set es \<longrightarrow> fd \<notin> set keep)"

definition spares_post :: "int list \<Rightarrow> 'w world_scheme \<Rightarrow> 'w world_scheme \<Rightarrow> bool" where
  "spares_post keep w w' = (\<exists>es. trace w' = trace w @ es \<and> spares keep es)"

lemma spares_post_refl: "spares_post keep w w"
  by (simp add: spares_post_def spares_def)

lemma spares_post_step:
  "spares_post keep (w\<lparr>trace := trace w @ [(c, r)]\<rparr>) w' \<Longrightarrow> (\<forall>fd. c = Sys_close fd \<longrightarrow> fd \<notin> set keep) \<Longrightarrow>
   spares_post keep w w'"
  unfolding spares_post_def spares_def by simp (metis list.set_intros(2) set_ConsD prod.inject)

lemma wp_readdir_loop: "wp (readdir_loop env keep names) (\<lambda>_. spares_post keep w) w"
proof (induction names arbitrary: w)
  case Nil
  then show ?case by (simp add: wp_ret spares_post_refl)
next
  case (Cons d names)
  have closed: "wp (readdir_loop env keep names) (\<lambda>_. spares_post keep w)
      (w\<lparr>trace := trace w @ [(Sys_close fd, r)]\<rparr>)" if "fd \<notin> set keep" for fd r
    by (rule wp_mono [OF Cons.IH]) (use that in \<open>auto intro: spares_post_step\<close>)
  show ?case
    by (simp, intro conjI impI wp_case_optionI wp_ifI wp_bindI wp_sysI closed Cons.IH) auto
qed

lemma wp_close_range_loop: "wp (close_range_loop env keep is) (\<lambda>_. spares_post keep w) w"
proof (induction "is" arbitrary: w)
  case Nil
  then show ?case by (simp add: wp_ret spares_post_refl)
next
  case (Cons i "is")
  have closed: "wp (close_range_loop env keep is) (\<lambda>_. spares_post keep w)
      (w\<lparr>trace := trace w @ [(Sys_close (int i), r)]\<rparr>)" if "int i \<notin> set keep" for r
    by (rule wp_mono [OF Cons.IH]) (use that in \<open>auto intro: spares_post_step\<close>)
  show ?case
    by (simp, intro conjI impI wp_bindI wp_sysI closed Cons.IH)
qed

lemma wp_close_file_descriptors:
  "wp (close_file_descriptors env log_fd lock_fd sock_fd)
     (\<lambda>_. spares_post [log_fd, lock_fd, sock_fd] w) w"
proof -
  let ?keep = "[log_fd, lock_fd, sock_fd]"
  have dirs: "wp (readdir_loop env ?keep ns) (\<lambda>_. wp (do { _ \<leftarrow> sys env Sys_closedir; ret () }) (\<lambda>_. spares_post ?keep w))
      (w\<lparr>trace := trace w @ [(Sys_opendir p, r)]\<rparr>)" for ns p r
    by (rule wp_mono [OF wp_readdir_loop]) (auto simp: wp_rules spares_post_def spares_def)
  have rng: "wp (close_range_loop env ?keep ns) (\<lambda>_. spares_post ?keep w)
      (w\<lparr>trace := trace w @ [(Sys_opendir p, r), (Sys_getrlimit, r')]\<rparr>)" for ns p r r'
    by (rule wp_mono [OF wp_close_range_loop]) (auto simp: spares_post_def spares_def)
  show ?thesis
    unfolding close_file_descriptors_def Let_def
    by (intro wp_bindI wp_sysI wp_ifI dirs) (simp add: rng)
qed

text \<open>A call that ends the process.\<close>

fun ends_process :: "syscall \<Rightarrow> bool" where
  "ends_process (Sys_exit n) = True"
| "ends_process (Sys_exit_now n) = True"
| "ends_process (Sys_execv p args) = True"
| "ends_process _ = False"

abbreviation ended :: "'w world_scheme \<Rightarrow> bool" where
  "ended w \<equiv> trace w \<noteq> [] \<and> ends_process (fst (last (trace w)))"

lemma wp_detach_ends: "wp (detach_and_fork env log_fd exe argv) (\<lambda>_. ended) w"
  unfolding detach_and_fork_def second_fork_def exec_helper_def sys_unit_def
  by (intro wp_intros wp_sysI) simp_all

lemma wp_intermediate_ends:
  "wp (continue_in_intermediate_process env log_fd lock_fd sock_fd exe argv) (\<lambda>_. ended) w"
  unfolding continue_in_intermediate_process_def sys_unit_def
  by (intro wp_bindI wp_ifI wp_sysI wp_retI wp_detach_ends wp_mono [OF wp_True]) simp_all

section \<open>Backoff\<close>

lemma unat_u16_bound: "unat (f :: u16) < 2 ^ 16"
  using unsigned_less [of f] by simp

lemma saturating_count:
  fixes f :: u16
  defines "n \<equiv> min (unat f + 1) (2 ^ 16 - 1)"
  shows "(if f \<noteq> -1 then f + 1 else f) = of_nat n" "unat (of_nat n :: u16) = n"
proof -
  have bound: "unat f < 2 ^ 16" using unsigned_less [of f] by simp
  have "n < 2 ^ 16" by (simp add: n_def)
  then show "unat (of_nat n :: u16) = n" by (simp add: unat_of_nat)
  show "(if f \<noteq> -1 then f + 1 else f) = of_nat n"
  proof (cases "f = -1")
    case True
    then have "unat f = 2 ^ 16 - 1" by (simp add: unsigned_minus_1_eq_mask mask_eq_exp_minus_1)
    with True show ?thesis by (simp add: n_def)
  next
    case False
    then have "1 + f \<noteq> 0" by (metis add.commute eq_neg_iff_add_eq_0)
    then have "unat (1 + f) = Suc (unat f)" by (rule unatSuc)
    moreover from this have "Suc (unat f) < 2 ^ 16" using unat_u16_bound [of "1 + f"] by simp
    ultimately have "n = unat (f + 1)" by (simp add: n_def add.commute)
    with False show ?thesis by simp
  qed
qed

lemma run_inc_failed_counter:
  fixes w :: "'w helper_world_scheme" and env :: sys_env
  defines "n \<equiv> min (unat (failed_count (mgr w)) + 1) (2 ^ 16 - 1)"
  defines "now \<equiv> out_time (env (trace w) Sys_clock_gettime)"
  assumes "rv (env (trace w) Sys_clock_gettime) \<noteq> -1"
  shows "mgr (snd (run_state (inc_failed_counter env) w)) =
    (mgr w)\<lparr>failed_count := of_nat n, next_retry := (fst now + 3 * 2 ^ min (n - 1) 10, snd now)\<rparr>"
proof -
  let ?c = "if failed_count (mgr w) \<noteq> -1 then failed_count (mgr w) + 1 else failed_count (mgr w)"
  have "mgr (snd (run_state (inc_failed_counter env) w)) =
    (mgr w)\<lparr>failed_count := ?c, next_retry := (fst now + 3 * 2 ^ min (unat ?c - 1) 10, snd now)\<rparr>"
    using assms(3)
    by (simp add: inc_failed_counter_def now_def backoff_initial_def backoff_base_def
        backoff_max_exponent_def Let_def)
  then show ?thesis
    unfolding n_def saturating_count [of "failed_count (mgr w)"] .
qed

lemma run_acquire_backoff:
  assumes "\<not> dd_conn_connected (conn (mgr w))" "fst (next_retry (mgr w)) \<noteq> 0"
    and "rv (env (trace w) Sys_clock_gettime) \<noteq> -1"
    and "fst (out_time (env (trace w) Sys_clock_gettime)) < fst (next_retry (mgr w))"
  shows "run_state (dd_helper_mgr_acquire_conn env cfg init_func) w =
    (False, w\<lparr>trace := trace w @ [(Sys_clock_gettime, env (trace w) Sys_clock_gettime)]\<rparr>)"
  using assms by (simp add: dd_helper_mgr_acquire_conn_def wait_for_next_retry_def)

section \<open>Reachable states\<close>

inductive helper_reachable ::
  "sys_env \<Rightarrow> helper_config \<Rightarrow> unit client_init_func \<Rightarrow> helper_world \<Rightarrow> bool"
  for env cfg init_func where
  start: "helper_reachable env cfg init_func
    \<lparr>trace = [], mgr = initial_mgr, launch_failure_fd_lock = -1\<rparr>"
| acquire: "helper_reachable env cfg init_func w \<Longrightarrow>
    run_state (dd_helper_mgr_acquire_conn env cfg init_func) w = (r, w') \<Longrightarrow>
    helper_reachable env cfg init_func w'"
| close: "helper_reachable env cfg init_func w \<Longrightarrow>
    run_state (dd_helper_close_conn env) w = (u, w') \<Longrightarrow> helper_reachable env cfg init_func w'"
| rshutdown: "helper_reachable env cfg init_func w \<Longrightarrow>
    run_state dd_helper_rshutdown w = (u, w') \<Longrightarrow> helper_reachable env cfg init_func w'"
| shutdown: "helper_reachable env cfg init_func w \<Longrightarrow>
    run_state (dd_helper_shutdown env) w = (u, w') \<Longrightarrow> helper_reachable env cfg init_func w'"
| other: "helper_reachable env cfg init_func w \<Longrightarrow> quiet w w' \<Longrightarrow>
    open_fds (trace w') = open_fds (trace w) \<Longrightarrow> helper_reachable env cfg init_func w'"

lemma helper_reachable_mgr_inv:
  assumes "helper_reachable env cfg init_func w"
    and "positive_fds env" "parent_env env" "init_keeps init_func"
  shows "mgr_inv w"
  using assms(1)
proof (induction rule: helper_reachable.induct)
  case start
  then show ?case by (simp add: mgr_inv_def helper_inv_def mgr_fds_def initial_mgr_def dd_conn_connected_def)
next
  case (acquire w r w')
  then show ?case using wp_run [OF wp_acquire_conn [OF assms(2-4)]] by (auto simp: acquire_post_def)
next
  case (close w u w')
  then show ?case using wp_run [OF wp_close_conn [OF assms(2)]] by blast
next
  case (rshutdown w u w')
  then show ?case
    by (auto simp: dd_helper_rshutdown_def mgr_inv_def helper_inv_def mgr_fds_def)
next
  case (shutdown w u w')
  then show ?case
    by (auto simp: dd_helper_shutdown_def mgr_inv_def helper_inv_def mgr_fds_def split: if_splits)
next
  case (other w w')
  then show ?case by (auto simp: mgr_inv_def quiet_def intro: helper_inv_quiet [unfolded quiet_def])
qed

section \<open>Properties\<close>

lemma sample_parent: "parent_env sample_env"
  by (simp add: parent_env_def sample_env_def sys_ret_def)

definition sample_init :: "unit client_init_func" where
  "sample_init c = dd_conn_sendv sample_env c [''hello'']"

lemma sample_init_keeps: "init_keeps sample_init"
  unfolding init_keeps_def sample_init_def dd_conn_sendv_def Let_def
  by (intro allI wp_intros wp_sysI) (auto simp: quiet_def)

definition sample_config :: helper_config where
  "sample_config =
     \<lparr>cfg_helper_launch = True, cfg_runtime_path = ''/tmp'', cfg_helper_log_file = ''/dev/null'',
      cfg_helper_path = ''/bin/helper'', cfg_helper_extra_args = [], cfg_version = ''0.1''\<rparr>"

definition start_world :: helper_world where
  "start_world = \<lparr>trace = [], mgr = initial_mgr, launch_failure_fd_lock = -1\<rparr>"

text \<open>
  In every state the manager can reach by acquiring and closing connections, request
  and module shutdown, and any exchange on the connection, and whatever the system calls return,
  the descriptors left open are exactly the socket of a live connection and the lock held to
  prevent launches, and no backoff is pending after a failure count of zero.
\<close>

theorem helper_reachable_descriptors:
  assumes "helper_reachable env cfg init_func w"
    and "positive_fds env" "parent_env env" "init_keeps init_func"
  shows "open_fds (trace w) =
      (if dd_conn_connected (conn (mgr w)) then {#socket (conn (mgr w))#} else {#}) +
      (if launch_failure_fd_lock w \<noteq> -1 then {#launch_failure_fd_lock w#} else {#}) \<and>
    (failed_count (mgr w) = 0 \<longrightarrow> next_retry (mgr w) = (0, 0))"
  using helper_reachable_mgr_inv [OF assms] by (simp add: mgr_inv_def helper_inv_def mgr_fds_def)

theorem helper_reachable_descriptors_witness:
  "open_fds (trace (snd (run_state dd_helper_rshutdown start_world))) = {#}"
proof -
  have "helper_reachable sample_env sample_config sample_init
      (snd (run_state dd_helper_rshutdown start_world))"
    unfolding start_world_def
    by (rule helper_reachable.rshutdown [OF helper_reachable.start]) (simp add: dd_helper_rshutdown_def)
  from helper_reachable_descriptors [OF this sample_env_ok(2) sample_parent sample_init_keeps]
  show ?thesis
    by (simp add: start_world_def dd_helper_rshutdown_def initial_mgr_def dd_conn_connected_def)
qed

text \<open>
  Property C14: \<open>dd_helper_mgr_acquire_conn\<close> always returns, and it returns a connection exactly
  when the manager has a live one afterwards. A live connection is reused without any system call;
  a fresh one resets the failure count and the backoff.
\<close>

theorem acquire_conn_result:
  assumes "run_state (dd_helper_mgr_acquire_conn env cfg init_func) w = (r, w')"
    and "positive_fds env" "parent_env env" "init_keeps init_func" "mgr_inv w"
  shows "mgr_inv w' \<and> (r \<longleftrightarrow> dd_conn_connected (conn (mgr w'))) \<and>
    (dd_conn_connected (conn (mgr w)) \<longrightarrow> w' = w) \<and>
    (r \<and> \<not> dd_conn_connected (conn (mgr w)) \<longrightarrow>
       connected_this_req (mgr w') \<and> failed_count (mgr w') = 0 \<and> next_retry (mgr w') = (0, 0))"
  using wp_run [OF wp_acquire_conn [OF assms(2-5)] assms(1)] by (simp add: acquire_post_def)

theorem acquire_conn_result_witness:
  "\<exists>r w'. run_state (dd_helper_mgr_acquire_conn sample_env sample_config sample_init) start_world =
     (r, w') \<and> (r \<longleftrightarrow> dd_conn_connected (conn (mgr w')))"
proof -
  obtain r w' where run: "run_state (dd_helper_mgr_acquire_conn sample_env sample_config sample_init)
      start_world = (r, w')" by (metis prod.exhaust)
  have "mgr_inv start_world"
    by (simp add: start_world_def mgr_inv_def helper_inv_def mgr_fds_def initial_mgr_def
        dd_conn_connected_def)
  from acquire_conn_result [OF run sample_env_ok(2) sample_parent sample_init_keeps this] run
  show ?thesis by blast
qed



text \<open>
  While a backoff is pending, acquiring a connection does nothing but read the clock:
  no connection attempt is made and no process is launched.
\<close>

theorem backoff_respected:
  assumes "\<not> dd_conn_connected (conn (mgr w))" "fst (next_retry (mgr w)) \<noteq> 0"
    and "rv (env (trace w) Sys_clock_gettime) \<noteq> -1"
    and "fst (out_time (env (trace w) Sys_clock_gettime)) < fst (next_retry (mgr w))"
  shows "run_state (dd_helper_mgr_acquire_conn env cfg init_func) w =
    (False, w\<lparr>trace := trace w @ [(Sys_clock_gettime, env (trace w) Sys_clock_gettime)]\<rparr>)"
  using assms by (rule run_acquire_backoff)

theorem backoff_respected_witness:
  "fst (run_state (dd_helper_mgr_acquire_conn sample_env sample_config sample_init)
     (start_world\<lparr>mgr := initial_mgr\<lparr>next_retry := (9, 0)\<rparr>\<rparr>)) = False"
  by (subst backoff_respected)
     (simp_all add: start_world_def initial_mgr_def sample_env_def sys_ret_def dd_conn_connected_def)

text \<open>
  The helper is started with the configured arguments, unquoted, followed by the
  ones the extension adds: any list of arguments written with plain, escaped and quoted parts comes
  out of the splitter as it was meant, and the last argument names the socket's descriptor.
\<close>

theorem helper_command_line:
  assumes "list_all arg_ok as" "fd \<ge> 0"
  shows "split_argv exe (helper_args (join_args as) fd) =
    Some (exe # map arg_text as @
      [''--lock_path'', ''-'', ''--socket_path'', ''fd:'' @ nat_dec (nat fd)])"
  using assms by (rule helper_args_argv)

theorem helper_command_line_witness:
  "split_argv ''/h'' (helper_args (join_args [[Plain (CHR ''a''), DQ ''b c''], [SQ []]]) 7) =
   Some [''/h'', ''ab c'', [], ''--lock_path'', ''-'', ''--socket_path'', ''fd:7'']"
proof -
  have "list_all arg_ok [[Plain (CHR ''a''), DQ ''b c''], [SQ []]]" by code_simp
  moreover have "nat_dec 7 = ''7''" by code_simp
  ultimately show ?thesis
    using helper_command_line [of "[[Plain (CHR ''a''), DQ ''b c''], [SQ []]]" 7 "''/h''"]
    by (simp add: arg_text_def)
qed

text \<open>
  The splitter never writes past its buffer of \<open>strlen + 1\<close> bytes, every argument
  pointer points into it, and the first one is the start of the allocation, which is what the
  caller passes to \<open>efree\<close>.
\<close>

theorem split_params_in_bounds:
  assumes "split_params params = Some (buf, offs)"
  shows "length buf \<le> length params + 1 \<and> (\<forall>i \<in> set offs. i < length buf) \<and>
    (offs \<noteq> [] \<longrightarrow> hd offs = 0)"
  using assms by (rule split_params_buffer)

theorem split_params_in_bounds_witness:
  "\<exists>buf offs. split_params '' a b'' = Some (buf, offs) \<and> length buf \<le> 5 \<and> hd offs = 0"
proof -
  have "split_params '' a b'' = Some ([CHR ''a'', nul, CHR ''b'', nul], [0, 2])" by code_simp
  with split_params_in_bounds [OF this] show ?thesis by simp
qed

text \<open>
  A launch that fails keeps the exclusive lock, so that no worker tries again; one
  that succeeds releases it. Nothing else stays open.
\<close>

theorem failed_launch_keeps_lock:
  assumes "run_state (finish_launch env fd res) w = (r, w')"
    and "fd > 0" "open_fds (trace w) = add_mset fd (mgr_fds w)"
  shows "open_fds (trace w') = mgr_fds w' \<and> (r \<longleftrightarrow> res = dd_success) \<and>
    (\<not> r \<longrightarrow> launch_failure_fd_lock w' \<noteq> -1)"
  using wp_run [OF wp_finish_launch [OF assms(2,3)] assms(1)] by (simp add: helper_inv_def)

theorem failed_launch_keeps_lock_witness:
  "launch_failure_fd_lock (snd (run_state (finish_launch sample_env 7 dd_error)
     (start_world\<lparr>trace := [(Sys_open ''l'', sys_ret 7)]\<rparr>))) \<noteq> -1"
proof -
  let ?w = "start_world\<lparr>trace := [(Sys_open ''l'', sys_ret 7)]\<rparr>"
  obtain r w' where run: "run_state (finish_launch sample_env 7 dd_error) ?w = (r, w')"
    by (metis prod.exhaust)
  have "open_fds (trace ?w) = add_mset 7 (mgr_fds ?w)"
    by (simp add: open_fds_def sys_ret_def mgr_fds_def start_world_def initial_mgr_def
        dd_conn_connected_def)
  from failed_launch_keeps_lock [OF run _ this] run show ?thesis by auto
qed



end
