(* ===== verification/Helper_Frame.thy ===== *)
theory Helper_Frame
  imports Helper_Process
begin

text \<open>
  What the manager of the helper process leaves alone. The operations of network.c and
  helper\_process.c write only the trace of system calls, the manager and the launch lock: any relation
  between the states before and after that does not depend on these three fields holds across each of
  them, given that the callback run on a new connection keeps it. The locale states this once for every
  such relation; it is interpreted where the operations meet the state of the whole extension.
\<close>

locale helper_frame = frame_relation R
  for R :: "'w helper_world_scheme \<Rightarrow> 'w helper_world_scheme \<Rightarrow> bool" +
  assumes frame_trace: "R s (s\<lparr>trace := t\<rparr>)"
    and frame_mgr: "R s (s\<lparr>mgr := m\<rparr>)"
    and frame_lock: "R s (s\<lparr>launch_failure_fd_lock := l\<rparr>)"
begin

lemma keeps_sys: "keeps R (sys env c)"
  by (simp add: keeps_def frame_trace)

lemma keeps_upd_mgr: "keeps R (upd_mgr f)"
  by (intro keeps_modify frame_mgr)

lemma keeps_upd_lock: "keeps R (modify (\<lambda>w. w\<lparr>launch_failure_fd_lock := l\<rparr>))"
  by (intro keeps_modify frame_lock)

lemmas keeps_helper_rules = keeps_rules keeps_sys keeps_upd_mgr keeps_upd_lock

lemma keeps_conn:
  "keeps R (dd_conn_destroy env c)" "keeps R (dd_conn_set_timeout env c t ms)"
  unfolding dd_conn_destroy_def dd_conn_set_timeout_def Let_def
  by (intro keeps_helper_rules)+

lemma keeps_conn_init: "keeps R (dd_conn_init env c path)"
  unfolding dd_conn_init_def conn_init_connect_def conn_init_poll_def conn_init_fail_def conn_init_finish_def
    Let_def
  by (intro keeps_helper_rules keeps_conn)

lemma keeps_mgr_conn:
  "keeps R (mgr_conn_init env)" "keeps R (mgr_conn_destroy env)" "keeps R (mgr_set_timeout env t ms)"
  unfolding mgr_conn_init_def mgr_conn_destroy_def mgr_set_timeout_def
  by (intro keeps_helper_rules keeps_conn keeps_conn_init)+

lemma keeps_lock:
  "keeps R (acquire_lock env)" "keeps R (hold_lock env fd)" "keeps R (prevent_launch_attempts env fd)"
  unfolding prevent_launch_attempts_def acquire_lock_def hold_lock_def
  by (intro keeps_helper_rules)+

lemma keeps_backoff:
  "keeps R (wait_for_next_retry env)" "keeps R connection_succeeded" "keeps R (inc_failed_counter env)"
  unfolding wait_for_next_retry_def connection_succeeded_def inc_failed_counter_def Let_def
  by (intro keeps_helper_rules)+

lemma keeps_loops:
  "keeps R (readdir_loop env keep names)" "keeps R (close_range_loop env keep is)"
  "keeps R (signal_loop env sigs)" "keeps R (check_fds env fds)"
proof -
  show "keeps R (readdir_loop env keep names)"
    by (induction names) (unfold readdir_loop.simps, (intro keeps_helper_rules; assumption)+)
  show "keeps R (close_range_loop env keep is)"
    by (induction "is") (unfold close_range_loop.simps, (intro keeps_helper_rules; assumption)+)
  show "keeps R (signal_loop env sigs)"
    by (induction sigs) (unfold signal_loop.simps, (intro keeps_helper_rules; assumption)+)
  show "keeps R (check_fds env fds)"
    by (induction fds) (unfold check_fds.simps, (intro keeps_helper_rules; assumption)+)
qed

lemma keeps_intermediate: "keeps R (continue_in_intermediate_process env log_fd lock_fd sock_fd exe argv)"
  unfolding continue_in_intermediate_process_def close_file_descriptors_def reset_signals_state_def
    detach_and_fork_def second_fork_def exec_helper_def sys_unit_def Let_def
  by (intro keeps_helper_rules keeps_loops)

lemma keeps_launch: "keeps R (maybe_launch_helper env cfg)"
  unfolding maybe_launch_helper_def launch_helper_daemon_def open_socket_for_helper_def spawn_helper_def
    finish_launch_def wait_for_intermediate_process_def
  by (intro keeps_helper_rules keeps_lock keeps_intermediate)

lemma keeps_acquire_loop:
  assumes "\<And>c. keeps R (init_func c)"
  shows "keeps R (acquire_loop fuel env cfg init_func attempt)"
proof (induction fuel arbitrary: attempt)
  case 0
  show ?case by (simp add: keeps_ret)
next
  case (Suc fuel)
  show ?case
    unfolding acquire_loop.simps test_connection_def
    by (intro keeps_helper_rules keeps_mgr_conn keeps_lock keeps_launch assms Suc)
qed

lemma keeps_runtime_path: "keeps R (dd_on_runtime_path_update env v base)"
  unfolding dd_on_runtime_path_update_def Let_def
  by (intro keeps_helper_rules)

lemma keeps_acquire_conn:
  assumes "\<And>c. keeps R (init_func c)"
  shows "keeps R (dd_helper_mgr_acquire_conn env cfg init_func)"
  unfolding dd_helper_mgr_acquire_conn_def
  by (intro keeps_helper_rules keeps_backoff keeps_runtime_path keeps_acquire_loop assms)

lemma keeps_cur_conn: "keeps R dd_helper_mgr_cur_conn"
  unfolding dd_helper_mgr_cur_conn_def by (intro keeps_helper_rules)

lemma keeps_close_conn: "keeps R (dd_helper_close_conn env)"
  unfolding dd_helper_close_conn_def by (intro keeps_helper_rules keeps_mgr_conn keeps_backoff keeps_lock)

lemma keeps_shutdowns: "keeps R dd_helper_rshutdown" "keeps R (dd_helper_shutdown env)"
  unfolding dd_helper_rshutdown_def dd_helper_shutdown_def by (intro keeps_helper_rules)+

lemmas keeps_helper = keeps_cur_conn keeps_close_conn keeps_shutdowns keeps_acquire_conn

end

end
