(* ===== verification/Msgpack.thy ===== *)
theory Msgpack
  imports Os Php_Helpers String_Helpers
begin

text \<open>
  src/extension/msgpack_helpers.c: writing PHP values with the mpack library.

  The library is not part of the sources. A writer is the sequence of calls made to it so far, and
  \<open>mpack_writer_error\<close> is a parameter, a function of that sequence. \<open>run_calls\<close> is the discipline
  the library documents for its callers: an array or map announced with n entries gets exactly n
  elements or pairs before it is finished, and one that is built gets any number of them.
\<close>

section \<open>Calls to the writer\<close>

datatype mpack_call =
    Mp_nil
  | Mp_bool bool
  | Mp_int int
  | Mp_uint nat
  | Mp_double u64
  | Mp_cstr "string option"
  | Mp_str string
  | Mp_start_array nat
  | Mp_finish_array
  | Mp_start_map nat
  | Mp_finish_map
  | Mp_build_array
  | Mp_complete_array
  | Mp_build_map
  | Mp_complete_map

type_synonym mpack_writer = "mpack_call list"
type_synonym mpack_w = "(mpack_writer, unit) state"
type_synonym writer_error = "mpack_writer \<Rightarrow> bool"

definition emit :: "mpack_call \<Rightarrow> mpack_w" where
  "emit c = modify (\<lambda>w. w @ [c])"

section \<open>The helpers\<close>

definition dd_mpack_write_lstr :: "string \<Rightarrow> mpack_w" where
  "dd_mpack_write_lstr s = emit (Mp_str s)"

definition dd_mpack_write_nullable_cstr :: "string option \<Rightarrow> mpack_w" where
  "dd_mpack_write_nullable_cstr cstr =
     (case cstr of Some s \<Rightarrow> emit (Mp_cstr (Some (c_str s))) | None \<Rightarrow> emit (Mp_str []))"

definition dd_mpack_write_nullable_str :: "string option \<Rightarrow> mpack_w" where
  "dd_mpack_write_nullable_str str = (case str of Some s \<Rightarrow> emit (Mp_str s) | None \<Rightarrow> emit (Mp_str []))"

definition dd_mpack_write_zstr :: "string \<Rightarrow> mpack_w" where
  "dd_mpack_write_zstr zstr = emit (Mp_str zstr)"

definition dd_mpack_write_nullable_zstr :: "string option \<Rightarrow> mpack_w" where
  "dd_mpack_write_nullable_zstr zstr =
     (case zstr of Some s \<Rightarrow> dd_mpack_write_zstr s | None \<Rightarrow> emit (Mp_str []))"

definition write_key :: "zkey \<Rightarrow> mpack_w" where
  "write_key k =
     (case k of
        KStr s \<Rightarrow> emit (Mp_str s)
      | KInt i \<Rightarrow> emit (Mp_cstr (Some (int_dec (sint i)))))"

text \<open>The two loops over an array, given what writes each element.\<close>

primrec write_vals :: "(zkey \<times> mpack_w) list \<Rightarrow> mpack_w" where
  "write_vals [] = ret ()"
| "write_vals (kv # ht) = do { snd kv; write_vals ht }"

primrec write_key_vals :: "(zkey \<times> mpack_w) list \<Rightarrow> mpack_w" where
  "write_key_vals [] = ret ()"
| "write_key_vals (kv # ht) = do { write_key (fst kv); snd kv; write_key_vals ht }"

primrec mpack_write_zval :: "zval \<Rightarrow> mpack_w" where
  "mpack_write_zval ZUndef = emit Mp_nil"
| "mpack_write_zval ZNull = emit Mp_nil"
| "mpack_write_zval ZFalse = emit (Mp_bool False)"
| "mpack_write_zval ZTrue = emit (Mp_bool True)"
| "mpack_write_zval (ZLong l) = emit (Mp_int l)"
| "mpack_write_zval (ZDouble d) = emit (Mp_double d)"
| "mpack_write_zval (ZString s) = emit (Mp_str s)"
| "mpack_write_zval (ZArray packed without_holes ht) =
     (let num_elems = length ht in
      if dd_php_determine_array_type (ZArray packed without_holes ht) = php_array_type_sequential
      then do {
        emit (Mp_start_array num_elems);
        write_vals (map (map_prod id mpack_write_zval) ht);
        emit Mp_finish_array
      }
      else do {
        emit (Mp_start_map num_elems);
        write_key_vals (map (map_prod id mpack_write_zval) ht);
        emit Mp_finish_map
      })"
| "mpack_write_zval ZObject = emit Mp_nil"
| "mpack_write_zval (ZReference z) = mpack_write_zval z"

definition dd_mpack_write_zval :: "writer_error \<Rightarrow> zval option \<Rightarrow> mpack_w" where
  "dd_mpack_write_zval err zv = do {
     w \<leftarrow> gets id;
     if err w then ret ()
     else case zv of None \<Rightarrow> emit Mp_nil | Some z \<Rightarrow> mpack_write_zval z
   }"

section \<open>The writer that collects buffers\<close>

text \<open>
  \<open>dd_mpack_writer_init_iov\<close>, \<open>_iovec_writer_flush\<close> and \<open>_iovec_writer_teardown\<close>. The writer fields
  the code touches: the current buffer, how much of it is used (\<open>position - buffer\<close>), whether an
  error is set, and the list of collected buffers. \<open>data\<close> tells whether the bytes flushed are the
  buffer itself or extra data.
\<close>

record iov_writer =
  iw_buffer :: "string option"
  iw_used :: nat
  iw_error :: bool
  iw_list :: "string list"

datatype flush_data = From_buffer | Extra string

text \<open>\<open>mpack_writer_init_error\<close> puts the writer in its initial state with the error set.\<close>

definition init_error :: "iov_writer \<Rightarrow> iov_writer" where
  "init_error w = w\<lparr>iw_buffer := None, iw_used := 0, iw_error := True\<rparr>"

definition dd_mpack_writer_init_iov :: "bool \<Rightarrow> iov_writer" where
  "dd_mpack_writer_init_iov malloc_ok =
     (let w = \<lparr>iw_buffer = Some [], iw_used = 0, iw_error = False, iw_list = []\<rparr> in
      if \<not> malloc_ok then init_error w else w)"

definition iovec_writer_flush :: "bool \<Rightarrow> flush_data \<Rightarrow> nat \<Rightarrow> iov_writer \<Rightarrow> iov_writer" where
  "iovec_writer_flush malloc_ok data cnt w =
     (case data of
        From_buffer \<Rightarrow>
          (let w1 = w\<lparr>iw_list := iw_list w @ [take cnt (the (iw_buffer w))]\<rparr> in
           if iw_used w = cnt then w1\<lparr>iw_buffer := None, iw_used := 0\<rparr>
           else if \<not> malloc_ok then init_error w1
           else w1\<lparr>iw_buffer := Some [], iw_used := 0\<rparr>)
      | Extra d \<Rightarrow>
          if \<not> malloc_ok then init_error w
          else w\<lparr>iw_list := iw_list w @ [take cnt d]\<rparr>)"

definition iovec_writer_teardown :: "iov_writer \<Rightarrow> iov_writer" where
  "iovec_writer_teardown w =
     (if iw_error w then w\<lparr>iw_list := []\<rparr> else w)\<lparr>iw_buffer := None\<rparr>"

section \<open>The discipline of the writer\<close>

datatype mp_frame = F_array nat | F_map nat | F_build_array | F_build_map bool | F_top nat

fun put_elem :: "mp_frame list \<Rightarrow> mp_frame list option" where
  "put_elem (F_top n # fs) = Some (F_top (Suc n) # fs)"
| "put_elem (F_array (Suc n) # fs) = Some (F_array n # fs)"
| "put_elem (F_map (Suc n) # fs) = Some (F_map n # fs)"
| "put_elem (F_build_array # fs) = Some (F_build_array # fs)"
| "put_elem (F_build_map b # fs) = Some (F_build_map (\<not> b) # fs)"
| "put_elem _ = None"

fun run_call :: "mpack_call \<Rightarrow> mp_frame list \<Rightarrow> mp_frame list option" where
  "run_call (Mp_start_array n) fs = map_option (Cons (F_array n)) (put_elem fs)"
| "run_call (Mp_start_map n) fs = map_option (Cons (F_map (2 * n))) (put_elem fs)"
| "run_call Mp_build_array fs = map_option (Cons F_build_array) (put_elem fs)"
| "run_call Mp_build_map fs = map_option (Cons (F_build_map False)) (put_elem fs)"
| "run_call Mp_finish_array (F_array 0 # fs) = Some fs"
| "run_call Mp_finish_map (F_map 0 # fs) = Some fs"
| "run_call Mp_complete_array (F_build_array # fs) = Some fs"
| "run_call Mp_complete_map (F_build_map False # fs) = Some fs"
| "run_call Mp_finish_array _ = None"
| "run_call Mp_finish_map _ = None"
| "run_call Mp_complete_array _ = None"
| "run_call Mp_complete_map _ = None"
| "run_call _ fs = put_elem fs"

fun run_calls :: "mpack_call list \<Rightarrow> mp_frame list \<Rightarrow> mp_frame list option" where
  "run_calls [] fs = Some fs"
| "run_calls (c # cs) fs = (case run_call c fs of None \<Rightarrow> None | Some fs' \<Rightarrow> run_calls cs fs')"

section \<open>What a packer writes\<close>

text \<open>\<open>writes n cs\<close>: in any open container the calls \<open>cs\<close> count as n elements.\<close>

fun put_elems :: "nat \<Rightarrow> mp_frame list \<Rightarrow> mp_frame list option" where
  "put_elems 0 fs = Some fs"
| "put_elems (Suc n) fs = (case put_elem fs of None \<Rightarrow> None | Some fs' \<Rightarrow> put_elems n fs')"

definition writes :: "nat \<Rightarrow> mpack_call list \<Rightarrow> bool" where
  "writes n cs = (\<forall>fs fs'. put_elems n fs = Some fs' \<longrightarrow> run_calls cs fs = Some fs')"

definition emits :: "nat \<Rightarrow> (mpack_writer, 'a) state \<Rightarrow> bool" where
  "emits n m = (\<forall>w. \<exists>cs. snd (run_state m w) = w @ cs \<and> writes n cs)"

lemma run_calls_append:
  "run_calls (cs @ ds) fs = (case run_calls cs fs of None \<Rightarrow> None | Some fs' \<Rightarrow> run_calls ds fs')"
  by (induction cs arbitrary: fs) (auto split: option.splits)

lemma put_elems_add:
  "put_elems (m + n) fs = (case put_elems m fs of None \<Rightarrow> None | Some fs' \<Rightarrow> put_elems n fs')"
  by (induction m arbitrary: fs) (auto split: option.splits)

lemma writes_append: "writes m cs \<Longrightarrow> writes n ds \<Longrightarrow> writes (m + n) (cs @ ds)"
  by (auto simp: writes_def run_calls_append put_elems_add split: option.splits)

lemma writes_Nil: "writes 0 []"
  by (simp add: writes_def)

lemma put_elems_array: "put_elems k (F_array (k + m) # fs) = Some (F_array m # fs)"
  by (induction k) auto

lemma put_elems_map: "put_elems k (F_map (k + m) # fs) = Some (F_map m # fs)"
  by (induction k) auto

lemma put_elems_build_array: "put_elems k (F_build_array # fs) = Some (F_build_array # fs)"
  by (induction k) auto

lemma put_elems_build_map: "put_elems (2 * k) (F_build_map b # fs) = Some (F_build_map b # fs)"
  by (induction k) auto

lemma put_elems_top: "put_elems k (F_top n # fs) = Some (F_top (n + k) # fs)"
  by (induction k arbitrary: n) auto

lemma writes_one: "writes (Suc 0) cs \<longleftrightarrow> (\<forall>fs fs'. put_elem fs = Some fs' \<longrightarrow> run_calls cs fs = Some fs')"
  by (auto simp: writes_def split: option.splits)

lemma writes_array:
  assumes "writes n cs"
  shows "writes (Suc 0) (Mp_start_array n # cs @ [Mp_finish_array])"
  using assms put_elems_array [of n 0]
  by (auto simp: writes_one writes_def run_calls_append split: option.splits)

lemma writes_map:
  assumes "writes (2 * n) cs"
  shows "writes (Suc 0) (Mp_start_map n # cs @ [Mp_finish_map])"
  using assms put_elems_map [of "2 * n" 0]
  by (auto simp: writes_one writes_def run_calls_append split: option.splits)

lemma writes_build_array:
  assumes "writes n cs"
  shows "writes (Suc 0) (Mp_build_array # cs @ [Mp_complete_array])"
  using assms put_elems_build_array [of n]
  by (auto simp: writes_one writes_def run_calls_append split: option.splits)

lemma writes_build_map:
  assumes "writes (2 * n) cs"
  shows "writes (Suc 0) (Mp_build_map # cs @ [Mp_complete_map])"
  using assms put_elems_build_map [of n False]
  by (auto simp: writes_one writes_def run_calls_append split: option.splits)

fun scalar_call :: "mpack_call \<Rightarrow> bool" where
  "scalar_call (Mp_start_array n) = False"
| "scalar_call (Mp_start_map n) = False"
| "scalar_call Mp_build_array = False"
| "scalar_call Mp_build_map = False"
| "scalar_call Mp_finish_array = False"
| "scalar_call Mp_finish_map = False"
| "scalar_call Mp_complete_array = False"
| "scalar_call Mp_complete_map = False"
| "scalar_call _ = True"

lemma writes_scalar: "scalar_call c \<Longrightarrow> writes (Suc 0) [c]"
  by (cases c) (simp_all add: writes_one)

subsection \<open>Rules for packers\<close>

named_theorems emits_rules \<open>how many elements a packer writes\<close>

lemma snd_run_emit: "snd (run_state (emit c) w) = w @ [c]"
  by (simp add: emit_def)

lemma emits_bindI:
  assumes "emits m x" "\<And>a. emits n (f a)" "k = m + n"
  shows "emits k (x \<bind> f)"
  unfolding emits_def
proof
  fix w
  obtain a w1 where run: "run_state x w = (a, w1)" by (metis prod.exhaust)
  obtain cs where cs: "w1 = w @ cs" "writes m cs" using assms(1) run unfolding emits_def by (metis snd_conv)
  obtain ds where "snd (run_state (f a) w1) = w1 @ ds" "writes n ds"
    using assms(2) unfolding emits_def by blast
  with cs run assms(3) show "\<exists>cs. snd (run_state (x \<bind> f) w) = w @ cs \<and> writes k cs"
    by (intro exI [of _ "cs @ ds"]) (simp add: writes_append)
qed

lemma emits_ret [emits_rules]: "emits 0 (ret a)"
  by (simp add: emits_def writes_Nil)

lemma emits_gets [emits_rules]: "emits 0 (gets f \<bind> (\<lambda>_. ret ()))"
  by (simp add: emits_def writes_Nil)

lemma emits_getsI: "(\<And>a. emits n (f a)) \<Longrightarrow> emits n (gets g \<bind> f)"
  by (simp add: emits_def)

lemma emits_scalar [emits_rules]: "scalar_call c \<Longrightarrow> emits (Suc 0) (emit c)"
  by (auto simp: emits_def snd_run_emit intro: writes_scalar)

lemma emits_containerI:
  fixes body :: mpack_w
  assumes "emits n body" "\<And>cs. writes n cs \<Longrightarrow> writes (Suc 0) (a # cs @ [z])"
  shows "emits (Suc 0) (do { emit a; body; emit z })"
  unfolding emits_def
proof
  fix w
  obtain cs where "snd (run_state body (w @ [a])) = (w @ [a]) @ cs" "writes n cs"
    using assms(1) unfolding emits_def by blast
  with assms(2) show "\<exists>cs. snd (run_state (do { emit a; body; emit z }) w) = w @ cs \<and> writes (Suc 0) cs"
    by (intro exI [of _ "a # cs @ [z]"]) (auto simp: emit_def split: prod.splits)
qed

lemma emits_array:
  "emits n body \<Longrightarrow> emits (Suc 0) (do { emit (Mp_start_array n); body; emit Mp_finish_array })"
  for body :: mpack_w
  by (rule emits_containerI) (auto intro: writes_array)

lemma emits_map:
  "emits (2 * n) body \<Longrightarrow> emits (Suc 0) (do { emit (Mp_start_map n); body; emit Mp_finish_map })"
  for body :: mpack_w
  by (rule emits_containerI) (auto intro: writes_map)

lemma emits_build_array:
  "emits n body \<Longrightarrow> emits (Suc 0) (do { emit Mp_build_array; body; emit Mp_complete_array })"
  for body :: mpack_w
  by (rule emits_containerI) (auto intro: writes_build_array)

lemma emits_build_map:
  "emits (2 * n) body \<Longrightarrow> emits (Suc 0) (do { emit Mp_build_map; body; emit Mp_complete_map })"
  for body :: mpack_w
  by (rule emits_containerI) (auto intro: writes_build_map)

lemma emits_helpers [emits_rules]:
  "emits (Suc 0) (dd_mpack_write_lstr s)" "emits (Suc 0) (dd_mpack_write_nullable_cstr c)"
  "emits (Suc 0) (dd_mpack_write_nullable_str c)" "emits (Suc 0) (dd_mpack_write_zstr s)"
  "emits (Suc 0) (dd_mpack_write_nullable_zstr c)" "emits (Suc 0) (write_key k)"
  by (auto simp: dd_mpack_write_lstr_def dd_mpack_write_nullable_cstr_def dd_mpack_write_nullable_str_def
      dd_mpack_write_zstr_def dd_mpack_write_nullable_zstr_def write_key_def
      split: option.splits zkey.splits intro!: emits_rules)

lemma emits_write_vals:
  "(\<And>kv. kv \<in> set ht \<Longrightarrow> emits (Suc 0) (snd kv)) \<Longrightarrow> emits (length ht) (write_vals ht)"
  by (induction ht) (auto intro!: emits_rules emits_bindI [where m = "Suc 0"])

lemma emits_write_key_vals:
  "(\<And>kv. kv \<in> set ht \<Longrightarrow> emits (Suc 0) (snd kv)) \<Longrightarrow> emits (2 * length ht) (write_key_vals ht)"
proof (induction ht)
  case (Cons kv ht)
  then have "emits (Suc (2 * length ht)) (do { snd kv; write_key_vals ht })"
    by (intro emits_bindI [where m = "Suc 0" and n = "2 * length ht"]) auto
  then show ?case
    by (auto intro: emits_bindI [where m = "Suc 0" and n = "Suc (2 * length ht)"] emits_rules)
qed (simp add: emits_rules)

lemma emits_zval [emits_rules]: "emits (Suc 0) (mpack_write_zval z)"
proof (induction z)
  case (ZArray packed without_holes ht)
  let ?ws = "map (map_prod id mpack_write_zval) ht"
  have elem: "emits (Suc 0) (snd kv)" if "kv \<in> set ?ws" for kv
    using that ZArray by (auto simp: map_prod_def split: prod.splits)
  from emits_write_vals [of ?ws, OF elem] emits_write_key_vals [of ?ws, OF elem] show ?case
    by (auto simp: Let_def intro!: emits_array emits_map)
qed (simp_all add: emits_scalar)

text \<open>A writer in which no error occurs.\<close>

abbreviation no_error :: writer_error where
  "no_error \<equiv> \<lambda>_. False"

lemma emits_dd_zval [emits_rules]: "emits (Suc 0) (dd_mpack_write_zval no_error zv)"
  by (auto simp: dd_mpack_write_zval_def intro!: emits_getsI emits_rules split: option.splits)

section \<open>What the collected buffers hold\<close>

text \<open>The bytes one flush hands over.\<close>

fun flushed :: "iov_writer \<Rightarrow> flush_data \<Rightarrow> nat \<Rightarrow> string" where
  "flushed w From_buffer cnt = take cnt (the (iw_buffer w))"
| "flushed w (Extra d) cnt = take cnt d"

text \<open>A flush that reports no error adds exactly the bytes it was given, at the end.\<close>

lemma flush_collects:
  assumes "\<not> iw_error (iovec_writer_flush ok data cnt w)"
  shows "concat (iw_list (iovec_writer_flush ok data cnt w)) = concat (iw_list w) @ flushed w data cnt"
  using assms by (cases data) (auto simp: iovec_writer_flush_def Let_def init_error_def split: if_splits)

text \<open>After the last flush the teardown frees no collected buffer.\<close>

lemma teardown_keeps:
  assumes "\<not> iw_error w"
  shows "iw_list (iovec_writer_teardown w) = iw_list w"
  using assms by (simp add: iovec_writer_teardown_def)

end
