(* ===== verification/Commands_Out.thy ===== *)
theory Commands_Out
  imports Msgpack
begin

text \<open>
  The messages sent to the helper: the packers of src/extension/commands/request_init.c,
  request_shutdown.c, request_exec.c, config_sync.c and client_init.c, request_body.c, and the
  framing of a command in commands_helpers.c.

  What a packer reads (superglobals, SAPI data, configuration) is a record given to it.
  \<open>php_raw_url_decode\<close> and \<open>php_url_parse\<close> are functions of PHP and parameters here.
\<close>

section \<open>request\_body.c\<close>

text \<open>
  A stream: its position, what reading it from its start up to a limit gives (the data, or nothing,
  and the position afterwards), and seeking.
\<close>

record php_stream =
  st_pos :: int
  st_copy_to_mem :: "nat \<Rightarrow> string option \<times> int"
  st_seek :: "int \<Rightarrow> int option"

definition dd_request_body_buffered :: "nat \<Rightarrow> php_stream option \<Rightarrow> string \<times> php_stream option" where
  "dd_request_body_buffered limit stream =
     (case stream of
        None \<Rightarrow> ([], None)
      | Some s \<Rightarrow>
          let prev_pos = st_pos s;
              (body_data, pos) = st_copy_to_mem s limit;
              pos' = (if prev_pos \<noteq> pos
                      then (case st_seek s prev_pos of None \<Rightarrow> pos | Some p \<Rightarrow> p) else pos)
          in (case body_data of None \<Rightarrow> [] | Some d \<Rightarrow> d, Some (s\<lparr>st_pos := pos'\<rparr>)))"

definition DD_MAX_REQ_BODY_TO_BUFFER :: nat where
  "DD_MAX_REQ_BODY_TO_BUFFER = 1 * 1024 * 1024"

section \<open>request\_init.c\<close>

record php_globals =
  pg_http_globals :: http_globals
  pg_known :: bool
  pg_materialized :: http_globals

record request_ctx =
  rq_globals :: php_globals
  rq_method :: "string option"
  rq_client_ip :: "string option"
  rq_body_stream :: "php_stream option"
  rq_testing :: bool
  rq_testing_raw_body :: bool
  rq_raw_url_decode :: "string \<Rightarrow> string"

definition autoglobal :: "php_globals \<Rightarrow> track_var \<Rightarrow> zval option" where
  "autoglobal g v = dd_php_get_autoglobal (pg_http_globals g) (pg_known g) (pg_materialized g) v"

text \<open>Runs the callbacks of the three superglobals even when they are created just in time.\<close>

definition init_autoglobals :: "php_globals \<Rightarrow> php_globals" where
  "init_autoglobals g =
     g\<lparr>pg_http_globals := (\<lambda>v.
         if v \<in> {TRACK_VARS_SERVER, TRACK_VARS_COOKIE, TRACK_VARS_POST}
         then pg_materialized g v else pg_http_globals g v)\<rparr>"

definition http_prefix :: string where
  "http_prefix = ''HTTP_''"

definition is_relevant_header :: "string \<Rightarrow> bool" where
  "is_relevant_header key =
     (length key > length http_prefix \<and> take (length http_prefix) key = http_prefix \<and>
      key \<noteq> ''HTTP_COOKIE'')"

text \<open>The NUL written after the name is the one past the end of the \<open>zend_string\<close>.\<close>

definition transform_header_name :: "string \<Rightarrow> string" where
  "transform_header_name orig = butlast (dd_string_normalize_header2 (drop (length http_prefix) orig))"

fun pack_headers_loop :: "writer_error \<Rightarrow> zend_array \<Rightarrow> mpack_w" where
  "pack_headers_loop err [] = ret ()"
| "pack_headers_loop err ((k, val) # ht) =
     (case k of
        KStr key \<Rightarrow>
          if is_relevant_header key then do {
            dd_mpack_write_zstr (transform_header_name key);
            dd_mpack_write_zval err (Some val);
            pack_headers_loop err ht
          }
          else pack_headers_loop err ht
      | KInt _ \<Rightarrow> pack_headers_loop err ht)"

definition pack_headers :: "writer_error \<Rightarrow> php_globals \<Rightarrow> mpack_w" where
  "pack_headers err g =
     (case autoglobal g TRACK_VARS_SERVER of
        None \<Rightarrow> do { emit (Mp_start_map 0); ret (); emit Mp_finish_map }
      | Some server \<Rightarrow> do {
          emit Mp_build_map;
          pack_headers_loop err (arrval server);
          emit Mp_complete_map
        })"

fun pack_filenames_loop :: "zend_array \<Rightarrow> mpack_w" where
  "pack_filenames_loop [] = ret ()"
| "pack_filenames_loop ((k, val) # ht) =
     (case val of
        ZArray p wo file \<Rightarrow>
          (case zend_hash_find file (KStr ''name'') of
             Some (ZString fn) \<Rightarrow> do { dd_mpack_write_zstr fn; pack_filenames_loop ht }
           | _ \<Rightarrow> pack_filenames_loop ht)
      | _ \<Rightarrow> pack_filenames_loop ht)"

definition pack_filenames :: "php_globals \<Rightarrow> mpack_w" where
  "pack_filenames g =
     (case autoglobal g TRACK_VARS_FILES of
        None \<Rightarrow> do { emit (Mp_start_array 0); ret (); emit Mp_finish_array }
      | Some files \<Rightarrow> do {
          emit Mp_build_array;
          pack_filenames_loop (arrval files);
          emit Mp_complete_array
        })"

fun pack_field_names_loop :: "zend_array \<Rightarrow> mpack_w" where
  "pack_field_names_loop [] = ret ()"
| "pack_field_names_loop ((k, val) # ht) = do { write_key k; pack_field_names_loop ht }"

definition pack_files_field_names :: "php_globals \<Rightarrow> mpack_w" where
  "pack_files_field_names g =
     (case autoglobal g TRACK_VARS_FILES of
        None \<Rightarrow> do { emit (Mp_start_array 0); ret (); emit Mp_finish_array }
      | Some files \<Rightarrow> do {
          emit Mp_build_array;
          pack_field_names_loop (arrval files);
          emit Mp_complete_array
        })"

text \<open>
  The loop of \<open>_pack_path_params\<close>: \<open>part\<close> is the text from \<open>beg\<close> to \<open>p\<close>, the last argument the text
  from \<open>p\<close> to the terminating NUL. A part is decoded in place before it is written.
\<close>

fun path_params_loop :: "(string \<Rightarrow> string) \<Rightarrow> string \<Rightarrow> string \<Rightarrow> mpack_w" where
  "path_params_loop dec part [] =
     (if part = [] then ret () else emit (Mp_str (dec part)))"
| "path_params_loop dec part (c # p) =
     (let terminates = (c = CHR ''?'') in
      if c \<noteq> CHR ''/'' \<and> \<not> terminates then path_params_loop dec (part @ [c]) p
      else if part = [] \<and> terminates then ret ()
      else do {
        emit (Mp_str (dec part));
        (if terminates then ret () else path_params_loop dec [] p)
      })"

definition pack_path_params :: "(string \<Rightarrow> string) \<Rightarrow> string option \<Rightarrow> mpack_w" where
  "pack_path_params dec uri_raw =
     (case uri_raw of
        None \<Rightarrow> do { emit (Mp_start_array 0); ret (); emit Mp_finish_array }
      | Some uri \<Rightarrow>
          let p = c_str uri in
          do {
            emit Mp_build_array;
            path_params_loop dec [] (if p \<noteq> [] \<and> hd p = CHR ''/'' then tl p else p);
            emit Mp_complete_array
          })"

definition REQUEST_INIT_MAP_NUM_ENTRIES :: nat where
  "REQUEST_INIT_MAP_NUM_ENTRIES = 10"

definition request_init_entries :: "writer_error \<Rightarrow> request_ctx \<Rightarrow> bool \<Rightarrow> mpack_w" where
  "request_init_entries err rq send_raw_body = do {
     dd_mpack_write_lstr ''server.request.query'';
     dd_mpack_write_zval err (autoglobal (rq_globals rq) TRACK_VARS_GET);
     dd_mpack_write_lstr ''server.request.method'';
     emit (Mp_cstr (rq_method rq));
     let g = init_autoglobals (rq_globals rq);
     dd_mpack_write_lstr ''server.request.cookies'';
     dd_mpack_write_zval err (autoglobal g TRACK_VARS_COOKIE);
     let request_uri =
       dd_php_get_string_elem_cstr (map_option arrval (autoglobal g TRACK_VARS_SERVER)) ''REQUEST_URI'';
     dd_mpack_write_lstr ''server.request.uri.raw'';
     dd_mpack_write_nullable_zstr request_uri;
     dd_mpack_write_lstr ''server.request.headers.no_cookies'';
     pack_headers err g;
     dd_mpack_write_lstr ''server.request.body'';
     dd_mpack_write_zval err (autoglobal g TRACK_VARS_POST);
     dd_mpack_write_lstr ''server.request.body.filenames'';
     pack_filenames g;
     dd_mpack_write_lstr ''server.request.body.files_field_names'';
     pack_files_field_names g;
     dd_mpack_write_lstr ''server.request.path_params'';
     pack_path_params (rq_raw_url_decode rq) request_uri;
     dd_mpack_write_lstr ''http.client_ip'';
     dd_mpack_write_nullable_zstr (rq_client_ip rq);
     (if send_raw_body then do {
        dd_mpack_write_lstr ''server.request.body.raw'';
        dd_mpack_write_zstr (fst (dd_request_body_buffered DD_MAX_REQ_BODY_TO_BUFFER (rq_body_stream rq)))
      }
      else ret ())
   }"

definition request_init_pack :: "writer_error \<Rightarrow> request_ctx \<Rightarrow> (mpack_writer, dd_result) state" where
  "request_init_pack err rq =
     (let send_raw_body = rq_testing rq \<and> rq_testing_raw_body rq in
      do {
        do {
          emit (Mp_start_map (if send_raw_body then REQUEST_INIT_MAP_NUM_ENTRIES + 1
                              else REQUEST_INIT_MAP_NUM_ENTRIES));
          request_init_entries err rq send_raw_body;
          emit Mp_finish_map
        };
        ret dd_success
      })"

section \<open>request\_shutdown.c\<close>

record response_ctx =
  rs_response_code :: int
  rs_headers :: "string list"

text \<open>
  The table of collections of header values: each header line is split at its first colon and
  its value, less leading spaces, is added to the collection of the normalised name.
\<close>

definition collect_header ::
  "(string \<times> string list) list \<Rightarrow> string \<Rightarrow> string \<Rightarrow> (string \<times> string list) list" where
  "collect_header headers_map name val =
     (let headers_map' = (case zend_hash_find headers_map name of
            None \<Rightarrow> snd (zend_hash_add headers_map name [])
          | Some _ \<Rightarrow> headers_map);
          coll = the (zend_hash_find headers_map' name)
      in zend_hash_update headers_map' name (coll @ [val]))"

fun collect_headers :: "string list \<Rightarrow> (string \<times> string list) list \<Rightarrow> (string \<times> string list) list" where
  "collect_headers [] headers_map = headers_map"
| "collect_headers (header # hl) headers_map =
     (case memchr (CHR '':'') header of
        None \<Rightarrow> collect_headers hl headers_map
      | Some pcol \<Rightarrow>
          let name = butlast (dd_string_normalize_header2 (take pcol header));
              val = skip_spaces (drop (pcol + 1) header)
          in collect_headers hl (collect_header headers_map name val))"

fun write_strs :: "string list \<Rightarrow> mpack_w" where
  "write_strs [] = ret ()"
| "write_strs (s # ss) = do { emit (Mp_str s); write_strs ss }"

fun write_headers_map :: "(string \<times> string list) list \<Rightarrow> mpack_w" where
  "write_headers_map [] = ret ()"
| "write_headers_map ((key, coll) # hm) = do {
     emit (Mp_str key);
     do { emit (Mp_start_array (length coll)); write_strs coll; emit Mp_finish_array };
     write_headers_map hm
   }"

definition pack_headers_no_cookies :: "string list \<Rightarrow> mpack_w" where
  "pack_headers_no_cookies hl =
     (let headers_map = collect_headers hl [] in
      do {
        emit (Mp_start_map (length headers_map));
        write_headers_map headers_map;
        emit Mp_finish_map
      })"

definition REQUEST_SHUTDOWN_MAP_NUM_ENTRIES :: nat where
  "REQUEST_SHUTDOWN_MAP_NUM_ENTRIES = 2"

definition request_shutdown_pack :: "response_ctx \<Rightarrow> (mpack_writer, dd_result) state" where
  "request_shutdown_pack rs = do {
     do {
       emit (Mp_start_map REQUEST_SHUTDOWN_MAP_NUM_ENTRIES);
       do {
         dd_mpack_write_lstr ''server.response.status'';
         emit (Mp_str (int_dec (rs_response_code rs)));
         dd_mpack_write_lstr ''server.response.headers.no_cookies'';
         pack_headers_no_cookies (rs_headers rs)
       };
       emit Mp_finish_map
     };
     ret dd_success
   }"

section \<open>request\_exec.c and config\_sync.c\<close>

definition request_exec_pack :: "writer_error \<Rightarrow> zval \<Rightarrow> (mpack_writer, dd_result) state" where
  "request_exec_pack err data = do {
     dd_mpack_write_zval err (Some data);
     ret dd_success
   }"

definition config_sync_pack :: "(mpack_writer, dd_result) state" where
  "config_sync_pack = ret dd_success"

section \<open>client\_init.c\<close>

record client_ctx =
  cl_pid :: nat
  cl_ext_version :: string
  cl_php_version :: string
  cl_enabled_by_configuration :: enabled_configuration
  cl_service :: string
  cl_extra_services :: zval
  cl_env :: string
  cl_tracer_version :: "string option"
  cl_version :: string
  cl_runtime_id :: "string option"
  cl_rules :: string
  cl_waf_timeout :: nat
  cl_trace_rate_limit :: nat
  cl_obfuscator_key_regexp :: string
  cl_obfuscator_value_regexp :: string
  cl_api_security_enabled :: bool
  cl_sample_rate :: u64
  cl_remote_config_enabled :: bool
  cl_agent_host :: "string option"
  cl_agent_url :: "string option"
  cl_agent_port :: nat
  cl_poll_interval :: nat
  cl_url_parse :: "string \<Rightarrow> (string option \<times> nat) option"

definition DEFAULT_AGENT_PORT :: nat where "DEFAULT_AGENT_PORT = 8126"
definition DEFAULT_AGENT_HOST :: string where "DEFAULT_AGENT_HOST = ''127.0.0.1''"
definition MAX_TCP_PORT_ALLOWED :: nat where "MAX_TCP_PORT_ALLOWED = 65535"

definition nonempty :: "string option \<Rightarrow> bool" where
  "nonempty s = (case s of None \<Rightarrow> False | Some t \<Rightarrow> length t > 0)"

text \<open>Host and port of the agent before the defaults: the configured host, or those of the URL.\<close>

definition agent_host_port :: "client_ctx \<Rightarrow> string option \<times> nat" where
  "agent_host_port cl =
     (if nonempty (cl_agent_host cl) then (cl_agent_host cl, cl_agent_port cl)
      else if nonempty (cl_agent_url cl) then
        (case cl_url_parse cl (c_str (the (cl_agent_url cl))) of
           None \<Rightarrow> (None, cl_agent_port cl)
         | Some (h, port) \<Rightarrow> (if nonempty h then h else None, port))
      else (None, cl_agent_port cl))"

definition agent_details :: "client_ctx \<Rightarrow> string \<times> nat" where
  "agent_details cl =
     (case agent_host_port cl of (host, port) \<Rightarrow>
        (case host of None \<Rightarrow> DEFAULT_AGENT_HOST | Some h \<Rightarrow> h,
         if port \<le> 0 \<or> port > MAX_TCP_PORT_ALLOWED then DEFAULT_AGENT_PORT else port))"

definition pack_agent_details :: "client_ctx \<Rightarrow> mpack_w" where
  "pack_agent_details cl = do {
     let (host, port) = agent_details cl;
     dd_mpack_write_lstr ''host'';
     dd_mpack_write_nullable_cstr (Some host);
     dd_mpack_write_lstr ''port'';
     emit (Mp_uint port)
   }"

definition service_details :: "writer_error \<Rightarrow> client_ctx \<Rightarrow> mpack_w" where
  "service_details err cl = do {
     emit (Mp_start_map 6);
     do {
       dd_mpack_write_lstr ''service'';
       dd_mpack_write_nullable_cstr (Some (cl_service cl));
       dd_mpack_write_lstr ''extra_services'';
       dd_mpack_write_zval err (Some (cl_extra_services cl));
       dd_mpack_write_lstr ''env'';
       dd_mpack_write_nullable_cstr (Some (cl_env cl));
       dd_mpack_write_lstr ''tracer_version'';
       dd_mpack_write_nullable_cstr (cl_tracer_version cl);
       dd_mpack_write_lstr ''app_version'';
       dd_mpack_write_nullable_cstr (Some (cl_version cl));
       dd_mpack_write_lstr ''runtime_id'';
       (case cl_runtime_id cl of
          None \<Rightarrow> dd_mpack_write_nullable_cstr (Some [])
        | Some runtime_id \<Rightarrow> dd_mpack_write_nullable_zstr (Some runtime_id))
     };
     emit Mp_finish_map
   }"

definition schema_extraction :: "client_ctx \<Rightarrow> mpack_w" where
  "schema_extraction cl = do {
     emit (Mp_start_map 2);
     do {
       dd_mpack_write_lstr ''enabled'';
       emit (Mp_bool (cl_api_security_enabled cl));
       dd_mpack_write_lstr ''sample_rate'';
       emit (Mp_double (cl_sample_rate cl))
     };
     emit Mp_finish_map
   }"

definition engine_settings :: "client_ctx \<Rightarrow> mpack_w" where
  "engine_settings cl = do {
     emit (Mp_start_map 6);
     do {
       dd_mpack_write_lstr ''rules_file'';
       dd_mpack_write_nullable_cstr (Some (cl_rules cl));
       dd_mpack_write_lstr ''waf_timeout_us'';
       emit (Mp_uint (cl_waf_timeout cl));
       dd_mpack_write_lstr ''trace_rate_limit'';
       emit (Mp_uint (cl_trace_rate_limit cl));
       dd_mpack_write_lstr ''obfuscator_key_regex'';
       dd_mpack_write_nullable_cstr (Some (cl_obfuscator_key_regexp cl));
       dd_mpack_write_lstr ''obfuscator_value_regex'';
       dd_mpack_write_nullable_cstr (Some (cl_obfuscator_value_regexp cl));
       dd_mpack_write_lstr ''schema_extraction'';
       schema_extraction cl
     };
     emit Mp_finish_map
   }"

definition remote_config_settings :: "client_ctx \<Rightarrow> mpack_w" where
  "remote_config_settings cl = do {
     emit (Mp_start_map 4);
     do {
       dd_mpack_write_lstr ''enabled'';
       emit (Mp_bool (cl_remote_config_enabled cl));
       pack_agent_details cl;
       dd_mpack_write_lstr ''poll_interval'';
       emit (Mp_uint (cl_poll_interval cl))
     };
     emit Mp_finish_map
   }"

definition client_init_pack :: "writer_error \<Rightarrow> client_ctx \<Rightarrow> (mpack_writer, dd_result) state" where
  "client_init_pack err cl = do {
     emit (Mp_uint (cl_pid cl));
     dd_mpack_write_lstr (cl_ext_version cl);
     dd_mpack_write_lstr (cl_php_version cl);
     (if cl_enabled_by_configuration cl = NOT_CONFIGURED then emit Mp_nil
      else emit (Mp_bool (cl_enabled_by_configuration cl = ENABLED)));
     service_details err cl;
     engine_settings cl;
     remote_config_settings cl;
     ret dd_success
   }"

section \<open>The commands\<close>

text \<open>The outgoing half of a \<open>dd_command_spec\<close>.\<close>

record out_spec =
  cmd_name :: string
  cmd_num_args :: nat
  outgoing_cb :: "(mpack_writer, dd_result) state"

definition request_init_out :: "writer_error \<Rightarrow> request_ctx \<Rightarrow> out_spec" where
  "request_init_out err rq =
     \<lparr>cmd_name = ''request_init'', cmd_num_args = 1, outgoing_cb = request_init_pack err rq\<rparr>"

definition request_shutdown_out :: "response_ctx \<Rightarrow> out_spec" where
  "request_shutdown_out rs =
     \<lparr>cmd_name = ''request_shutdown'', cmd_num_args = 1, outgoing_cb = request_shutdown_pack rs\<rparr>"

definition request_exec_out :: "writer_error \<Rightarrow> zval \<Rightarrow> out_spec" where
  "request_exec_out err data =
     \<lparr>cmd_name = ''request_exec'', cmd_num_args = 1, outgoing_cb = request_exec_pack err data\<rparr>"

definition config_sync_out :: out_spec where
  "config_sync_out = \<lparr>cmd_name = ''config_sync'', cmd_num_args = 0, outgoing_cb = config_sync_pack\<rparr>"

definition client_init_out :: "writer_error \<Rightarrow> client_ctx \<Rightarrow> out_spec" where
  "client_init_out err cl =
     \<lparr>cmd_name = ''client_init'', cmd_num_args = 7, outgoing_cb = client_init_pack err cl\<rparr>"

text \<open>\<open>_omsg_init\<close>, the callback and \<open>_omsg_finish\<close>: the message is [ cmd, [arguments...] ].\<close>

definition omsg_init :: "string \<Rightarrow> nat \<Rightarrow> mpack_w" where
  "omsg_init cmd num_args = do {
     emit (Mp_start_array 2);
     emit (Mp_str cmd);
     emit (Mp_start_array num_args)
   }"

definition omsg_finish :: mpack_w where
  "omsg_finish = do { emit Mp_finish_array; emit Mp_finish_array }"

text \<open>\<open>Inl\<close> is the result of a callback that failed; otherwise the calls of the whole message.\<close>

definition command_message :: "out_spec \<Rightarrow> dd_result + mpack_writer" where
  "command_message spec =
     (let (res, w) = run_state (do { omsg_init (cmd_name spec) (cmd_num_args spec); outgoing_cb spec }) [] in
      if res \<noteq> dd_success then Inl res
      else Inr (snd (run_state omsg_finish w)))"

section \<open>Every message is well formed\<close>

lemma emits_headers_loop: "\<exists>n. emits (2 * n) (pack_headers_loop no_error ht)"
proof (induction ht)
  case Nil
  show ?case using emits_ret [of "()"] by (intro exI [of _ 0]) simp
next
  case (Cons b ht)
  then obtain n k val where n: "emits (2 * n) (pack_headers_loop no_error ht)" "b = (k, val)"
    by (cases b) auto
  have "emits (2 * Suc n) (do { dd_mpack_write_zstr s; dd_mpack_write_zval no_error (Some val);
      pack_headers_loop no_error ht })" for s
    by (rule emits_bindI [OF emits_helpers(4) emits_bindI [OF emits_dd_zval n(1) refl]]) simp
  with n show ?case
    by (cases k; cases "is_relevant_header (case k of KStr s \<Rightarrow> s)")
       (force intro: exI [of _ "Suc n"] simp del: mult_Suc_right)+
qed

lemma emits_pack_headers [emits_rules]: "emits (Suc 0) (pack_headers no_error g)"
proof -
  obtain n where "emits (2 * n) (pack_headers_loop no_error (arrval (the (autoglobal g TRACK_VARS_SERVER))))"
    using emits_headers_loop by blast
  moreover have "emits (2 * 0) (ret ())" by (simp add: emits_ret)
  ultimately show ?thesis
    using emits_build_map emits_map by (auto simp: pack_headers_def split: option.splits)
qed

lemma emits_filenames_loop: "\<exists>n. emits n (pack_filenames_loop ht)"
proof (induction ht)
  case Nil
  show ?case using emits_ret [of "()"] by auto
next
  case (Cons b ht)
  then obtain n k val where n: "emits n (pack_filenames_loop ht)" "b = (k, val)" by (cases b) auto
  have "emits (Suc n) (do { dd_mpack_write_zstr s; pack_filenames_loop ht })" for s
    by (rule emits_bindI [OF emits_helpers(4) n(1)]) simp
  with n show ?case by (auto split: zval.splits option.splits)
qed

lemma emits_empty_array: "emits (Suc 0) (do { emit (Mp_start_array 0); ret (); emit Mp_finish_array })"
  by (rule emits_array [OF emits_ret])

lemma emits_pack_filenames [emits_rules]: "emits (Suc 0) (pack_filenames g)"
proof -
  obtain n where "emits n (pack_filenames_loop (arrval (the (autoglobal g TRACK_VARS_FILES))))"
    using emits_filenames_loop by blast
  from emits_build_array [OF this] emits_empty_array show ?thesis
    by (auto simp: pack_filenames_def split: option.splits)
qed

lemma emits_field_names_loop: "emits (length ht) (pack_field_names_loop ht)"
proof (induction ht rule: pack_field_names_loop.induct)
  case (2 k val ht)
  from emits_bindI [OF emits_helpers(6) this refl, of k] show ?case by simp
qed (simp add: emits_rules)

lemma emits_pack_files_field_names [emits_rules]: "emits (Suc 0) (pack_files_field_names g)"
  using emits_build_array [OF emits_field_names_loop] emits_empty_array
  by (auto simp: pack_files_field_names_def split: option.splits)

lemma emits_write_strs: "emits (length ss) (write_strs ss)"
proof (induction ss)
  case (Cons s ss)
  from emits_bindI [OF emits_scalar [of "Mp_str s"] this refl] show ?case by simp
qed (simp add: emits_rules)

lemma emits_headers_map: "emits (2 * length hm) (write_headers_map hm)"
proof (induction hm rule: write_headers_map.induct)
  case (2 key coll hm)
  have "emits (Suc 0) (do { emit (Mp_start_array (length coll)); write_strs coll; emit Mp_finish_array })"
    by (intro emits_array emits_write_strs)
  from emits_bindI [OF emits_scalar [of "Mp_str key"] emits_bindI [OF this 2 refl] refl]
  show ?case by simp
qed (simp add: emits_rules)

lemma emits_pack_headers_no_cookies [emits_rules]: "emits (Suc 0) (pack_headers_no_cookies hl)"
  unfolding pack_headers_no_cookies_def Let_def by (intro emits_map emits_headers_map)

section \<open>Path parameters\<close>

definition path_parts :: "string \<Rightarrow> string list" where
  "path_parts uri =
     (let path = takeWhile (\<lambda>c. c \<noteq> CHR ''?'') (c_str uri);
          parts = split_on (CHR ''/'') (if path \<noteq> [] \<and> hd path = CHR ''/'' then tl path else path)
      in if last parts = [] then butlast parts else parts)"

definition strs :: "(string \<Rightarrow> string) \<Rightarrow> string list \<Rightarrow> mpack_call list" where
  "strs dec ps = map (\<lambda>p. Mp_str (dec p)) (if last ps = [] then butlast ps else ps)"

lemma path_params_loop_split:
  "snd (run_state (path_params_loop dec part p) w) =
     w @ strs dec (let ps = split_on (CHR ''/'') (takeWhile (\<lambda>c. c \<noteq> CHR ''?'') p)
                   in (part @ hd ps) # tl ps)"
proof (induction dec part p arbitrary: w rule: path_params_loop.induct)
  case (1 dec part)
  then show ?case by (simp add: strs_def emit_def)
next
  case step: (2 dec part c p)
  let ?rest = "split_on (CHR ''/'') (takeWhile (\<lambda>c. c \<noteq> CHR ''?'') p)"
  consider "c = CHR ''?''" | "c = CHR ''/''" | "c \<noteq> CHR ''/''" "c \<noteq> CHR ''?''" by blast
  then show ?case
  proof cases
    case 1
    then show ?thesis by (simp add: strs_def emit_def)
  next
    case 2
    have "strs dec (part # ?rest) = Mp_str (dec part) # strs dec (hd ?rest # tl ?rest)"
      by (simp add: strs_def)
    moreover note step(2) [OF refl, of "w @ [Mp_str (dec part)]"]
    ultimately show ?thesis using 2 by (simp add: emit_def Let_def)
  next
    case 3
    with step show ?thesis by (simp add: Let_def)
  qed
qed

lemma writes_strs: "writes (length ps) (map (\<lambda>p. Mp_str (dec p)) ps)"
proof (induction ps)
  case (Cons p ps)
  from writes_append [OF writes_scalar Cons, of "Mp_str (dec p)"] show ?case by simp
qed (simp add: writes_Nil)

lemma emits_pack_path_params [emits_rules]: "emits (Suc 0) (pack_path_params dec uri)"
proof -
  have "\<exists>n. emits n (path_params_loop dec part p)" for part p
    unfolding emits_def path_params_loop_split strs_def using writes_strs by blast
  then have "emits (Suc 0) (do { emit Mp_build_array; path_params_loop dec part p; emit Mp_complete_array })"
    for part p using emits_build_array by blast
  with emits_empty_array show ?thesis by (simp add: pack_path_params_def Let_def split: option.splits)
qed

section \<open>Whole messages\<close>

lemma emits_stepI:
  assumes "emits (Suc 0) x" "emits n y" "k = Suc n"
  shows "emits k (do { x; y })"
  using emits_bindI [OF assms(1,2) refl] assms(3) by simp

lemma emits_ignoreI: "emits n x \<Longrightarrow> emits 0 y \<Longrightarrow> emits n (do { x; y })"
  by (erule emits_bindI) auto

lemmas emits_seq = emits_stepI emits_rules refl

lemma emits_request_entries:
  "emits 22 (request_init_entries no_error rq True)" "emits 20 (request_init_entries no_error rq False)"
  unfolding request_init_entries_def Let_def if_True if_False
  by (rule emits_seq | simp)+

lemma emits_request_init: "emits (Suc 0) (request_init_pack no_error rq)"
proof -
  have "emits (2 * 11) (request_init_entries no_error rq True)"
    "emits (2 * 10) (request_init_entries no_error rq False)"
    using emits_request_entries [of rq] by simp_all
  from this [THEN emits_map, THEN emits_ignoreI, OF emits_ret [of dd_success]] show ?thesis
    unfolding request_init_pack_def Let_def REQUEST_INIT_MAP_NUM_ENTRIES_def
    by (cases "rq_testing rq \<and> rq_testing_raw_body rq") (simp_all only: if_True if_False, simp_all)
qed

lemma emits_request_shutdown: "emits (Suc 0) (request_shutdown_pack rs)"
proof -
  have "emits (2 * 2) (do {
         dd_mpack_write_lstr ''server.response.status'';
         emit (Mp_str (int_dec (rs_response_code rs)));
         dd_mpack_write_lstr ''server.response.headers.no_cookies'';
         pack_headers_no_cookies (rs_headers rs)
       })"
    by (rule emits_seq | simp)+
  from emits_ignoreI [OF emits_map [OF this] emits_ret] show ?thesis
    by (simp add: request_shutdown_pack_def REQUEST_SHUTDOWN_MAP_NUM_ENTRIES_def)
qed

lemma emits_request_exec: "emits (Suc 0) (request_exec_pack no_error data)"
  unfolding request_exec_pack_def by (intro emits_ignoreI emits_dd_zval emits_ret)

lemma emits_config_sync: "emits 0 config_sync_pack"
  unfolding config_sync_pack_def by (rule emits_ret)

lemma emits_runtime_id:
  "emits (Suc 0) (case rid of None \<Rightarrow> dd_mpack_write_nullable_cstr (Some [])
     | Some i \<Rightarrow> dd_mpack_write_nullable_zstr (Some i))"
  by (cases rid) (simp_all add: emits_rules)

lemma emits_service_details [emits_rules]: "emits (Suc 0) (service_details no_error cl)"
  unfolding service_details_def
  by (rule emits_map) (rule emits_stepI emits_rules refl emits_runtime_id | simp)+

lemma emits_schema_extraction [emits_rules]: "emits (Suc 0) (schema_extraction cl)"
  unfolding schema_extraction_def by (rule emits_map) (rule emits_stepI emits_rules refl | simp)+

lemma emits_engine_settings [emits_rules]: "emits (Suc 0) (engine_settings cl)"
  unfolding engine_settings_def
  by (rule emits_map) (rule emits_stepI emits_rules refl emits_schema_extraction | simp)+

lemma emits_pack_agent_details: "emits 4 (pack_agent_details cl)"
  unfolding pack_agent_details_def Let_def case_prod_beta
  by (rule emits_stepI emits_rules refl | simp)+

lemma emits_remote_config_settings [emits_rules]: "emits (Suc 0) (remote_config_settings cl)"
proof -
  have "emits 6 (do { pack_agent_details cl; dd_mpack_write_lstr ''poll_interval'';
      emit (Mp_uint (cl_poll_interval cl)) })"
    by (rule emits_bindI [OF emits_pack_agent_details]) (rule emits_stepI emits_rules refl | simp)+
  from emits_stepI [OF emits_helpers(1) emits_stepI [OF emits_scalar this refl] refl]
  show ?thesis
    unfolding remote_config_settings_def by (intro emits_map) simp
qed

lemma emits_enabled: "emits (Suc 0) (if b then emit Mp_nil else emit (Mp_bool c))"
  by (simp add: emits_rules)

lemma emits_client_init: "emits 7 (client_init_pack no_error cl)"
  unfolding client_init_pack_def
  by (rule emits_enabled emits_stepI emits_rules emits_service_details emits_engine_settings
      emits_remote_config_settings refl | simp)+

text \<open>A message whose callback succeeds and writes as many arguments as the command announces.\<close>

lemma command_message_wf:
  assumes "emits (cmd_num_args spec) (outgoing_cb spec)"
    and "\<And>w. fst (run_state (outgoing_cb spec) w) = dd_success"
  shows "\<exists>cs. command_message spec = Inr cs \<and> run_calls cs [F_top 0] = Some [F_top 1]"
proof -
  let ?n = "cmd_num_args spec"
  let ?w = "[Mp_start_array 2, Mp_str (cmd_name spec), Mp_start_array ?n]"
  obtain cs where cs: "snd (run_state (outgoing_cb spec) ?w) = ?w @ cs" "writes ?n cs"
    using assms(1) unfolding emits_def by blast
  have msg: "command_message spec = Inr (?w @ cs @ [Mp_finish_array, Mp_finish_array])"
    using cs(1) assms(2) [of ?w]
    by (simp add: command_message_def omsg_init_def omsg_finish_def emit_def case_prod_beta)
  have "writes (Suc 0) (Mp_start_array ?n # cs @ [Mp_finish_array])"
    using writes_array [OF cs(2)] .
  from writes_append [OF writes_scalar [of "Mp_str (cmd_name spec)"] this]
  have "writes (Suc 0) (Mp_start_array 2 #
      ([Mp_str (cmd_name spec)] @ Mp_start_array ?n # cs @ [Mp_finish_array]) @ [Mp_finish_array])"
    by (intro writes_array) (simp add: numeral_2_eq_2)
  then have "run_calls (?w @ cs @ [Mp_finish_array, Mp_finish_array]) [F_top 0] = Some [F_top 1]"
    by (simp add: writes_def del: run_calls.simps)
  with msg show ?thesis by blast
qed

section \<open>Response headers\<close>

text \<open>The values of the headers whose normalised name is the given one, in order.\<close>

definition header_values :: "string \<Rightarrow> string list \<Rightarrow> string list" where
  "header_values name hl =
     concat (map (\<lambda>h. case memchr (CHR '':'') h of
         None \<Rightarrow> []
       | Some p \<Rightarrow> if butlast (dd_string_normalize_header2 (take p h)) = name
           then [skip_spaces (drop (p + 1) h)] else []) hl)"

lemma collect_header_find:
  "case_option [] id (zend_hash_find (collect_header hm name val) name') =
     case_option [] id (zend_hash_find hm name') @ (if name = name' then [val] else [])"
  by (auto simp: collect_header_def Let_def zh.update_find zh.add_new zh.add_other split: option.splits)

lemma collect_header_invar: "ht_invar hm \<Longrightarrow> ht_invar (collect_header hm name val)"
  by (auto simp: collect_header_def Let_def intro!: zh.update_invar zh.add_invar split: option.splits)

lemma collect_headers_values:
  "case_option [] id (zend_hash_find (collect_headers hl m) name) =
     case_option [] id (zend_hash_find m name) @ header_values name hl"
proof (induction hl arbitrary: m)
  case (Cons h hl)
  show ?case
    by (cases "memchr (CHR '':'') h")
       (simp_all del: memchr_None add: Cons [unfolded header_values_def] header_values_def Let_def
          collect_header_find)
qed (simp add: header_values_def)

lemma collect_headers_invar: "ht_invar hm \<Longrightarrow> ht_invar (collect_headers hl hm)"
  by (induction hl hm rule: collect_headers.induct)
     (auto simp: Let_def collect_header_invar split: option.splits)

section \<open>Properties\<close>

definition message_wf :: "out_spec \<Rightarrow> bool" where
  "message_wf spec \<longleftrightarrow>
     (\<exists>cs. command_message spec = Inr cs \<and> run_calls cs [F_top 0] = Some [F_top 1])"

lemma pack_results:
  "fst (run_state (request_init_pack err rq) w) = dd_success"
  "fst (run_state (request_shutdown_pack rs) w) = dd_success"
  "fst (run_state (request_exec_pack err data) w) = dd_success"
  "fst (run_state config_sync_pack w) = dd_success"
  "fst (run_state (client_init_pack err cl) w) = dd_success"
  by (simp_all add: request_init_pack_def request_shutdown_pack_def request_exec_pack_def
      config_sync_pack_def client_init_pack_def Let_def case_prod_beta)

text \<open>
  Property C24: whatever the request, the response, the configuration and the PHP values in them, the
  five commands produce one complete message: every array and map gets exactly the number of
  elements announced when it was opened, the arguments are as many as the command declares, and
  nothing is left open.
\<close>

theorem commands_well_formed:
  "message_wf (request_init_out no_error rq) \<and> message_wf (request_shutdown_out rs) \<and>
   message_wf (request_exec_out no_error data) \<and> message_wf config_sync_out \<and>
   message_wf (client_init_out no_error cl)"
  unfolding message_wf_def
  by (intro conjI command_message_wf)
     (simp_all add: request_init_out_def request_shutdown_out_def request_exec_out_def
       config_sync_out_def client_init_out_def emits_request_init emits_request_shutdown
       emits_request_exec emits_config_sync emits_client_init pack_results)

text \<open>
  The path parameters are the parts of the path between slashes, each decoded on its own:
  the in-place scan of the URI writes what splitting it at its slashes, up to the query string and
  less the leading slash and an empty last part, gives.
\<close>

theorem path_params_are_the_parts:
  "snd (run_state (pack_path_params dec (Some uri)) w) =
     w @ Mp_build_array # map (\<lambda>p. Mp_str (dec p)) (path_parts uri) @ [Mp_complete_array]"
proof -
  let ?p = "if c_str uri \<noteq> [] \<and> hd (c_str uri) = CHR ''/'' then tl (c_str uri) else c_str uri"
  have path: "(let path = takeWhile (\<lambda>c. c \<noteq> CHR ''?'') (c_str uri)
      in if path \<noteq> [] \<and> hd path = CHR ''/'' then tl path else path) = takeWhile (\<lambda>c. c \<noteq> CHR ''?'') ?p"
    by (cases "c_str uri") auto
  have "strs dec (split_on (CHR ''/'') (takeWhile (\<lambda>c. c \<noteq> CHR ''?'') ?p)) =
      map (\<lambda>p. Mp_str (dec p)) (path_parts uri)"
    unfolding path [symmetric] by (simp add: strs_def path_parts_def Let_def)
  then show ?thesis
    using path_params_loop_split [of dec "[]" ?p "w @ [Mp_build_array]"]
    by (simp add: pack_path_params_def emit_def Let_def case_prod_beta)
qed

text \<open>
  The response headers are sent as one entry per normalised name, each with the values
  of all the headers of that name in the order they were set, leading spaces removed; a header line
  with no colon is left out.
\<close>

theorem response_headers_grouped:
  "ht_invar (collect_headers hl []) \<and>
   case_option [] id (zend_hash_find (collect_headers hl []) name) = header_values name hl"
  using collect_headers_values [of hl "[]" name] collect_headers_invar [of "[]" hl]
  by (simp add: ht_invar_def ht_keys_def)

text \<open>
  The agent the helper is told to poll always has a port between 1 and 65535 and, when
  it is taken from the configuration, a host that is not empty.
\<close>

lemma agent_port_valid:
  "1 \<le> snd (agent_details cl) \<and> snd (agent_details cl) \<le> 65535 \<and> fst (agent_details cl) \<noteq> []"
  by (auto simp: agent_details_def agent_host_port_def nonempty_def DEFAULT_AGENT_PORT_def
      DEFAULT_AGENT_HOST_def MAX_TCP_PORT_ALLOWED_def split: prod.splits option.splits if_splits)

text \<open>
  Buffering the request body leaves the stream where it was, when the stream can seek
  back to the position it had.
\<close>

lemma body_position_restored:
  assumes "st_seek s (st_pos s) = Some (st_pos s)"
  shows "snd (dd_request_body_buffered limit (Some s)) = Some s"
  using assms by (auto simp: dd_request_body_buffered_def Let_def split: prod.splits option.splits)

end
