(* ===== verification/Ddtrace.thy ===== *)
theory Ddtrace
  imports Php_Helpers Helper_Process
begin

text \<open>
  src/extension/ddtrace.c: what the extension uses of the tracer.

  The tracer is another extension, found by name among the loaded modules and called through symbols
  looked up at startup. Its part of the state is the root span: its two tables \<open>meta\<close> and \<open>metrics\<close>
  (none when there is no root span), the sampling priority last set on it, and how often it was told
  to flush. The state extends that of the helper manager, so that one state carries the whole
  extension. A symbol that was not found is \<open>False\<close>, and every use of it is a branch of the code.
\<close>

datatype dd_sampling_mechanism =
    DD_MECHANISM_DEFAULT | DD_MECHANISM_AGENT_RATE | DD_MECHANISM_REMOTE_RATE
  | DD_MECHANISM_RULE | DD_MECHANISM_MANUAL

definition PRIORITY_SAMPLING_USER_KEEP :: int where "PRIORITY_SAMPLING_USER_KEEP = 2"

text \<open>The values a \<open>request_shutdown_func\<close> of the tracer's module can have here.\<close>

datatype rshutdown_fn = Tracer_rshutdown | Ddtrace_rshutdown_testing | Null_fn

record module_entry =
  mod_type :: int
  mod_number :: int
  mod_version :: string
  mod_rshutdown :: rshutdown_fn

record trace_state = helper_world +
  ts_module :: "module_entry option"
  ts_loaded :: bool
  ts_version :: "string option"
  ts_mod_type :: int
  ts_mod_number :: int
  ts_orig_rshutdown :: rshutdown_fn
  ts_suppress_rshutdown :: bool
  ts_span_meta :: bool
  ts_span_metrics :: bool
  ts_sym_flush :: bool
  ts_sym_meta :: bool
  ts_sym_metrics :: bool
  ts_sym_priority :: bool
  ts_runtime_id :: "byte list option"
  ts_testing :: bool
  ts_trace_enabled :: bool
  root_meta :: "zend_array option"
  root_metrics :: "zend_array option"
  root_priority :: "(int \<times> dd_sampling_mechanism) option"
  flush_count :: nat

section \<open>Startup and shutdown\<close>

text \<open>
  \<open>dlopen\<close> and \<open>dlsym\<close> are parameters: whether the process handle could be opened, which symbols
  it has, and the bytes \<open>ddtrace_runtime_id\<close> points to.
\<close>

record symbols =
  dl_handle :: bool
  dl_sym :: "string \<Rightarrow> bool"
  dl_runtime_id :: "byte list"

definition dd_trace_load_symbols :: "symbols \<Rightarrow> 'a trace_state_scheme \<Rightarrow> 'a trace_state_scheme" where
  "dd_trace_load_symbols dl s =
     (if \<not> dl_handle dl then s
      else s\<lparr>
        ts_sym_flush := dl_sym dl ''ddtrace_close_all_spans_and_flush'',
        ts_sym_meta := dl_sym dl ''ddtrace_root_span_get_meta'',
        ts_sym_metrics := dl_sym dl ''ddtrace_root_span_get_metrics'',
        ts_runtime_id := (if dl_sym dl ''ddtrace_runtime_id'' then Some (dl_runtime_id dl) else None),
        ts_sym_priority := dl_sym dl ''ddtrace_set_priority_sampling_on_root''\<rparr>)"

definition find_ddtrace_module :: "'a trace_state_scheme \<Rightarrow> module_entry option" where
  "find_ddtrace_module s = ts_module s"

definition dd_trace_startup :: "symbols \<Rightarrow> 'a trace_state_scheme \<Rightarrow> 'a trace_state_scheme" where
  "dd_trace_startup dl s =
     (case find_ddtrace_module s of
        None \<Rightarrow> s\<lparr>ts_loaded := False\<rparr>
      | Some md \<Rightarrow>
          (let s1 = s\<lparr>ts_loaded := True, ts_mod_type := mod_type md, ts_mod_number := mod_number md,
                      ts_version := Some (mod_version md)\<rparr>;
               s2 = dd_trace_load_symbols dl s1
           in if ts_testing s2
              then s2\<lparr>ts_orig_rshutdown := mod_rshutdown md,
                      ts_module := Some (md\<lparr>mod_rshutdown := Ddtrace_rshutdown_testing\<rparr>)\<rparr>
              else s2))"

definition dd_trace_shutdown :: "'a trace_state_scheme \<Rightarrow> 'a trace_state_scheme" where
  "dd_trace_shutdown s =
     (let s1 = (case find_ddtrace_module s of
          None \<Rightarrow> s
        | Some md \<Rightarrow> s\<lparr>ts_module := Some (md\<lparr>mod_rshutdown := ts_orig_rshutdown s\<rparr>)\<rparr>)
      in s1\<lparr>ts_orig_rshutdown := Null_fn, ts_mod_type := 0, ts_mod_number := 0\<rparr>)"

text \<open>The original function of the tracer is given; \<open>0\<close> is \<open>SUCCESS\<close>.\<close>

definition ddtrace_rshutdown_testing ::
  "('a trace_state_scheme \<Rightarrow> int \<times> 'a trace_state_scheme) \<Rightarrow>
     'a trace_state_scheme \<Rightarrow> int \<times> 'a trace_state_scheme" where
  "ddtrace_rshutdown_testing orig s =
     (if ts_suppress_rshutdown s then (0, s\<lparr>ts_suppress_rshutdown := False\<rparr>) else orig s)"

definition dd_trace_version :: "'a trace_state_scheme \<Rightarrow> string option" where
  "dd_trace_version s = ts_version s"

definition dd_trace_loaded :: "'a trace_state_scheme \<Rightarrow> bool" where
  "dd_trace_loaded s = ts_loaded s"

definition dd_trace_enabled :: "'a trace_state_scheme \<Rightarrow> bool" where
  "dd_trace_enabled s = (ts_loaded s \<and> ts_trace_enabled s)"

section \<open>The root span\<close>

definition dd_trace_root_span_get_meta :: "'a trace_state_scheme \<Rightarrow> zend_array option" where
  "dd_trace_root_span_get_meta s = (if \<not> ts_sym_meta s then None else root_meta s)"

definition dd_trace_root_span_get_metrics :: "'a trace_state_scheme \<Rightarrow> zend_array option" where
  "dd_trace_root_span_get_metrics s = (if \<not> ts_sym_metrics s then None else root_metrics s)"

text \<open>Whether the two pointers kept for the request, \<open>_span_meta\<close> and \<open>_span_metrics\<close>, are set.\<close>

definition dd_trace_rinit :: "'a trace_state_scheme \<Rightarrow> 'a trace_state_scheme" where
  "dd_trace_rinit s =
     (let s1 = s\<lparr>ts_span_meta := False, ts_span_metrics := False\<rparr> in
      if \<not> dd_trace_enabled s1 then s1
      else s1\<lparr>ts_span_meta := dd_trace_root_span_get_meta s1 \<noteq> None,
              ts_span_metrics := dd_trace_root_span_get_metrics s1 \<noteq> None\<rparr>)"

definition dd_trace_root_span_add_tag ::
  "string \<Rightarrow> zval \<Rightarrow> 'a trace_state_scheme \<Rightarrow> bool \<times> 'a trace_state_scheme" where
  "dd_trace_root_span_add_tag tag val s =
     (case dd_trace_root_span_get_meta s of
        None \<Rightarrow> (False, s)
      | Some meta \<Rightarrow>
          (case zend_hash_add meta (KStr tag) val of
             (False, _) \<Rightarrow> (False, s)
           | (True, meta') \<Rightarrow> (True, s\<lparr>root_meta := Some meta'\<rparr>)))"

definition int_max :: int where "int_max = 2147483647"

definition dd_trace_root_span_add_tag_str ::
  "string \<Rightarrow> string \<Rightarrow> 'a trace_state_scheme \<Rightarrow> bool \<times> 'a trace_state_scheme" where
  "dd_trace_root_span_add_tag_str tag val s =
     (if int (length val) > int_max then (False, s)
      else case dd_trace_root_span_get_meta s of
        None \<Rightarrow> (False, s)
      | Some meta \<Rightarrow>
          (case zend_hash_add meta (KStr tag) (ZString val) of
             (False, _) \<Rightarrow> (False, s)
           | (True, meta') \<Rightarrow> (True, s\<lparr>root_meta := Some meta'\<rparr>)))"

definition dd_trace_close_all_spans_and_flush :: "'a trace_state_scheme \<Rightarrow> 'a trace_state_scheme" where
  "dd_trace_close_all_spans_and_flush s =
     (if \<not> ts_sym_flush s then s else s\<lparr>flush_count := flush_count s + 1\<rparr>)"

definition dd_trace_set_priority_sampling_on_root ::
  "int \<Rightarrow> dd_sampling_mechanism \<Rightarrow> 'a trace_state_scheme \<Rightarrow> 'a trace_state_scheme" where
  "dd_trace_set_priority_sampling_on_root priority mechanism s =
     (if \<not> ts_sym_priority s then s else s\<lparr>root_priority := Some (priority, mechanism)\<rparr>)"

section \<open>The runtime identifier\<close>

text \<open>\<open>%02x\<close> of a byte.\<close>

definition hex_digit :: "nat \<Rightarrow> char" where
  "hex_digit n = ''0123456789abcdef'' ! n"

definition hex02 :: "byte \<Rightarrow> string" where
  "hex02 b = [hex_digit (unat b div 16), hex_digit (unat b mod 16)]"

definition dash :: char where "dash = CHR ''-''"

definition dd_trace_get_formatted_runtime_id :: "'a trace_state_scheme \<Rightarrow> string option" where
  "dd_trace_get_formatted_runtime_id s =
     (case ts_runtime_id s of
        None \<Rightarrow> None
      | Some rid \<Rightarrow>
          (let encoded_id =
             concat (map hex02 (take 4 rid)) @ [dash] @
             concat (map hex02 (take 2 (drop 4 rid))) @ [dash] @
             concat (map hex02 (take 2 (drop 6 rid))) @ [dash] @
             concat (map hex02 (take 2 (drop 8 rid))) @ [dash] @
             concat (map hex02 (take 6 (drop 10 rid)))
           in if length encoded_id \<noteq> 36 then None else Some encoded_id))"

section \<open>Adding a tag\<close>

text \<open>A tag is added only to a table that does not have it, and then only that entry changes.\<close>

lemma add_tag_cases:
  "dd_trace_root_span_add_tag tag val s =
     (case dd_trace_root_span_get_meta s of
        Some meta \<Rightarrow> if zend_hash_exists meta (KStr tag) then (False, s)
          else (True, s\<lparr>root_meta := Some (meta @ [(KStr tag, val)])\<rparr>)
      | None \<Rightarrow> (False, s))"
  by (simp add: dd_trace_root_span_add_tag_def zend_hash_add_def split: option.splits)

lemma add_tag_str_eq:
  "int (length val) \<le> int_max \<Longrightarrow>
   dd_trace_root_span_add_tag_str tag val s = dd_trace_root_span_add_tag tag (ZString val) s"
  by (simp add: dd_trace_root_span_add_tag_str_def dd_trace_root_span_add_tag_def)

section \<open>Properties\<close>

fun unhex :: "char \<Rightarrow> nat" where
  "unhex c = (let n = of_char c in if n \<le> 57 then n - 48 else n - 87)"

fun unhex_all :: "string \<Rightarrow> byte list" where
  "unhex_all (a # b # s) = of_nat (16 * unhex a + unhex b) # unhex_all s"
| "unhex_all _ = []"

lemma hex_digits:
  "\<forall>n \<in> set [0..<16]. unhex (hex_digit n) = n \<and> hex_digit n \<noteq> dash"
  by code_simp

lemma hex_digit_inv: "n < 16 \<Longrightarrow> unhex (hex_digit n) = n" "n < 16 \<Longrightarrow> hex_digit n \<noteq> dash"
  using hex_digits by auto

lemma unhex_all_append: "unhex_all (concat (map hex02 bs)) = bs"
proof (induction bs)
  case (Cons b bs)
  have "unat b < 256" using unsigned_less [of b, where ?'a = nat] by simp
  then have "unat b div 16 < 16" "unat b mod 16 < 16" by auto
  with Cons show ?case by (simp add: hex02_def hex_digit_inv del: unhex.simps)
qed simp

lemma hex02_no_dash: "filter (\<lambda>c. c \<noteq> dash) (concat (map hex02 bs)) = concat (map hex02 bs)"
proof (induction bs)
  case (Cons b bs)
  have "unat b < 256" using unsigned_less [of b, where ?'a = nat] by simp
  then have "unat b div 16 < 16" "unat b mod 16 < 16" by auto
  with Cons show ?case by (simp add: hex02_def hex_digit_inv)
qed simp

lemma length_hex02: "length (concat (map hex02 bs)) = 2 * length bs"
  by (induction bs) (simp_all add: hex02_def)

lemma concat_hex_append: "concat (map hex02 xs) @ concat (map hex02 ys) = concat (map hex02 (xs @ ys))"
  by simp

text \<open>
  A runtime identifier of sixteen bytes is always printed, in 36 characters with dashes at
  8, 13, 18 and 23, and reading the other characters as hexadecimal gives the bytes back.
\<close>

theorem runtime_id_roundtrip:
  assumes "ts_runtime_id s = Some rid" "length rid = 16"
  shows "\<exists>t. dd_trace_get_formatted_runtime_id s = Some t \<and> length t = 36 \<and>
    t ! 8 = dash \<and> t ! 13 = dash \<and> t ! 18 = dash \<and> t ! 23 = dash \<and>
    unhex_all (filter (\<lambda>c. c \<noteq> dash) t) = rid"
proof -
  define a b c d e where parts: "a = take 4 rid" "b = take 2 (drop 4 rid)" "c = take 2 (drop 6 rid)"
    "d = take 2 (drop 8 rid)" "e = take 6 (drop 10 rid)"
  have rid: "rid = a @ b @ c @ d @ e"
    using assms(2) unfolding parts by (intro nth_equalityI) (auto simp: nth_append)
  have len: "length a = 4" "length b = 2" "length c = 2" "length d = 2" "length e = 6"
    using assms(2) by (simp_all add: parts)
  let ?h = "\<lambda>x. concat (map hex02 x)"
  have t: "dd_trace_get_formatted_runtime_id s =
      Some (?h a @ [dash] @ ?h b @ [dash] @ ?h c @ [dash] @ ?h d @ [dash] @ ?h e)"
    using assms len by (simp add: dd_trace_get_formatted_runtime_id_def parts length_hex02)
  have "unhex_all (?h a @ ?h b @ ?h c @ ?h d @ ?h e) = rid"
    unfolding concat_hex_append rid by (rule unhex_all_append)
  with t len show ?thesis
    by (simp add: hex02_no_dash length_hex02 nth_append del: unhex_all.simps)
qed

definition sample_trace :: trace_state where
  "sample_trace = \<lparr>trace = [], mgr = initial_mgr, launch_failure_fd_lock = -1,
     ts_module = Some \<lparr>mod_type = 1, mod_number = 40, mod_version = ''0.96'', mod_rshutdown = Tracer_rshutdown\<rparr>,
     ts_loaded = True, ts_version = Some ''0.96'', ts_mod_type = 1, ts_mod_number = 40,
     ts_orig_rshutdown = Null_fn, ts_suppress_rshutdown = False, ts_span_meta = False, ts_span_metrics = False,
     ts_sym_flush = True, ts_sym_meta = True,
     ts_sym_metrics = True, ts_sym_priority = True,
     ts_runtime_id = Some [0, 17, 34, 51, 68, 85, 102, 119, 136, 153, 170, 187, 204, 221, 238, 255],
     ts_testing = False, ts_trace_enabled = True, root_meta = Some [], root_metrics = Some [],
     root_priority = None, flush_count = 0\<rparr>"

theorem runtime_id_roundtrip_witness:
  "\<exists>t. dd_trace_get_formatted_runtime_id sample_trace = Some t \<and> length t = 36 \<and>
    unhex_all (filter (\<lambda>c. c \<noteq> dash) t) =
      [0, 17, 34, 51, 68, 85, 102, 119, 136, 153, 170, 187, 204, 221, 238, 255]"
  using runtime_id_roundtrip [of sample_trace
      "[0, 17, 34, 51, 68, 85, 102, 119, 136, 153, 170, 187, 204, 221, 238, 255]"]
  by (auto simp: sample_trace_def)

text \<open>
  Shutting the extension down gives the tracer's module its own request shutdown function
  back when it was replaced for testing, and sets it to NULL when it was never replaced.
\<close>

theorem shutdown_restores_only_when_testing:
  assumes "ts_module s = Some md" "ts_orig_rshutdown s = Null_fn"
  shows "map_option mod_rshutdown (ts_module (dd_trace_shutdown (dd_trace_startup dl s))) =
     Some (if ts_testing s then mod_rshutdown md else Null_fn)"
  using assms
  by (simp add: dd_trace_startup_def dd_trace_shutdown_def find_ddtrace_module_def
      dd_trace_load_symbols_def Let_def)

theorem shutdown_restores_only_when_testing_witness:
  "map_option mod_rshutdown (ts_module (dd_trace_shutdown (dd_trace_startup
     \<lparr>dl_handle = True, dl_sym = (\<lambda>_. True), dl_runtime_id = []\<rparr> sample_trace))) = Some Null_fn \<and>
   map_option mod_rshutdown (ts_module sample_trace) = Some Tracer_rshutdown"
  using shutdown_restores_only_when_testing [of sample_trace _
      "\<lparr>dl_handle = True, dl_sym = (\<lambda>_. True), dl_runtime_id = []\<rparr>"]
  by (simp add: sample_trace_def)

end
