(* ===== verification/Tags.thy ===== *)
theory Tags
  imports Ddtrace
begin

text \<open>
  src/extension/tags.c: the tags and metrics put on the root span of a request.

  The state extends the tracer's with what tags.c keeps: the mode of automated user event tracking,
  the two tables of relevant headers, and per request the collected JSON fragments, the user id of
  an event, and whether the request was blocked or its trace must be kept. What is read of the
  request and the response (\<open>$_SERVER\<close>, SAPI globals, the client address) is a record given to the
  operations that read it. PCRE is a parameter.
\<close>

section \<open>Names\<close>

definition DD_TAG_DATA :: string where "DD_TAG_DATA = ''_dd.appsec.json''"
definition DD_TAG_EVENT :: string where "DD_TAG_EVENT = ''appsec.event''"
definition DD_TAG_BLOCKED :: string where "DD_TAG_BLOCKED = ''appsec.blocked''"
definition DD_TAG_RUNTIME_FAMILY :: string where "DD_TAG_RUNTIME_FAMILY = ''_dd.runtime_family''"
definition DD_TAG_HTTP_METHOD :: string where "DD_TAG_HTTP_METHOD = ''http.method''"
definition DD_TAG_HTTP_USER_AGENT :: string where "DD_TAG_HTTP_USER_AGENT = ''http.useragent''"
definition DD_TAG_HTTP_STATUS_CODE :: string where "DD_TAG_HTTP_STATUS_CODE = ''http.status_code''"
definition DD_TAG_HTTP_URL :: string where "DD_TAG_HTTP_URL = ''http.url''"
definition DD_TAG_NETWORK_CLIENT_IP :: string where "DD_TAG_NETWORK_CLIENT_IP = ''network.client.ip''"
definition DD_PREFIX_TAG_REQUEST_HEADER :: string where
  "DD_PREFIX_TAG_REQUEST_HEADER = ''http.request.headers.''"
definition DD_TAG_HTTP_RH_CONTENT_LENGTH :: string where
  "DD_TAG_HTTP_RH_CONTENT_LENGTH = ''http.response.headers.content-length''"
definition DD_TAG_HTTP_RH_CONTENT_TYPE :: string where
  "DD_TAG_HTTP_RH_CONTENT_TYPE = ''http.response.headers.content-type''"
definition DD_TAG_HTTP_RH_CONTENT_ENCODING :: string where
  "DD_TAG_HTTP_RH_CONTENT_ENCODING = ''http.response.headers.content-encoding''"
definition DD_TAG_HTTP_RH_CONTENT_LANGUAGE :: string where
  "DD_TAG_HTTP_RH_CONTENT_LANGUAGE = ''http.response.headers.content-language''"
definition DD_TAG_HTTP_CLIENT_IP :: string where "DD_TAG_HTTP_CLIENT_IP = ''http.client_ip''"
definition DD_TAG_USER_ID :: string where "DD_TAG_USER_ID = ''usr.id''"
definition DD_MULTIPLE_IP_HEADERS :: string where "DD_MULTIPLE_IP_HEADERS = ''_dd.multiple-ip-headers''"
definition DD_METRIC_ENABLED :: string where "DD_METRIC_ENABLED = ''_dd.appsec.enabled''"
definition DD_APPSEC_EVENTS_PREFIX :: string where "DD_APPSEC_EVENTS_PREFIX = ''appsec.events.''"
definition DD_SIGNUP_EVENT :: string where "DD_SIGNUP_EVENT = DD_APPSEC_EVENTS_PREFIX @ ''users.signup''"
definition DD_LOGIN_SUCCESS_EVENT :: string where
  "DD_LOGIN_SUCCESS_EVENT = DD_APPSEC_EVENTS_PREFIX @ ''users.login.success''"
definition DD_LOGIN_FAILURE_EVENT :: string where
  "DD_LOGIN_FAILURE_EVENT = DD_APPSEC_EVENTS_PREFIX @ ''users.login.failure''"
definition DD_EVENTS_USER_SIGNUP_AUTO_MODE :: string where
  "DD_EVENTS_USER_SIGNUP_AUTO_MODE = ''_dd.appsec.events.users.signup.auto.mode''"
definition DD_EVENTS_USER_LOGIN_SUCCESS_AUTO_MODE :: string where
  "DD_EVENTS_USER_LOGIN_SUCCESS_AUTO_MODE = ''_dd.appsec.events.users.login.success.auto.mode''"
definition DD_EVENTS_USER_LOGIN_FAILURE_AUTO_MODE :: string where
  "DD_EVENTS_USER_LOGIN_FAILURE_AUTO_MODE = ''_dd.appsec.events.users.login.failure.auto.mode''"
definition DD_EVENTS_USER_SIGNUP_SDK :: string where
  "DD_EVENTS_USER_SIGNUP_SDK = ''_dd.appsec.events.users.signup.sdk''"
definition DD_EVENTS_USER_LOGIN_SUCCESS_SDK :: string where
  "DD_EVENTS_USER_LOGIN_SUCCESS_SDK = ''_dd.appsec.events.users.login.success.sdk''"
definition DD_EVENTS_USER_LOGIN_FAILURE_SDK :: string where
  "DD_EVENTS_USER_LOGIN_FAILURE_SDK = ''_dd.appsec.events.users.login.failure.sdk''"

section \<open>State\<close>

datatype automated_user_events_tracking_mode = NOT_ENABLED | SAFE | EXTENDED

record tags_state = trace_state +
  automated_user_events_tracking :: automated_user_events_tracking_mode
  mode_cstr :: "string option"
  relevant_headers :: "(string \<times> zval) list"
  relevant_ip_headers :: "(string \<times> zval) list"
  appsec_json_frags_inited :: bool
  appsec_json_frags :: "string list"
  event_user_id :: "string option"
  is_blocked :: bool
  force_keep :: bool
  appsec_enabled :: enabled_configuration

text \<open>What the taggers read of the request and of the response.\<close>

record tag_ctx =
  tc_server :: "zval option"
  tc_method :: "string option"
  tc_request_uri :: "string option"
  tc_response_code :: int
  tc_response_headers :: "string list"
  tc_client_ip :: "string option"

section \<open>Startup and the life of a request\<close>

definition zend_hash_copy :: "('k \<times> 'v) list \<Rightarrow> ('k \<times> 'v) list \<Rightarrow> ('k \<times> 'v) list" where
  "zend_hash_copy target source = foldl (\<lambda>t (k, v). zend_hash_update t k v) target source"

definition ip_header_names :: "string list" where
  "ip_header_names =
     [''x-forwarded-for'', ''x-real-ip'', ''client-ip'', ''x-forwarded'', ''x-cluster-client-ip'',
      ''forwarded-for'', ''forwarded'', ''true-client-ip'', ''via'']"

definition header_names :: "string list" where
  "header_names =
     [''x-forwarded-for'', ''x-client-ip'', ''x-real-ip'', ''client-ip'', ''x-forwarded'',
      ''x-cluster-client-ip'', ''forwarded-for'', ''forwarded'', ''true-client-ip'', ''via'',
      ''content-length'', ''content-type'', ''content-encoding'', ''content-language'', ''host'',
      ''user-agent'', ''accept'', ''accept-encoding'', ''accept-language'']"

text \<open>\<open>extra\<close> is \<open>DD_APPSEC_EXTRA_HEADERS\<close>.\<close>

definition init_relevant_headers ::
  "(string \<times> zval) list \<Rightarrow> 'a tags_state_scheme \<Rightarrow> 'a tags_state_scheme" where
  "init_relevant_headers extra s =
     s\<lparr>relevant_ip_headers := map (\<lambda>h. (h, ZNull)) ip_header_names,
       relevant_headers := zend_hash_copy (map (\<lambda>h. (h, ZNull)) header_names) extra\<rparr>"

definition dd_tags_startup :: "(string \<times> zval) list \<Rightarrow> 'a tags_state_scheme \<Rightarrow> 'a tags_state_scheme" where
  "dd_tags_startup extra s = init_relevant_headers extra (s\<lparr>mode_cstr := Some ''safe''\<rparr>)"

definition dd_tags_shutdown :: "'a tags_state_scheme \<Rightarrow> 'a tags_state_scheme" where
  "dd_tags_shutdown s = s\<lparr>relevant_headers := [], relevant_ip_headers := []\<rparr>"

definition dd_tags_rinit :: "'a tags_state_scheme \<Rightarrow> 'a tags_state_scheme" where
  "dd_tags_rinit s =
     (let (init_list, s1) =
        (if \<not> appsec_json_frags_inited s then (True, s\<lparr>appsec_json_frags_inited := True\<rparr>)
         else if length (appsec_json_frags s) > 0 then (True, s)
         else (False, s));
          s2 = (if init_list then s1\<lparr>appsec_json_frags := []\<rparr> else s1)
      in s2\<lparr>event_user_id := None, is_blocked := False, force_keep := False\<rparr>)"

definition dd_tags_add_appsec_json_frag :: "string \<Rightarrow> 'a tags_state_scheme \<Rightarrow> 'a tags_state_scheme" where
  "dd_tags_add_appsec_json_frag zstr s = s\<lparr>appsec_json_frags := appsec_json_frags s @ [zstr]\<rparr>"

definition dd_tags_set_event_user_id :: "string \<Rightarrow> 'a tags_state_scheme \<Rightarrow> 'a tags_state_scheme" where
  "dd_tags_set_event_user_id zstr s = s\<lparr>event_user_id := Some zstr\<rparr>"

definition dd_tags_rshutdown :: "'a tags_state_scheme \<Rightarrow> 'a tags_state_scheme" where
  "dd_tags_rshutdown s = s\<lparr>appsec_json_frags := [], event_user_id := None\<rparr>"

definition dd_tags_rshutdown_testing :: "'a tags_state_scheme \<Rightarrow> 'a tags_state_scheme" where
  "dd_tags_rshutdown_testing s = dd_tags_rshutdown s"

definition dd_tags_add_blocked :: "'a tags_state_scheme \<Rightarrow> 'a tags_state_scheme" where
  "dd_tags_add_blocked s = s\<lparr>is_blocked := True\<rparr>"

definition dd_tags_set_sampling_priority :: "'a tags_state_scheme \<Rightarrow> 'a tags_state_scheme" where
  "dd_tags_set_sampling_priority s = s\<lparr>force_keep := True\<rparr>"

section \<open>The JSON tag\<close>

definition DD_DATA_TAG_BEFORE :: string where
  "DD_DATA_TAG_BEFORE = [CHR 0x7B, CHR 0x22] @ ''triggers'' @ [CHR 0x22] @ '':[''"

definition DD_DATA_TAG_AFTER :: string where "DD_DATA_TAG_AFTER = '']}''"

text \<open>The size of the buffer, and the loop that fills it; \<open>i\<close> is the index of the next fragment.\<close>

definition json_needed_len :: "string list \<Rightarrow> nat" where
  "json_needed_len frags =
     (let cnt = length frags in
      foldl (\<lambda>n s. n + length s)
        (length DD_DATA_TAG_BEFORE + length DD_DATA_TAG_AFTER + (if cnt > 0 then cnt - 1 else 0)) frags)"

fun json_fill :: "nat \<Rightarrow> string list \<Rightarrow> string \<Rightarrow> string" where
  "json_fill i [] buf = buf"
| "json_fill i (s # frags) buf =
     (let buf1 = (if i \<noteq> 0 then buf @ '','' else buf) in json_fill (i + 1) frags (buf1 @ s))"

definition concat_json_fragments :: "string list \<Rightarrow> string" where
  "concat_json_fragments frags =
     (let buf = json_fill 0 frags DD_DATA_TAG_BEFORE in buf @ DD_DATA_TAG_AFTER)"

section \<open>Ancillary tags\<close>

definition add_new_zstr_to_meta :: "zend_array \<Rightarrow> string \<Rightarrow> string \<Rightarrow> bool \<Rightarrow> zend_array" where
  "add_new_zstr_to_meta meta_ht key val override =
     (if override then zend_hash_update meta_ht (KStr key) (ZString val)
      else snd (zend_hash_add meta_ht (KStr key) (ZString val)))"

definition dd_http_method :: "tag_ctx \<Rightarrow> zend_array \<Rightarrow> zend_array" where
  "dd_http_method c meta_ht =
     (if zend_hash_exists meta_ht (KStr DD_TAG_HTTP_METHOD) then meta_ht
      else case tc_method c of
        None \<Rightarrow> meta_ht
      | Some method \<Rightarrow> add_new_zstr_to_meta meta_ht DD_TAG_HTTP_METHOD (c_str method) False)"

definition dd_http_url :: "tag_ctx \<Rightarrow> zend_array \<Rightarrow> zend_array \<Rightarrow> zend_array" where
  "dd_http_url c server meta_ht =
     (if zend_hash_exists meta_ht (KStr DD_TAG_HTTP_URL) then meta_ht
      else case (case tc_request_uri c of
          None \<Rightarrow> dd_php_get_string_elem (Some server) ''REQUEST_URI''
        | Some uri \<Rightarrow> Some (c_str uri)) of
        None \<Rightarrow> meta_ht
      | Some uri \<Rightarrow>
          (case (case dd_php_get_string_elem (Some server) ''HTTP_HOST'' of
              None \<Rightarrow> dd_php_get_string_elem (Some server) ''SERVER_NAME''
            | Some host \<Rightarrow> Some host) of
            None \<Rightarrow> meta_ht
          | Some http_host \<Rightarrow>
              (let has_https = zend_hash_exists server (KStr ''HTTPS'') in
               add_new_zstr_to_meta meta_ht DD_TAG_HTTP_URL
                 (''http'' @ (if has_https then ''s'' else []) @ ''://'' @ http_host @ uri) False)))"

definition dd_http_user_agent :: "zend_array \<Rightarrow> zend_array \<Rightarrow> zend_array" where
  "dd_http_user_agent server meta_ht =
     (if zend_hash_exists meta_ht (KStr DD_TAG_HTTP_USER_AGENT) then meta_ht
      else case dd_php_get_string_elem (Some server) ''HTTP_USER_AGENT'' of
        None \<Rightarrow> meta_ht
      | Some ua \<Rightarrow> add_new_zstr_to_meta meta_ht DD_TAG_HTTP_USER_AGENT ua False)"

definition dd_http_status_code :: "tag_ctx \<Rightarrow> zend_array \<Rightarrow> zend_array" where
  "dd_http_status_code c meta_ht =
     (if zend_hash_exists meta_ht (KStr DD_TAG_HTTP_STATUS_CODE) then meta_ht
      else if tc_response_code c = 0 then meta_ht
      else add_new_zstr_to_meta meta_ht DD_TAG_HTTP_STATUS_CODE (int_dec (tc_response_code c)) False)"

definition dd_http_network_client_ip :: "zend_array \<Rightarrow> zend_array \<Rightarrow> zend_array" where
  "dd_http_network_client_ip server meta_ht =
     (if zend_hash_exists meta_ht (KStr DD_TAG_NETWORK_CLIENT_IP) then meta_ht
      else case dd_php_get_string_elem (Some server) ''REMOTE_ADDR'' of
        None \<Rightarrow> meta_ht
      | Some addr \<Rightarrow> add_new_zstr_to_meta meta_ht DD_TAG_NETWORK_CLIENT_IP addr False)"

definition dd_http_client_ip :: "tag_ctx \<Rightarrow> zend_array \<Rightarrow> zend_array" where
  "dd_http_client_ip c meta_ht =
     (if zend_hash_exists meta_ht (KStr DD_TAG_HTTP_CLIENT_IP) \<or>
         zend_hash_exists meta_ht (KStr DD_MULTIPLE_IP_HEADERS) then meta_ht
      else case tc_client_ip c of
        None \<Rightarrow> meta_ht
      | Some client_ip \<Rightarrow> add_new_zstr_to_meta meta_ht DD_TAG_HTTP_CLIENT_IP client_ip False)"

text \<open>One bucket of \<open>$_SERVER\<close>, and the loop over all of them.\<close>

definition dd_request_header ::
  "(string \<times> zval) list \<Rightarrow> zkey \<times> zval \<Rightarrow> zend_array \<Rightarrow> zend_array" where
  "dd_request_header relevant b meta_ht =
     (case b of
        (KStr key, ZString val) \<Rightarrow>
          if length key \<le> length ''HTTP_'' \<or> take (length ''HTTP_'') key \<noteq> ''HTTP_'' then meta_ht
          else (let name = dd_string_normalize_header (drop (length ''HTTP_'') key) in
                if \<not> zend_hash_exists relevant name then meta_ht
                else snd (zend_hash_add meta_ht (KStr (DD_PREFIX_TAG_REQUEST_HEADER @ name)) (ZString val)))
      | _ \<Rightarrow> meta_ht)"

definition dd_request_headers ::
  "(string \<times> zval) list \<Rightarrow> zend_array \<Rightarrow> zend_array \<Rightarrow> zend_array" where
  "dd_request_headers relevant server meta_ht = fold (dd_request_header relevant) server meta_ht"

definition is_relevant_resp_header :: "string \<Rightarrow> string option" where
  "is_relevant_resp_header name =
     (if \<not> dd_string_starts_with_lc name ''content-'' then None
      else let rest = drop (length ''content-'') name in
        if dd_string_equals_lc rest ''length'' then Some DD_TAG_HTTP_RH_CONTENT_LENGTH
        else if dd_string_equals_lc rest ''type'' then Some DD_TAG_HTTP_RH_CONTENT_TYPE
        else if dd_string_equals_lc rest ''encoding'' then Some DD_TAG_HTTP_RH_CONTENT_ENCODING
        else if dd_string_equals_lc rest ''language'' then Some DD_TAG_HTTP_RH_CONTENT_LANGUAGE
        else None)"

definition dd_response_header :: "string \<Rightarrow> zend_array \<Rightarrow> zend_array" where
  "dd_response_header header meta_ht =
     (case memchr (CHR '':'') header of
        None \<Rightarrow> meta_ht
      | Some pcol \<Rightarrow>
          (case is_relevant_resp_header (take pcol header) of
             None \<Rightarrow> meta_ht
           | Some tag_name \<Rightarrow>
               snd (zend_hash_add meta_ht (KStr tag_name) (ZString (skip_spaces (drop (pcol + 1) header))))))"

definition dd_response_headers :: "tag_ctx \<Rightarrow> zend_array \<Rightarrow> zend_array" where
  "dd_response_headers c meta_ht = fold dd_response_header (tc_response_headers c) meta_ht"

definition dd_event_user_id :: "'a tags_state_scheme \<Rightarrow> zend_array \<Rightarrow> zend_array" where
  "dd_event_user_id s meta_ht =
     (case event_user_id s of
        None \<Rightarrow> meta_ht
      | Some user_id \<Rightarrow> add_new_zstr_to_meta meta_ht DD_TAG_USER_ID user_id False)"

definition dd_appsec_blocked :: "'a tags_state_scheme \<Rightarrow> zend_array \<Rightarrow> zend_array" where
  "dd_appsec_blocked s meta_ht =
     (if is_blocked s then add_new_zstr_to_meta meta_ht DD_TAG_BLOCKED ''true'' False else meta_ht)"

definition add_basic_tags_to_meta :: "tag_ctx \<Rightarrow> 'a tags_state_scheme \<Rightarrow> zend_array \<Rightarrow> zend_array" where
  "add_basic_tags_to_meta c s meta_ht =
     (case tc_server c of
        None \<Rightarrow> meta_ht
      | Some server \<Rightarrow>
          dd_request_headers (relevant_ip_headers s) (arrval server) (dd_http_client_ip c meta_ht))"

definition add_all_tags_to_meta :: "tag_ctx \<Rightarrow> 'a tags_state_scheme \<Rightarrow> zend_array \<Rightarrow> zend_array" where
  "add_all_tags_to_meta c s meta_ht =
     (case tc_server c of
        None \<Rightarrow> meta_ht
      | Some server \<Rightarrow>
          (let m1 = dd_http_method c meta_ht;
               m2 = dd_http_url c (arrval server) m1;
               m3 = dd_http_user_agent (arrval server) m2;
               m4 = dd_http_status_code c m3;
               m5 = dd_http_network_client_ip (arrval server) m4;
               m6 = dd_request_headers (relevant_headers s) (arrval server) m5;
               m7 = dd_http_client_ip c m6;
               m8 = dd_response_headers c m7;
               m9 = dd_event_user_id s m8
           in dd_appsec_blocked s m9))"

definition add_basic_ancillary_tags :: "tag_ctx \<Rightarrow> 'a tags_state_scheme \<Rightarrow> 'a tags_state_scheme" where
  "add_basic_ancillary_tags c s =
     (case dd_trace_root_span_get_meta s of
        None \<Rightarrow> s
      | Some meta \<Rightarrow> s\<lparr>root_meta := Some (add_basic_tags_to_meta c s meta)\<rparr>)"

definition add_all_ancillary_tags :: "tag_ctx \<Rightarrow> 'a tags_state_scheme \<Rightarrow> bool \<times> 'a tags_state_scheme" where
  "add_all_ancillary_tags c s =
     (case dd_trace_root_span_get_meta s of
        None \<Rightarrow> (False, s)
      | Some meta \<Rightarrow> (True, s\<lparr>root_meta := Some (add_all_tags_to_meta c s meta)\<rparr>))"

definition set_runtime_family :: "'a tags_state_scheme \<Rightarrow> 'a tags_state_scheme" where
  "set_runtime_family s = snd (dd_trace_root_span_add_tag_str DD_TAG_RUNTIME_FAMILY ''php'' s)"

definition set_appsec_enabled :: "'a tags_state_scheme \<Rightarrow> zend_array \<Rightarrow> bool \<times> zend_array" where
  "set_appsec_enabled s metrics =
     zend_hash_add metrics (KStr DD_METRIC_ENABLED) (ZLong (if appsec_enabled s = ENABLED then 1 else 0))"

text \<open>The metric and the tags every request gets, before any event.\<close>

definition prepare_root_span :: "'a tags_state_scheme \<Rightarrow> 'a tags_state_scheme" where
  "prepare_root_span s =
     (let s1 = (case dd_trace_root_span_get_metrics s of
            None \<Rightarrow> s
          | Some metrics \<Rightarrow> s\<lparr>root_metrics := Some (snd (set_appsec_enabled s metrics))\<rparr>);
          s2 = set_runtime_family s1
      in if force_keep s2
         then dd_trace_set_priority_sampling_on_root PRIORITY_SAMPLING_USER_KEEP DD_MECHANISM_MANUAL s2
         else s2)"

definition dd_tags_add_tags :: "tag_ctx \<Rightarrow> 'a tags_state_scheme \<Rightarrow> 'a tags_state_scheme" where
  "dd_tags_add_tags c s =
     (let s3 = prepare_root_span s in
      if length (appsec_json_frags s3) = 0 then add_basic_ancillary_tags c s3
      else
        let (res, s4) = dd_trace_root_span_add_tag DD_TAG_DATA
              (ZString (concat_json_fragments (appsec_json_frags s3))) s3
        in if \<not> res then s4
        else
          let (res, s5) = dd_trace_root_span_add_tag DD_TAG_EVENT (ZString ''true'') s4
          in if \<not> res then s5
          else snd (add_all_ancillary_tags c s5))"

section \<open>What a tagger may change\<close>

text \<open>
  \<open>extends m m'\<close>: every entry of \<open>m\<close> is an entry of \<open>m'\<close>. \<open>adds_values P m m'\<close>: an entry of \<open>m'\<close>
  is one of \<open>m\<close> or has a value with \<open>P\<close>. \<open>adds_keys P m m'\<close>: the same for keys.
\<close>

definition extends :: "zend_array \<Rightarrow> zend_array \<Rightarrow> bool" where
  "extends m m' \<longleftrightarrow> (\<forall>k v. zend_hash_find m k = Some v \<longrightarrow> zend_hash_find m' k = Some v)"

definition adds_entries :: "(zkey \<Rightarrow> zval \<Rightarrow> bool) \<Rightarrow> zend_array \<Rightarrow> zend_array \<Rightarrow> bool" where
  "adds_entries P m m' \<longleftrightarrow>
     (\<forall>k v. zend_hash_find m' k = Some v \<longrightarrow> zend_hash_find m k = Some v \<or> P k v)"

named_theorems tag_rules \<open>what the taggers keep and what they add\<close>

lemma extends_refl [tag_rules]: "extends m m"
  by (simp add: extends_def)

lemma extends_trans: "extends m m' \<Longrightarrow> extends m' m'' \<Longrightarrow> extends m m''"
  by (auto simp: extends_def)

lemma adds_entries_refl [tag_rules]: "adds_entries P m m"
  by (simp add: adds_entries_def)

lemma adds_entries_trans: "adds_entries P m m' \<Longrightarrow> adds_entries P m' m'' \<Longrightarrow> adds_entries P m m''"
  unfolding adds_entries_def by blast

lemma extends_hash_add [tag_rules]: "extends m (snd (zend_hash_add m k v))"
  by (simp add: extends_def zh.add_mono)

lemma adds_hash_add: "P k v \<Longrightarrow> adds_entries P m (snd (zend_hash_add m k v))"
  by (auto simp: adds_entries_def zh.add_find split: option.splits if_splits)

lemma adds_hash_update: "P k v \<Longrightarrow> adds_entries P m (zend_hash_update m k v)"
  by (auto simp: adds_entries_def zh.update_find split: if_splits)

lemma extends_add_new [tag_rules]: "extends m (add_new_zstr_to_meta m key val False)"
  by (simp add: add_new_zstr_to_meta_def tag_rules)

lemma adds_add_new:
  "P (KStr key) (ZString val) \<Longrightarrow> adds_entries P m (add_new_zstr_to_meta m key val override)"
  by (simp add: add_new_zstr_to_meta_def adds_hash_add adds_hash_update)

lemma unchanged_key:
  assumes "extends m m'" "adds_entries P m m'" "\<And>v. \<not> P k v"
  shows "zend_hash_find m' k = zend_hash_find m k"
  using assms unfolding adds_entries_def extends_def by (metis option.exhaust)

lemma extends_fold: "(\<And>x m. extends m (f x m)) \<Longrightarrow> extends m (fold f xs m)"
  by (induction xs arbitrary: m) (auto simp: extends_refl intro: extends_trans)

lemma adds_fold:
  "(\<And>x m. x \<in> set xs \<Longrightarrow> adds_entries P m (f x m)) \<Longrightarrow> adds_entries P m (fold f xs m)"
  by (induction xs arbitrary: m) (auto simp: adds_entries_refl intro: adds_entries_trans)

lemma extends_taggers [tag_rules]:
  "extends m (dd_http_method c m)" "extends m (dd_http_url c sv m)" "extends m (dd_http_user_agent sv m)"
  "extends m (dd_http_status_code c m)" "extends m (dd_http_network_client_ip sv m)"
  "extends m (dd_http_client_ip c m)" "extends m (dd_request_header rel b m)"
  "extends m (dd_response_header h m)" "extends m (dd_event_user_id s m)" "extends m (dd_appsec_blocked s m)"
  by (auto simp: dd_http_method_def dd_http_url_def dd_http_user_agent_def dd_http_status_code_def
      dd_http_network_client_ip_def dd_http_client_ip_def dd_request_header_def dd_response_header_def
      dd_event_user_id_def dd_appsec_blocked_def Let_def tag_rules
      split: option.splits prod.splits zkey.splits zval.splits)

lemma extends_headers [tag_rules]:
  "extends m (dd_request_headers rel sv m)" "extends m (dd_response_headers c m)"
  by (simp_all add: dd_request_headers_def dd_response_headers_def extends_fold tag_rules)

lemmas extends_steps =
  extends_taggers [THEN [2] extends_trans] extends_headers [THEN [2] extends_trans] extends_refl

lemma extends_all_tags [tag_rules]:
  "extends m (add_basic_tags_to_meta c s m)" "extends m (add_all_tags_to_meta c s m)"
  unfolding add_basic_tags_to_meta_def add_all_tags_to_meta_def Let_def
  by (cases "tc_server c"; simp only: option.case; intro extends_steps)+

text \<open>The same on the root span.\<close>

definition meta_extends :: "'a tags_state_scheme \<Rightarrow> 'b tags_state_scheme \<Rightarrow> bool" where
  "meta_extends s s' \<longleftrightarrow>
     rel_option extends (root_meta s) (root_meta s') \<and> rel_option extends (root_metrics s) (root_metrics s')"

lemma rel_option_refl_extends: "rel_option extends m m"
  by (simp add: option.rel_refl extends_refl)

lemma meta_extends_trans: "meta_extends s s' \<Longrightarrow> meta_extends s' s'' \<Longrightarrow> meta_extends s s''"
  by (auto simp: meta_extends_def rel_option_iff split: option.splits) (erule (1) extends_trans)+

lemma meta_extends_refl: "meta_extends s s"
  by (simp add: meta_extends_def rel_option_refl_extends)

lemma meta_extends_same: "root_meta s' = root_meta s \<Longrightarrow> root_metrics s' = root_metrics s \<Longrightarrow> meta_extends s s'"
  by (simp add: meta_extends_def rel_option_refl_extends)

lemma extends_append: "\<not> zend_hash_exists m k \<Longrightarrow> extends m (m @ [(k, v)])"
  using extends_hash_add [of m k v] by (simp add: zend_hash_add_def)

lemma meta_extends_add_tag: "meta_extends s (snd (dd_trace_root_span_add_tag tag val s))"
  by (auto simp: meta_extends_def add_tag_cases dd_trace_root_span_get_meta_def
      rel_option_refl_extends extends_append extends_refl split: option.splits)

lemma meta_extends_ancillary:
  "meta_extends s (add_basic_ancillary_tags c s)" "meta_extends s (snd (add_all_ancillary_tags c s))"
  by (auto simp: meta_extends_def add_basic_ancillary_tags_def add_all_ancillary_tags_def
      dd_trace_root_span_get_meta_def rel_option_refl_extends tag_rules split: option.splits)

lemma set_runtime_family_add_tag:
  "set_runtime_family s = snd (dd_trace_root_span_add_tag DD_TAG_RUNTIME_FAMILY (ZString ''php'') s)"
  by (simp add: set_runtime_family_def add_tag_str_eq int_max_def)

lemma meta_extends_prepare: "meta_extends s (prepare_root_span s)"
proof -
  define s1 where "s1 = (case dd_trace_root_span_get_metrics s of
      None \<Rightarrow> s
    | Some metrics \<Rightarrow> s\<lparr>root_metrics := Some (snd (set_appsec_enabled s metrics))\<rparr>)"
  have "meta_extends s s1"
    by (auto simp: s1_def meta_extends_def set_appsec_enabled_def dd_trace_root_span_get_metrics_def
        rel_option_refl_extends tag_rules split: option.splits)
  moreover have "meta_extends s1 (set_runtime_family s1)"
    unfolding set_runtime_family_add_tag by (rule meta_extends_add_tag)
  moreover have "meta_extends (set_runtime_family s1) (prepare_root_span s)"
    unfolding prepare_root_span_def s1_def [symmetric]
    by (auto simp: dd_trace_set_priority_sampling_on_root_def Let_def intro: meta_extends_same)
  ultimately show ?thesis by (blast intro: meta_extends_trans)
qed

lemma add_tags_extends: "meta_extends s (dd_tags_add_tags c s)"
proof -
  define s3 where "s3 = prepare_root_span s"
  obtain r4 s4 where d: "dd_trace_root_span_add_tag DD_TAG_DATA
      (ZString (concat_json_fragments (appsec_json_frags s3))) s3 = (r4, s4)" by force
  obtain r5 s5 where e: "dd_trace_root_span_add_tag DD_TAG_EVENT (ZString ''true'') s4 = (r5, s5)" by force
  have "meta_extends s s3" by (simp add: s3_def meta_extends_prepare)
  moreover from this have "meta_extends s s4"
    using meta_extends_add_tag [of s3] d by (metis meta_extends_trans snd_conv)
  moreover from this have "meta_extends s s5"
    using meta_extends_add_tag [of s4] e by (metis meta_extends_trans snd_conv)
  ultimately show ?thesis
    using meta_extends_trans [of s s3, OF _ meta_extends_ancillary(1) [of s3 c]]
      meta_extends_trans [of s s5, OF _ meta_extends_ancillary(2) [of s5 c]]
    by (simp add: dd_tags_add_tags_def s3_def [symmetric] d e)
qed

section \<open>The JSON tag\<close>

fun joined :: "string list \<Rightarrow> string" where
  "joined [] = []"
| "joined [s] = s"
| "joined (s # ss) = s @ '','' @ joined ss"

lemma joined_Cons: "joined (s # ss) = s @ (if ss = [] then [] else '','' @ joined ss)"
  by (cases ss) auto

lemma json_fill_joined:
  "json_fill i frags buf = buf @ (if i \<noteq> 0 \<and> frags \<noteq> [] then '','' else []) @ joined frags"
  by (induction frags arbitrary: i buf) (auto simp: Let_def joined_Cons)

lemma length_joined: "length (joined frags) = sum_list (map length frags) + (length frags - 1)"
  by (induction frags rule: joined.induct) auto

lemma foldl_length: "foldl (\<lambda>n s. n + length s) n frags = n + sum_list (map length frags)"
  by (induction frags arbitrary: n) auto

text \<open>
  The JSON tag is the fragments joined by commas between its two brackets, and filling it
  uses exactly the bytes that were allocated.
\<close>

theorem json_tag_exact:
  "concat_json_fragments frags = DD_DATA_TAG_BEFORE @ joined frags @ DD_DATA_TAG_AFTER \<and>
   length (concat_json_fragments frags) = json_needed_len frags"
  by (cases frags) (simp_all add: concat_json_fragments_def Let_def json_fill_joined json_needed_len_def
      foldl_length length_joined)

section \<open>Request headers\<close>

text \<open>The value of the first header of \<open>$_SERVER\<close> with the given normalised name.\<close>

definition server_header :: "string \<Rightarrow> zkey \<times> zval \<Rightarrow> string option" where
  "server_header name b =
     (case b of
        (KStr key, ZString val) \<Rightarrow>
          if length key > length ''HTTP_'' \<and> take (length ''HTTP_'') key = ''HTTP_'' \<and>
            map header_char (drop (length ''HTTP_'') key) = name then Some val else None
      | _ \<Rightarrow> None)"

lemma request_header_find:
  "zend_hash_find (dd_request_header rel b m) (KStr (DD_PREFIX_TAG_REQUEST_HEADER @ name)) =
     (case zend_hash_find m (KStr (DD_PREFIX_TAG_REQUEST_HEADER @ name)) of
        Some v \<Rightarrow> Some v
      | None \<Rightarrow> if zend_hash_exists rel name then map_option ZString (server_header name b) else None)"
  by (auto simp: dd_request_header_def server_header_def Let_def normalize_header_map zh.add_find
      split: prod.splits zkey.splits zval.splits option.splits)

lemma request_headers_find:
  "zend_hash_find (dd_request_headers rel server m) (KStr (DD_PREFIX_TAG_REQUEST_HEADER @ name)) =
     (case zend_hash_find m (KStr (DD_PREFIX_TAG_REQUEST_HEADER @ name)) of
        Some v \<Rightarrow> Some v
      | None \<Rightarrow> if zend_hash_exists rel name
          then map_option ZString (first_some (server_header name) server) else None)"
proof (induction server arbitrary: m)
  case (Cons b server)
  show ?case
    using Cons [unfolded dd_request_headers_def, of "dd_request_header rel b m"]
    by (auto simp: dd_request_headers_def request_header_find split: option.splits)
qed (simp add: dd_request_headers_def split: option.splits)

text \<open>
  The tag of a relevant request header has the value it had before or else that of the
  first header of the request with that name, whatever the spelling of its key in \<open>$_SERVER\<close>; a
  header that is not in the table gets no tag.
\<close>

theorem request_header_tags:
  "zend_hash_find (dd_request_headers rel server m) (KStr (DD_PREFIX_TAG_REQUEST_HEADER @ name)) =
     (case zend_hash_find m (KStr (DD_PREFIX_TAG_REQUEST_HEADER @ name)) of
        Some v \<Rightarrow> Some v
      | None \<Rightarrow> if zend_hash_exists rel name
          then map_option ZString (first_some (server_header name) server) else None)"
  by (rule request_headers_find)

section \<open>Security events\<close>

lemma prepare_frame:
  "appsec_json_frags (prepare_root_span s) = appsec_json_frags s"
  "ts_sym_meta (prepare_root_span s) = ts_sym_meta s"
  "is_blocked (prepare_root_span s) = is_blocked s"
  by (auto simp: prepare_root_span_def Let_def set_runtime_family_add_tag add_tag_cases
      dd_trace_set_priority_sampling_on_root_def split: option.splits)

lemma prepare_meta:
  assumes "ts_sym_meta s" "root_meta s = Some m"
  shows "root_meta (prepare_root_span s) = Some (snd (zend_hash_add m (KStr DD_TAG_RUNTIME_FAMILY) (ZString ''php'')))"
  using assms
  by (auto simp: prepare_root_span_def Let_def set_runtime_family_add_tag add_tag_cases zend_hash_add_def
      dd_trace_root_span_get_meta_def dd_trace_set_priority_sampling_on_root_def split: option.splits)

lemmas tag_names = DD_TAG_DATA_def DD_TAG_EVENT_def DD_TAG_BLOCKED_def DD_TAG_RUNTIME_FAMILY_def
  DD_PREFIX_TAG_REQUEST_HEADER_def DD_TAG_HTTP_CLIENT_IP_def

lemma find_snoc: "zend_hash_find (m @ [(k, v)]) k' =
   (case zend_hash_find m k' of Some w \<Rightarrow> Some w | None \<Rightarrow> if k = k' then Some v else None)"
  by (induction m k' rule: zend_hash_find.induct) auto

lemma blocked_tagged:
  assumes "tc_server c \<noteq> None" "is_blocked s"
  shows "zend_hash_exists (add_all_tags_to_meta c s m) (KStr DD_TAG_BLOCKED)"
  using assms
  by (auto simp: add_all_tags_to_meta_def dd_appsec_blocked_def Let_def add_new_zstr_to_meta_def
      zend_hash_exists_def zh.add_defined [simplified] split: option.splits)

lemma event_tags_run:
  fixes s :: "'a tags_state_scheme"
  assumes "ts_sym_meta s" "root_meta s = Some m" "appsec_json_frags s \<noteq> []"
    and "\<not> zend_hash_exists m (KStr DD_TAG_DATA)" "\<not> zend_hash_exists m (KStr DD_TAG_EVENT)"
  shows "\<exists>m1 (s1 :: 'a tags_state_scheme). root_meta (dd_tags_add_tags c s) = Some (add_all_tags_to_meta c s1 m1) \<and>
     is_blocked s1 = is_blocked s \<and>
     zend_hash_find m1 (KStr DD_TAG_DATA) = Some (ZString (concat_json_fragments (appsec_json_frags s))) \<and>
     zend_hash_find m1 (KStr DD_TAG_EVENT) = Some (ZString ''true'')"
proof -
  let ?p = "prepare_root_span s"
  let ?mp = "snd (zend_hash_add m (KStr DD_TAG_RUNTIME_FAMILY) (ZString ''php''))"
  let ?d = "(KStr DD_TAG_DATA, ZString (concat_json_fragments (appsec_json_frags s)))"
  let ?e = "(KStr DD_TAG_EVENT, ZString ''true'')"
  have none: "zend_hash_find ?mp (KStr DD_TAG_DATA) = None" "zend_hash_find ?mp (KStr DD_TAG_EVENT) = None"
    using assms(4,5) by (simp_all add: zh.add_other zend_hash_exists_def tag_names)
  then have fresh: "\<not> zend_hash_exists ?mp (KStr DD_TAG_DATA)"
    "\<not> zend_hash_exists (?mp @ [?d]) (KStr DD_TAG_EVENT)"
    by (simp_all add: zend_hash_exists_def find_snoc) (simp add: tag_names)
  have meta: "dd_trace_root_span_get_meta ?p = Some ?mp"
    using assms by (simp add: dd_trace_root_span_get_meta_def prepare_frame prepare_meta)
  have "root_meta (dd_tags_add_tags c s) = Some (add_all_tags_to_meta c
      (?p\<lparr>root_meta := Some (?mp @ [?d] @ [?e])\<rparr>) (?mp @ [?d] @ [?e]))"
    using assms(1,3) fresh meta
    by (simp add: dd_tags_add_tags_def Let_def prepare_frame add_tag_cases)
       (simp add: dd_trace_root_span_get_meta_def prepare_frame add_all_ancillary_tags_def)
  moreover have "zend_hash_find (?mp @ [?d] @ [?e]) (KStr DD_TAG_DATA) = Some (snd ?d)"
    "zend_hash_find (?mp @ [?d] @ [?e]) (KStr DD_TAG_EVENT) = Some (snd ?e)"
    using none find_snoc [of "?mp @ [?d]"] find_snoc [of ?mp] by (simp_all add: tag_names)
  ultimately show ?thesis
    by (intro exI [of _ "?mp @ [?d] @ [?e]"] exI [of _ "?p\<lparr>root_meta := Some (?mp @ [?d] @ [?e])\<rparr>"])
       (simp add: prepare_frame)
qed

text \<open>Without an event neither tag is added.\<close>

lemma basic_tags_add:
  "adds_entries (\<lambda>k v. k \<noteq> KStr DD_TAG_DATA \<and> k \<noteq> KStr DD_TAG_EVENT) m (add_basic_tags_to_meta c s m)"
proof -
  let ?P = "\<lambda>k v. k \<noteq> KStr DD_TAG_DATA \<and> k \<noteq> KStr DD_TAG_EVENT"
  have "adds_entries ?P m (dd_http_client_ip c m)"
    by (auto simp: dd_http_client_ip_def tag_names intro!: adds_add_new adds_entries_refl split: option.splits)
  moreover have "adds_entries ?P m' (dd_request_header rel b m')" for rel b m'
    by (auto simp: dd_request_header_def Let_def tag_names intro!: adds_hash_add adds_entries_refl
        split: prod.splits zkey.splits zval.splits)
  then have "adds_entries ?P m' (dd_request_headers rel sv m')" for rel sv m'
    unfolding dd_request_headers_def by (rule adds_fold)
  ultimately show ?thesis
    by (auto simp: add_basic_tags_to_meta_def intro: adds_entries_refl adds_entries_trans split: option.splits)
qed

lemma no_event_tags:
  assumes "ts_sym_meta s" "root_meta s = Some m" "appsec_json_frags s = []"
  shows "\<exists>m'. root_meta (dd_tags_add_tags c s) = Some m' \<and>
    zend_hash_find m' (KStr DD_TAG_DATA) = zend_hash_find m (KStr DD_TAG_DATA) \<and>
    zend_hash_find m' (KStr DD_TAG_EVENT) = zend_hash_find m (KStr DD_TAG_EVENT)"
proof -
  let ?mp = "snd (zend_hash_add m (KStr DD_TAG_RUNTIME_FAMILY) (ZString ''php''))"
  let ?m' = "add_basic_tags_to_meta c (prepare_root_span s) ?mp"
  have "root_meta (dd_tags_add_tags c s) = Some ?m'"
    using assms by (simp add: dd_tags_add_tags_def Let_def prepare_frame prepare_meta
        add_basic_ancillary_tags_def dd_trace_root_span_get_meta_def)
  moreover have "zend_hash_find ?mp (KStr t) = zend_hash_find m (KStr t)" if "t \<in> {DD_TAG_DATA, DD_TAG_EVENT}" for t
    using that by (auto simp: zh.add_other tag_names)
  moreover have "zend_hash_find ?m' (KStr t) = zend_hash_find ?mp (KStr t)" if "t \<in> {DD_TAG_DATA, DD_TAG_EVENT}" for t
    using that by (intro unchanged_key [OF extends_all_tags(1) basic_tags_add]) auto
  ultimately show ?thesis by auto
qed

text \<open>
  Property C33: the JSON of the security events and the event marker are put on the root span exactly
  when the request has events, and a blocked request is then marked as blocked.
\<close>

theorem security_event_tags:
  fixes s :: "'a tags_state_scheme"
  assumes "ts_sym_meta s" "root_meta s = Some m"
    and "\<not> zend_hash_exists m (KStr DD_TAG_DATA)" "\<not> zend_hash_exists m (KStr DD_TAG_EVENT)"
  shows "\<exists>m'. root_meta (dd_tags_add_tags c s) = Some m' \<and>
     zend_hash_find m' (KStr DD_TAG_DATA) =
       (if appsec_json_frags s = [] then None
        else Some (ZString (concat_json_fragments (appsec_json_frags s)))) \<and>
     zend_hash_find m' (KStr DD_TAG_EVENT) =
       (if appsec_json_frags s = [] then None else Some (ZString ''true'')) \<and>
     (appsec_json_frags s \<noteq> [] \<and> is_blocked s \<and> tc_server c \<noteq> None \<longrightarrow>
        zend_hash_exists m' (KStr DD_TAG_BLOCKED))"
proof (cases "appsec_json_frags s = []")
  case True
  from no_event_tags [OF assms(1,2) True] assms(3,4) True show ?thesis
    by (simp add: zend_hash_exists_def)
next
  case False
  obtain m1 and s1 :: "'a tags_state_scheme" where
    run: "root_meta (dd_tags_add_tags c s) = Some (add_all_tags_to_meta c s1 m1)"
      "is_blocked s1 = is_blocked s"
      "zend_hash_find m1 (KStr DD_TAG_DATA) = Some (ZString (concat_json_fragments (appsec_json_frags s)))"
      "zend_hash_find m1 (KStr DD_TAG_EVENT) = Some (ZString ''true'')"
    using event_tags_run [OF assms(1,2) False assms(3,4)] by blast
  then show ?thesis
    using False extends_all_tags(2) [of m1 c s1] blocked_tagged [of c s1 m1] by (simp add: extends_def)
qed

definition sample_tags :: tags_state where
  "sample_tags = \<lparr>trace = [], mgr = initial_mgr, launch_failure_fd_lock = -1,
     ts_module = None, ts_loaded = True, ts_version = None, ts_mod_type = 0, ts_mod_number = 0,
     ts_orig_rshutdown = Null_fn, ts_suppress_rshutdown = False, ts_span_meta = True, ts_span_metrics = True,
     ts_sym_flush = True, ts_sym_meta = True, ts_sym_metrics = True, ts_sym_priority = True,
     ts_runtime_id = None, ts_testing = False, ts_trace_enabled = True,
     root_meta = Some [(KStr ''usr.id'', ZString ''root'')], root_metrics = Some [], root_priority = None,
     flush_count = 0, automated_user_events_tracking = SAFE, mode_cstr = Some ''safe'',
     relevant_headers = [], relevant_ip_headers = [], appsec_json_frags_inited = True,
     appsec_json_frags = [''1'', ''2''], event_user_id = None, is_blocked = True, force_keep = False,
     appsec_enabled = ENABLED\<rparr>"

theorem security_event_tags_witness:
  "\<exists>m'. root_meta (dd_tags_add_tags \<lparr>tc_server = None, tc_method = None, tc_request_uri = None,
       tc_response_code = 200, tc_response_headers = [], tc_client_ip = None\<rparr> sample_tags) = Some m' \<and>
     zend_hash_find m' (KStr DD_TAG_DATA) = Some (ZString (DD_DATA_TAG_BEFORE @ ''1,2'' @ DD_DATA_TAG_AFTER))"
  using security_event_tags [of sample_tags "[(KStr ''usr.id'', ZString ''root'')]"
      "\<lparr>tc_server = None, tc_method = None, tc_request_uri = None,
       tc_response_code = 200, tc_response_headers = [], tc_client_ip = None\<rparr>"]
  by (auto simp: sample_tags_def zend_hash_exists_def DD_TAG_DATA_def DD_TAG_EVENT_def
      concat_json_fragments_def)

text \<open>
  The end of a request never changes a tag or a metric the root span already has: every
  entry is still there with its value.
\<close>

theorem add_tags_keeps_entries:
  "rel_option extends (root_meta s) (root_meta (dd_tags_add_tags c s)) \<and>
   rel_option extends (root_metrics s) (root_metrics (dd_tags_add_tags c s))"
  using add_tags_extends [of s c] by (simp add: meta_extends_def)

end
