(* ===== verification/User_Events.thy ===== *)
theory User_Events
  imports Tags
begin

text \<open>
  The user event functions of src/extension/tags.c: signup, login success, login failure and custom
  events, called by the application (the SDK) or by the tracer's integrations (automated), and the
  parser of the automated tracking mode.

  The arguments of a PHP function are a record, or nothing when \<open>zend_parse_parameters\<close> fails. PCRE
  matching and the verdict on a user (src/extension/user\_tracking.c, which may end the request) are
  parameters.
\<close>

section \<open>Event tags\<close>

definition add_custom_event_keyval ::
  "string \<Rightarrow> string \<Rightarrow> string \<Rightarrow> bool \<Rightarrow> zend_array \<Rightarrow> zend_array" where
  "add_custom_event_keyval event key val override meta_ht =
     add_new_zstr_to_meta meta_ht (event @ ''.'' @ key) val override"

definition event_metadata_entry :: "string \<Rightarrow> bool \<Rightarrow> zkey \<times> zval \<Rightarrow> zend_array \<Rightarrow> zend_array" where
  "event_metadata_entry event override b meta_ht =
     (case b of
        (KStr key, ZString val) \<Rightarrow> add_custom_event_keyval event key val override meta_ht
      | _ \<Rightarrow> meta_ht)"

definition add_custom_event_metadata ::
  "string \<Rightarrow> zend_array option \<Rightarrow> bool \<Rightarrow> zend_array \<Rightarrow> zend_array" where
  "add_custom_event_metadata event metadata override meta_ht =
     (case metadata of
        None \<Rightarrow> meta_ht
      | Some md \<Rightarrow> fold (event_metadata_entry event override) md meta_ht)"

section \<open>Sensitive user ids\<close>

type_synonym pcre = "string \<Rightarrow> string \<Rightarrow> zval"

definition match_regex :: "pcre \<Rightarrow> string \<Rightarrow> string \<Rightarrow> bool" where
  "match_regex php_pcre_match_impl pattern subject =
     (if length pattern = 0 then False
      else case php_pcre_match_impl pattern subject of ZLong n \<Rightarrow> n > 0 | _ \<Rightarrow> False)"

definition uuid_regex :: string where
  "uuid_regex = ''/^['' @ [CHR 0x5C] @ ''da-f]{8}-['' @ [CHR 0x5C] @ ''da-f]{4}-['' @ [CHR 0x5C] @
     ''da-f]{4}-['' @ [CHR 0x5C] @ ''da-f]{4}-['' @ [CHR 0x5C] @ ''da-f]{12}$/''"

definition id_regex :: string where
  "id_regex = ''/^'' @ [CHR 0x5C] @ ''d+$/''"

definition is_user_id_sensitive :: "pcre \<Rightarrow> string \<Rightarrow> bool" where
  "is_user_id_sensitive re user_id = (\<not> (match_regex re uuid_regex user_id \<or> match_regex re id_regex user_id))"

section \<open>The event functions\<close>

record event_args =
  ea_user_id :: string
  ea_exists :: bool
  ea_metadata :: "zend_array option"
  ea_automated :: bool

text \<open>
  What an automated event may report: nothing when tracking is off, and in safe mode neither a user
  id that looks sensitive nor any metadata.
\<close>

definition automated_arguments ::
  "pcre \<Rightarrow> automated_user_events_tracking_mode \<Rightarrow> event_args \<Rightarrow> (string option \<times> zend_array option) option" where
  "automated_arguments re mode a =
     (if mode = NOT_ENABLED then None
      else if mode = SAFE then
        Some (if is_user_id_sensitive re (ea_user_id a) then None else Some (ea_user_id a),
              case ea_metadata a of
                Some md \<Rightarrow> if length md > 0 then None else Some md
              | None \<Rightarrow> None)
      else Some (Some (ea_user_id a), ea_metadata a))"

text \<open>The arguments of a signup or a login success: an SDK call needs a user id.\<close>

definition event_arguments ::
  "pcre \<Rightarrow> automated_user_events_tracking_mode \<Rightarrow> event_args \<Rightarrow> (string option \<times> zend_array option) option" where
  "event_arguments re mode a =
     (if ea_automated a then automated_arguments re mode a
      else if length (ea_user_id a) = 0 then None
      else Some (Some (ea_user_id a), ea_metadata a))"

definition with_meta :: "(zend_array \<Rightarrow> zend_array) \<Rightarrow> 'a tags_state_scheme \<Rightarrow> 'a tags_state_scheme" where
  "with_meta f s = s\<lparr>root_meta := map_option f (root_meta s)\<rparr>"

definition add_user_id :: "string option \<Rightarrow> bool \<Rightarrow> zend_array \<Rightarrow> zend_array" where
  "add_user_id user_id override meta_ht =
     (case user_id of
        Some uid \<Rightarrow> if length uid > 0 then add_new_zstr_to_meta meta_ht DD_TAG_USER_ID uid override else meta_ht
      | None \<Rightarrow> meta_ht)"

text \<open>How the event was reported: the tracking mode for an automated one, else the SDK.\<close>

definition add_event_source ::
  "string \<Rightarrow> string \<Rightarrow> bool \<Rightarrow> 'a tags_state_scheme \<Rightarrow> zend_array \<Rightarrow> zend_array" where
  "add_event_source auto_tag sdk_tag automated s meta_ht =
     (if automated then
        (case mode_cstr s of
           Some mode \<Rightarrow>
             if automated_user_events_tracking s \<noteq> NOT_ENABLED
             then add_new_zstr_to_meta meta_ht auto_tag mode (\<not> automated) else meta_ht
         | None \<Rightarrow> meta_ht)
      else add_new_zstr_to_meta meta_ht sdk_tag ''true'' (\<not> automated))"

text \<open>The tags of a signup; \<open>s\<close> is the state the tracking mode is read from.\<close>

definition signup_tags ::
  "string option \<Rightarrow> zend_array option \<Rightarrow> event_args \<Rightarrow> 'a tags_state_scheme \<Rightarrow> zend_array \<Rightarrow> zend_array" where
  "signup_tags user_id metadata a s m0 =
     (let override = (\<not> ea_automated a);
          m1 = add_user_id user_id override m0;
          m2 = add_event_source DD_EVENTS_USER_SIGNUP_AUTO_MODE DD_EVENTS_USER_SIGNUP_SDK (ea_automated a) s m1;
          m3 = add_custom_event_metadata DD_SIGNUP_EVENT metadata override m2
      in add_custom_event_keyval DD_SIGNUP_EVENT ''track'' ''true'' override m3)"

definition track_user_signup_event ::
  "pcre \<Rightarrow> event_args option \<Rightarrow> 'a tags_state_scheme \<Rightarrow> 'a tags_state_scheme" where
  "track_user_signup_event re args s =
     (if appsec_enabled s \<noteq> ENABLED then s
      else case args of
        None \<Rightarrow> s
      | Some a \<Rightarrow>
          (case event_arguments re (automated_user_events_tracking s) a of
             None \<Rightarrow> s
           | Some (user_id, metadata) \<Rightarrow>
               if dd_trace_root_span_get_meta s = None then s
               else dd_tags_set_sampling_priority (with_meta (signup_tags user_id metadata a s) s)))"

definition login_success_tags ::
  "string option \<Rightarrow> zend_array option \<Rightarrow> event_args \<Rightarrow> 'a tags_state_scheme \<Rightarrow> zend_array \<Rightarrow> zend_array" where
  "login_success_tags user_id metadata a s m0 =
     (let override = (\<not> ea_automated a);
          m1 = add_user_id user_id override m0;
          m2 = add_event_source DD_EVENTS_USER_LOGIN_SUCCESS_AUTO_MODE DD_EVENTS_USER_LOGIN_SUCCESS_SDK
                 (ea_automated a) s m1;
          m3 = add_custom_event_keyval DD_LOGIN_SUCCESS_EVENT ''track'' ''true'' override m2
      in add_custom_event_metadata DD_LOGIN_SUCCESS_EVENT metadata override m3)"

text \<open>\<open>False\<close> is a request that the verdict on the user ended.\<close>

definition track_user_login_success_event ::
  "(string \<Rightarrow> 'a tags_state_scheme \<Rightarrow> bool \<times> 'a tags_state_scheme) \<Rightarrow>
     pcre \<Rightarrow> event_args option \<Rightarrow> 'a tags_state_scheme \<Rightarrow> bool \<times> 'a tags_state_scheme" where
  "track_user_login_success_event apply_verdict re args s =
     (if appsec_enabled s \<noteq> ENABLED then (True, s)
      else case args of
        None \<Rightarrow> (True, s)
      | Some a \<Rightarrow>
          (case event_arguments re (automated_user_events_tracking s) a of
             None \<Rightarrow> (True, s)
           | Some (user_id, metadata) \<Rightarrow>
               if dd_trace_root_span_get_meta s = None then (True, s)
               else (let (returns, s1) = (case user_id of
                            Some uid \<Rightarrow> if length uid > 0 then apply_verdict uid s else (True, s)
                          | None \<Rightarrow> (True, s))
                 in if \<not> returns then (False, s1)
                    else (True, dd_tags_set_sampling_priority
                      (with_meta (login_success_tags user_id metadata a s1) s1)))))"

definition add_failed_user_id :: "string option \<Rightarrow> bool \<Rightarrow> zend_array \<Rightarrow> zend_array" where
  "add_failed_user_id user_id override meta_ht =
     (case user_id of
        Some uid \<Rightarrow>
          if length uid > 0
          then add_custom_event_keyval DD_LOGIN_FAILURE_EVENT DD_TAG_USER_ID uid override meta_ht else meta_ht
      | None \<Rightarrow> meta_ht)"

definition login_failure_tags ::
  "string option \<Rightarrow> zend_array option \<Rightarrow> event_args \<Rightarrow> 'a tags_state_scheme \<Rightarrow> zend_array \<Rightarrow> zend_array" where
  "login_failure_tags user_id metadata a s m0 =
     (let override = (\<not> ea_automated a);
          m1 = add_failed_user_id user_id override m0;
          m2 = add_custom_event_keyval DD_LOGIN_FAILURE_EVENT ''track'' ''true'' override m1;
          m3 = add_event_source DD_EVENTS_USER_LOGIN_FAILURE_AUTO_MODE DD_EVENTS_USER_LOGIN_FAILURE_SDK
                 (ea_automated a) s m2;
          m4 = add_custom_event_keyval DD_LOGIN_FAILURE_EVENT ''usr.exists''
                 (if ea_exists a then ''true'' else ''false'') override m3
      in add_custom_event_metadata DD_LOGIN_FAILURE_EVENT metadata override m4)"

definition track_user_login_failure_event ::
  "pcre \<Rightarrow> event_args option \<Rightarrow> 'a tags_state_scheme \<Rightarrow> 'a tags_state_scheme" where
  "track_user_login_failure_event re args s =
     (if appsec_enabled s \<noteq> ENABLED then s
      else case args of
        None \<Rightarrow> s
      | Some a \<Rightarrow>
          (case (if ea_automated a then automated_arguments re (automated_user_events_tracking s) a
                 else Some (Some (ea_user_id a), ea_metadata a)) of
             None \<Rightarrow> s
           | Some (user_id, metadata) \<Rightarrow>
               if dd_trace_root_span_get_meta s = None then s
               else dd_tags_set_sampling_priority (with_meta (login_failure_tags user_id metadata a s) s)))"

definition track_custom_event ::
  "(string \<times> zend_array option) option \<Rightarrow> 'a tags_state_scheme \<Rightarrow> 'a tags_state_scheme" where
  "track_custom_event args s =
     (if appsec_enabled s \<noteq> ENABLED then s
      else case args of
        None \<Rightarrow> s
      | Some (event_name, metadata) \<Rightarrow>
          if length event_name = 0 then s
          else if dd_trace_root_span_get_meta s = None then s
          else (let event = DD_APPSEC_EVENTS_PREFIX @ event_name in
            dd_tags_set_sampling_priority (with_meta (\<lambda>m0.
              let m1 = add_custom_event_keyval event ''track'' ''true'' True m0
              in add_custom_event_metadata event metadata True m1) s)))"

section \<open>The tracking mode\<close>

definition dd_parse_automated_user_events_tracking ::
  "string \<Rightarrow> 'a tags_state_scheme \<Rightarrow> string option \<times> 'a tags_state_scheme" where
  "dd_parse_automated_user_events_tracking val s =
     (if length val = 0 then (None, s)
      else let v = c_str val in
        if dd_string_equals_lc v ''safe''
        then (Some val, s\<lparr>automated_user_events_tracking := SAFE, mode_cstr := Some ''safe''\<rparr>)
        else if dd_string_equals_lc v ''extended''
        then (Some val, s\<lparr>automated_user_events_tracking := EXTENDED, mode_cstr := Some ''extended''\<rparr>)
        else if dd_string_equals_lc v ''disabled''
        then (Some val, s\<lparr>automated_user_events_tracking := NOT_ENABLED, mode_cstr := None\<rparr>)
        else (None, s))"

section \<open>What an event may write\<close>

lemma extends_event_rules [tag_rules]:
  "extends m (add_custom_event_keyval event key val False m)"
  "extends m (add_custom_event_metadata event md False m)"
  "extends m (add_user_id u False m)"
  "extends m (add_failed_user_id u False m)"
  "extends m (add_event_source at st True s m)"
proof -
  have "extends m (event_metadata_entry event False b m)" for b and m :: zend_array
    by (auto simp: event_metadata_entry_def add_custom_event_keyval_def tag_rules
        split: prod.splits zkey.splits zval.splits)
  then show "extends m (add_custom_event_metadata event md False m)"
    by (auto simp: add_custom_event_metadata_def extends_fold tag_rules split: option.splits)
qed (auto simp: add_custom_event_keyval_def add_user_id_def add_failed_user_id_def add_event_source_def tag_rules split: option.splits)

lemmas extends_event_steps = extends_event_rules [THEN [2] extends_trans] extends_refl

text \<open>An event writes only values with \<open>P\<close>.\<close>

abbreviation adds_values :: "(string \<Rightarrow> bool) \<Rightarrow> zend_array \<Rightarrow> zend_array \<Rightarrow> bool" where
  "adds_values P \<equiv> adds_entries (\<lambda>k v. \<exists>t. v = ZString t \<and> P t)"

lemma adds_keyval: "P val \<Longrightarrow> adds_values P m (add_custom_event_keyval event key val override m)"
  unfolding add_custom_event_keyval_def by (rule adds_add_new) simp

lemma adds_empty_metadata:
  "md = None \<or> md = Some [] \<Longrightarrow> adds_values P m (add_custom_event_metadata event md override m)"
  by (auto simp: add_custom_event_metadata_def adds_entries_refl)

lemma adds_user_id: "(\<And>u. uid = Some u \<Longrightarrow> P u) \<Longrightarrow> adds_values P m (add_user_id uid override m)"
  by (auto simp: add_user_id_def intro!: adds_add_new adds_entries_refl split: option.splits)

lemma adds_failed_user_id:
  "(\<And>u. uid = Some u \<Longrightarrow> P u) \<Longrightarrow> adds_values P m (add_failed_user_id uid override m)"
  by (auto simp: add_failed_user_id_def intro!: adds_keyval adds_entries_refl split: option.splits)

lemma adds_event_source:
  "P ''true'' \<Longrightarrow> (\<And>md. mode_cstr s = Some md \<Longrightarrow> P md) \<Longrightarrow> adds_values P m (add_event_source at st au s m)"
  by (auto simp: add_event_source_def intro!: adds_add_new adds_entries_refl split: option.splits)

lemmas adds_event_steps =
  adds_keyval [THEN [2] adds_entries_trans] adds_empty_metadata [THEN [2] adds_entries_trans]
  adds_user_id [THEN [2] adds_entries_trans] adds_failed_user_id [THEN [2] adds_entries_trans]
  adds_event_source [THEN [2] adds_entries_trans]
  adds_entries_refl

lemma extends_event_tags:
  assumes "ea_automated a"
  shows "extends m (signup_tags u md a s m)" "extends m (login_success_tags u md a s m)"
    "extends m (login_failure_tags u md a s m)"
proof -
  from assms have auto: "ea_automated a = True" by simp
  show "extends m (signup_tags u md a s m)" "extends m (login_success_tags u md a s m)"
    "extends m (login_failure_tags u md a s m)"
    unfolding signup_tags_def login_success_tags_def login_failure_tags_def Let_def auto not_True_eq_False
    by (intro extends_event_steps)+
qed

lemma adds_event_tags:
  assumes "P ''true''" "P ''false''" "\<And>x. u = Some x \<Longrightarrow> P x" "\<And>x. mode_cstr s = Some x \<Longrightarrow> P x"
    and "md = None \<or> md = Some []"
  shows "adds_values P m (signup_tags u md a s m)" "adds_values P m (login_success_tags u md a s m)"
    "adds_values P m (login_failure_tags u md a s m)"
  unfolding signup_tags_def login_success_tags_def login_failure_tags_def Let_def
  by (intro adds_event_steps; use assms in simp)+

section \<open>Properties\<close>

text \<open>The values that reveal nothing about a user.\<close>

definition harmless :: "pcre \<Rightarrow> event_args \<Rightarrow> string \<Rightarrow> bool" where
  "harmless re a t \<longleftrightarrow>
     t \<in> {''true'', ''false'', ''safe''} \<or> t = ea_user_id a \<and> \<not> is_user_id_sensitive re t"

lemma safe_arguments:
  assumes "ea_automated a"
  shows "\<exists>u md. event_arguments re SAFE a = Some (u, md) \<and> automated_arguments re SAFE a = Some (u, md) \<and>
    (md = None \<or> md = Some []) \<and> u = (if is_user_id_sensitive re (ea_user_id a) then None else Some (ea_user_id a))"
  using assms by (auto simp: event_arguments_def automated_arguments_def split: option.splits)



end
