(* ===== verification/Request_Abort.thy ===== *)
theory Request_Abort
  imports User_Events
begin

text \<open>
  src/extension/request\_abort.c: ending a request with a static page or a redirection.

  The state extends that of the tags with what the module keeps (the block and redirection settings
  and the custom pages) and the PHP globals it reads and writes. What it asks of PHP's SAPI, output
  and error functions is the list \<open>sapi_ops\<close> of operations in order; their results are only logged.
  An operation that ends the request (an error of level \<open>E_ERROR\<close> bails out) does not return, which
  is the outcome \<open>Bailed_out\<close>. The extension's own request shutdown, run from here when a request is
  blocked while it starts, is an argument.
\<close>

datatype dd_response_type = response_type_auto | response_type_html | response_type_json

definition DEFAULT_BLOCKING_RESPONSE_CODE :: int where "DEFAULT_BLOCKING_RESPONSE_CODE = 403"
definition DEFAULT_REDIRECTION_RESPONSE_CODE :: int where "DEFAULT_REDIRECTION_RESPONSE_CODE = 303"
definition DEFAULT_RESPONSE_TYPE :: dd_response_type where "DEFAULT_RESPONSE_TYPE = response_type_auto"
definition HTML_CONTENT_TYPE :: string where "HTML_CONTENT_TYPE = ''text/html''"
definition JSON_CONTENT_TYPE :: string where "JSON_CONTENT_TYPE = ''application/json''"

definition static_error_html :: string where
  "static_error_html =
    ''<!DOCTYPE html><html lang='' @ [CHR 0x22] @ ''en'' @ [CHR 0x22] @ ''><head><meta charset='' @
    [CHR 0x22] @ ''UTF-8'' @ [CHR 0x22] @ ''><meta '' @ ''name='' @ [CHR 0x22] @ ''viewport'' @
    [CHR 0x22] @ '' '' @ ''content='' @ [CHR 0x22] @ ''width=device-width,initial-scale=1'' @ [CHR 0x22] @
    ''><title>You'' @ [CHR 0x27] @ ''ve been '' @ ''blocked</'' @
    ''title><style>a,body,div,html,span{margin:0;padding:0;border:0;font-size:'' @
    ''100%;font:inherit;vertical-align:baseline}body{background:-webkit-radial-'' @
    ''gradient(26% 19%,circle,#fff,#f4f7f9);background:radial-gradient(circle '' @ ''at 26% '' @
    ''19%,#fff,#f4f7f9);display:-webkit-box;display:-ms-flexbox;display:flex;-'' @
    ''webkit-box-pack:center;-ms-flex-pack:center;justify-content:center;-'' @
    ''webkit-box-align:center;-ms-flex-align:center;align-items:center;-ms-flex-'' @
    ''line-pack:center;align-content:center;width:100%;min-height:100vh;line-'' @
    ''height:1;flex-direction:column}p{display:block}main{text-align:center;'' @
    ''flex:1;display:-webkit-box;display:-ms-flexbox;display:flex;-webkit-box-'' @
    ''pack:center;-ms-flex-pack:center;justify-content:center;-webkit-box-align:'' @
    ''center;-ms-flex-align:center;align-items:center;-ms-flex-line-pack:center;'' @
    ''align-content:center;flex-direction:column}p{font-size:18px;line-height:'' @
    ''normal;color:#646464;font-family:sans-serif;font-weight:400}a{color:#'' @
    ''4842b7}footer{width:100%;text-align:center}footer '' @
    ''p{font-size:16px}</style></head><body><main><p>Sorry, you cannot access '' @
    ''this page. Please contact the customer service '' @
    ''team.</p></main><footer><p>Security provided by <a '' @ ''href='' @ [CHR 0x22] @
    ''https://www.datadoghq.com/product/security-platform/'' @ ''application-security-monitoring/'' @
    [CHR 0x22] @ '' '' @ ''target='' @ [CHR 0x22] @ ''_blank'' @ [CHR 0x22] @
    ''>Datadog</a></p></footer></body></html>''"

definition static_error_json :: string where
  "static_error_json =
    ''{'' @ [CHR 0x22] @ ''errors'' @ [CHR 0x22] @ '': [{'' @ [CHR 0x22] @ ''title'' @ [CHR 0x22] @
    '': '' @ [CHR 0x22] @ ''You'' @ [CHR 0x27] @ ''ve been blocked'' @ [CHR 0x22] @ '', '' @ [CHR 0x22] @
    ''detail'' @ [CHR 0x22] @ '': '' @ [CHR 0x22] @ ''Sorry, yo'' @
    ''u cannot access this page. Please contact the customer service team. Secur'' @
    ''ity provided by Datadog.'' @ [CHR 0x22] @ ''}]}''"

section \<open>State\<close>

datatype php_error_level = E_WARNING | E_COMPILE_WARNING | E_ERROR

datatype sapi_op =
    Header_delete_all
  | Header_replace string
  | Output_discard_all
  | Output_write string
  | Sapi_flush
  | Php_error php_error_level string
  | Alter_ini string string
  | Module_rshutdown string

datatype outcome_kind = Returned | Bailed_out

record abort_state = tags_state +
  custom_error_html :: "string option"
  custom_error_json :: "string option"
  block_response_code :: int
  block_response_type :: dd_response_type
  redirection_response_code :: int
  redirection_location :: "string option"
  sapi_ops :: "sapi_op list"
  og_active :: bool
  og_running :: bool
  og_handlers :: nat
  headers_sent :: bool
  http_response_code :: int
  request_method :: "string option"
  sapi_name :: string
  during_request_startup :: bool
  during_request_shutdown :: bool
  skip_rshutdown :: bool
  user_error_handler :: bool
  user_exception_handler :: bool
  module_registry :: "(string \<times> bool) list"
  enabled_by_configuration :: enabled_configuration

definition sapi :: "sapi_op \<Rightarrow> 'a abort_state_scheme \<Rightarrow> 'a abort_state_scheme" where
  "sapi op s = s\<lparr>sapi_ops := sapi_ops s @ [op]\<rparr>"

section \<open>Settings\<close>

definition dd_set_block_code_and_type ::
  "int \<Rightarrow> dd_response_type \<Rightarrow> 'a abort_state_scheme \<Rightarrow> 'a abort_state_scheme" where
  "dd_set_block_code_and_type code type s = s\<lparr>block_response_code := code, block_response_type := type\<rparr>"

definition dd_set_redirect_code_and_location ::
  "int \<Rightarrow> string option \<Rightarrow> 'a abort_state_scheme \<Rightarrow> 'a abort_state_scheme" where
  "dd_set_redirect_code_and_location code location s =
     s\<lparr>redirection_response_code :=
         (if code \<ge> 300 \<and> code < 400 then code else DEFAULT_REDIRECTION_RESPONSE_CODE),
       redirection_location := location\<rparr>"

text \<open>
  The custom pages; \<open>read_file_contents\<close> is a parameter, the contents of a file or nothing when it
  cannot be opened or read.
\<close>

definition custom_page :: "(string \<Rightarrow> string option) \<Rightarrow> string option \<Rightarrow> string option \<Rightarrow> string option" where
  "custom_page read_file_contents template_file current =
     (case template_file of
        None \<Rightarrow> current
      | Some file \<Rightarrow>
          if length file = 0 then current
          else case read_file_contents (c_str file) of
            None \<Rightarrow> None
          | Some contents \<Rightarrow> if length contents = 0 then None else Some contents)"

definition dd_request_abort_rinit_once ::
  "(string \<Rightarrow> string option) \<Rightarrow> string option \<Rightarrow> string option \<Rightarrow>
     'a abort_state_scheme \<Rightarrow> 'a abort_state_scheme" where
  "dd_request_abort_rinit_once read_file_contents json_template html_template s =
     s\<lparr>custom_error_json := custom_page read_file_contents json_template (custom_error_json s),
       custom_error_html := custom_page read_file_contents html_template (custom_error_html s)\<rparr>"

section \<open>The type of the response\<close>

text \<open>A media type found at some place of the header must be followed by a separator or the end.\<close>

definition accepts :: "string \<Rightarrow> string \<Rightarrow> bool" where
  "accepts accept media_type =
     (case memmem accept media_type of
        None \<Rightarrow> False
      | Some i \<Rightarrow>
          (let e = i + length media_type in
           e \<le> length accept \<and> (e = length accept \<or> accept ! e \<in> {CHR '','', nul, CHR '';''})))"

definition get_response_type_from_accept_header :: "zval option \<Rightarrow> dd_response_type" where
  "get_response_type_from_accept_header server =
     (case server of
        None \<Rightarrow> response_type_json
      | Some sv \<Rightarrow>
          (case dd_php_get_string_elem_cstr (Some (arrval sv)) ''HTTP_ACCEPT'' of
             None \<Rightarrow> response_type_json
           | Some accept \<Rightarrow>
               if accepts accept JSON_CONTENT_TYPE then response_type_json
               else if accepts accept HTML_CONTENT_TYPE then response_type_html
               else response_type_json))"

section \<open>Bailing out\<close>

text \<open>The modules whose RSHUTDOWN is run; the list is the registry from its end to its start.\<close>

fun run_rshutdowns_loop :: "bool \<Rightarrow> (string \<times> bool) list \<Rightarrow> 'a abort_state_scheme \<Rightarrow> 'a abort_state_scheme" where
  "run_rshutdowns_loop found [] s = s"
| "run_rshutdowns_loop found ((name, has_rshutdown) # ms) s =
     (if \<not> found \<and> name = ''ddappsec'' then run_rshutdowns_loop True ms s
      else if \<not> has_rshutdown then run_rshutdowns_loop found ms s
      else if found then run_rshutdowns_loop found ms (sapi (Module_rshutdown name) s)
      else run_rshutdowns_loop found ms s)"

definition run_rshutdowns :: "'a abort_state_scheme \<Rightarrow> 'a abort_state_scheme" where
  "run_rshutdowns s = run_rshutdowns_loop False (rev (module_registry s)) s"

definition suppress_error_reporting :: "'a abort_state_scheme \<Rightarrow> 'a abort_state_scheme" where
  "suppress_error_reporting s = sapi (Alter_ini ''error_reporting'' ''0'') s"

definition emit_error_tail :: "string \<Rightarrow> 'a abort_state_scheme \<Rightarrow> outcome_kind \<times> 'a abort_state_scheme" where
  "emit_error_tail msg s =
     (let s1 = sapi (Php_error E_COMPILE_WARNING msg) s;
          s2 = suppress_error_reporting s1
      in (Bailed_out, sapi (Php_error E_ERROR msg) s2))"

definition emit_error ::
  "('a abort_state_scheme \<Rightarrow> 'a abort_state_scheme) \<Rightarrow> string \<Rightarrow>
     'a abort_state_scheme \<Rightarrow> outcome_kind \<times> 'a abort_state_scheme" where
  "emit_error appsec_rshutdown msg s =
     (if during_request_startup s then
        (let s1 = (if \<not> ts_testing s then (appsec_rshutdown s)\<lparr>skip_rshutdown := True\<rparr> else s);
             s2 = dd_trace_close_all_spans_and_flush s1
         in if sapi_name s2 = ''fpm-fcgi''
            then (Returned, (sapi (Php_error E_WARNING msg) s2)\<lparr>request_method := None\<rparr>)
            else emit_error_tail msg (run_rshutdowns s2))
      else emit_error_tail msg (s\<lparr>user_error_handler := False, user_exception_handler := False\<rparr>))"

section \<open>Aborting\<close>

definition msg_committed :: string where
  "msg_committed = ''Datadog blocked the request, but the response has already been partially committed''"

definition msg_static_page :: string where
  "msg_static_page = ''Datadog blocked the request and presented a static error page''"

definition msg_redirect :: "string \<Rightarrow> string" where
  "msg_redirect location = ''Datadog blocked the request and attempted a redirection to '' @ c_str location"

text \<open>The end of both ways to abort: only a log message when the request is already shutting down.\<close>

definition abort_finish ::
  "('a abort_state_scheme \<Rightarrow> 'a abort_state_scheme) \<Rightarrow> string \<Rightarrow>
     'a abort_state_scheme \<Rightarrow> outcome_kind \<times> 'a abort_state_scheme" where
  "abort_finish appsec_rshutdown msg s =
     (if during_request_shutdown s then (Returned, s) else emit_error appsec_rshutdown msg s)"

definition force_destroy_output_handlers :: "'a abort_state_scheme \<Rightarrow> 'a abort_state_scheme" where
  "force_destroy_output_handlers s = s\<lparr>og_active := False, og_running := False, og_handlers := 0\<rparr>"

text \<open>Whether to go on, and the outcome when the request ended in the prelude.\<close>

definition abort_prelude ::
  "('a abort_state_scheme \<Rightarrow> 'a abort_state_scheme) \<Rightarrow>
     'a abort_state_scheme \<Rightarrow> bool \<times> outcome_kind \<times> 'a abort_state_scheme" where
  "abort_prelude appsec_rshutdown s =
     (let s1 = (if og_running s then force_destroy_output_handlers s else s) in
      if headers_sent s1 then
        (if during_request_shutdown s1 then (False, Returned, s1)
         else (False, emit_error appsec_rshutdown msg_committed s1))
      else (True, Returned, sapi Output_discard_all (sapi Header_delete_all s1)))"

definition set_content_type :: "string \<Rightarrow> 'a abort_state_scheme \<Rightarrow> 'a abort_state_scheme" where
  "set_content_type content_type s = sapi (Header_replace (''Content-type: '' @ content_type)) s"

definition set_output :: "string \<Rightarrow> 'a abort_state_scheme \<Rightarrow> 'a abort_state_scheme" where
  "set_output output s = sapi (Output_write output) s"

definition set_page :: "dd_response_type \<Rightarrow> 'a abort_state_scheme \<Rightarrow> 'a abort_state_scheme" where
  "set_page response_type s =
     (case response_type of
        response_type_html \<Rightarrow>
          set_output (case custom_error_html s of Some p \<Rightarrow> p | None \<Rightarrow> static_error_html)
            (set_content_type HTML_CONTENT_TYPE s)
      | response_type_json \<Rightarrow>
          set_output (case custom_error_json s of Some p \<Rightarrow> p | None \<Rightarrow> static_error_json)
            (set_content_type JSON_CONTENT_TYPE s)
      | response_type_auto \<Rightarrow> s)"

definition request_abort_static_page ::
  "('a abort_state_scheme \<Rightarrow> 'a abort_state_scheme) \<Rightarrow> zval option \<Rightarrow> int \<Rightarrow> dd_response_type \<Rightarrow>
     'a abort_state_scheme \<Rightarrow> outcome_kind \<times> 'a abort_state_scheme" where
  "request_abort_static_page appsec_rshutdown server response_code type s =
     (case abort_prelude appsec_rshutdown s of
        (False, out, s1) \<Rightarrow> (out, s1)
      | (True, _, s1) \<Rightarrow>
          (let s2 = s1\<lparr>http_response_code := response_code\<rparr>;
               response_type = (if type = response_type_auto
                  then get_response_type_from_accept_header server else type);
               s3 = sapi Sapi_flush (set_page response_type s2)
           in abort_finish appsec_rshutdown msg_static_page s3))"

definition dd_request_abort_static_page ::
  "('a abort_state_scheme \<Rightarrow> 'a abort_state_scheme) \<Rightarrow> zval option \<Rightarrow>
     'a abort_state_scheme \<Rightarrow> outcome_kind \<times> 'a abort_state_scheme" where
  "dd_request_abort_static_page appsec_rshutdown server s =
     request_abort_static_page appsec_rshutdown server (block_response_code s) (block_response_type s) s"

definition dd_request_abort_redirect ::
  "('a abort_state_scheme \<Rightarrow> 'a abort_state_scheme) \<Rightarrow> zval option \<Rightarrow>
     'a abort_state_scheme \<Rightarrow> outcome_kind \<times> 'a abort_state_scheme" where
  "dd_request_abort_redirect appsec_rshutdown server s =
     (case redirection_location s of
        None \<Rightarrow> request_abort_static_page appsec_rshutdown server DEFAULT_BLOCKING_RESPONSE_CODE DEFAULT_RESPONSE_TYPE s
      | Some location \<Rightarrow>
          if length location = 0
          then request_abort_static_page appsec_rshutdown server DEFAULT_BLOCKING_RESPONSE_CODE DEFAULT_RESPONSE_TYPE s
          else case abort_prelude appsec_rshutdown s of
            (False, out, s1) \<Rightarrow> (out, s1)
          | (True, _, s1) \<Rightarrow>
              (let s2 = s1\<lparr>http_response_code := redirection_response_code s1\<rparr>;
                   s3 = sapi Sapi_flush (sapi (Header_replace (''Location: '' @ c_str location)) s2)
               in abort_finish appsec_rshutdown (msg_redirect location) s3))"

section \<open>A blocked request ends\<close>

lemma sapi_frame [simp]:
  "during_request_shutdown (sapi op s) = during_request_shutdown s"
  "during_request_startup (sapi op s) = during_request_startup s"
  "sapi_name (sapi op s) = sapi_name s"
  "headers_sent (sapi op s) = headers_sent s"
  "http_response_code (sapi op s) = http_response_code s"
  "sapi_ops (sapi op s) = sapi_ops s @ [op]"
  by (simp_all add: sapi_def)

lemma set_page_frame [simp]:
  "during_request_shutdown (set_page t s) = during_request_shutdown s"
  "during_request_startup (set_page t s) = during_request_startup s"
  "sapi_name (set_page t s) = sapi_name s"
  by (cases t; simp add: set_page_def set_output_def set_content_type_def)+

lemma abort_prelude_cases:
  obtains (go) s1 where "abort_prelude f s = (True, Returned, s1)" "\<not> headers_sent s"
      "during_request_shutdown s1 = during_request_shutdown s" "during_request_startup s1 = during_request_startup s"
      "sapi_name s1 = sapi_name s" "sapi_ops s1 = sapi_ops s @ [Header_delete_all, Output_discard_all]"
      "custom_error_html s1 = custom_error_html s" "custom_error_json s1 = custom_error_json s"
      "redirection_response_code s1 = redirection_response_code s"
    | (shut) s1 where "abort_prelude f s = (False, Returned, s1)" "during_request_shutdown s" "headers_sent s"
    | (sent) s1 msg where "abort_prelude f s = (False, emit_error f msg s1)" "headers_sent s"
      "\<not> during_request_shutdown s"
      "during_request_startup s1 = during_request_startup s" "sapi_name s1 = sapi_name s"
proof -
  let ?s = "if og_running s then force_destroy_output_handlers s else s"
  have "headers_sent ?s = headers_sent s" "during_request_shutdown ?s = during_request_shutdown s"
    "during_request_startup ?s = during_request_startup s" "sapi_name ?s = sapi_name s"
    "sapi_ops ?s = sapi_ops s" "custom_error_html ?s = custom_error_html s"
    "custom_error_json ?s = custom_error_json s" "redirection_response_code ?s = redirection_response_code s"
    by (simp_all add: force_destroy_output_handlers_def)
  note frame = this
  show thesis
  proof (cases "headers_sent s")
    case False
    show ?thesis
      by (rule go [of "sapi Output_discard_all (sapi Header_delete_all ?s)"])
         (use False frame in \<open>simp_all add: abort_prelude_def Let_def sapi_def\<close>)
  next
    case True
    show ?thesis
    proof (cases "during_request_shutdown s")
      case True
      with \<open>headers_sent s\<close> frame show ?thesis by (intro shut [of ?s]) (simp_all add: abort_prelude_def Let_def)
    next
      case False
      with True frame show ?thesis
        by (intro sent [of msg_committed ?s]) (simp_all add: abort_prelude_def Let_def)
    qed
  qed
qed

text \<open>The outcome of an abort: it returns to the caller only in two situations.\<close>

definition abort_ok :: "'a abort_state_scheme \<Rightarrow> outcome_kind \<times> 'a abort_state_scheme \<Rightarrow> bool" where
  "abort_ok s r \<longleftrightarrow>
     (if during_request_shutdown s then fst r = Returned
      else if during_request_startup s \<and> sapi_name s = ''fpm-fcgi''
      then fst r = Returned \<and> request_method (snd r) = None
      else fst r = Bailed_out)"

text \<open>The calls that put a page out.\<close>

definition page_ops :: "dd_response_type \<Rightarrow> 'a abort_state_scheme \<Rightarrow> sapi_op list" where
  "page_ops t s =
     (case t of
        response_type_html \<Rightarrow>
          [Header_replace (''Content-type: '' @ HTML_CONTENT_TYPE),
           Output_write (case custom_error_html s of Some p \<Rightarrow> p | None \<Rightarrow> static_error_html)]
      | response_type_json \<Rightarrow>
          [Header_replace (''Content-type: '' @ JSON_CONTENT_TYPE),
           Output_write (case custom_error_json s of Some p \<Rightarrow> p | None \<Rightarrow> static_error_json)]
      | response_type_auto \<Rightarrow> [])"

lemma set_page_ops: "sapi_ops (set_page t s) = sapi_ops s @ page_ops t s"
  by (cases t) (simp_all add: set_page_def page_ops_def set_output_def set_content_type_def sapi_def)

lemma set_page_code: "http_response_code (set_page t s) = http_response_code s"
  by (cases t) (simp_all add: set_page_def set_output_def set_content_type_def)

lemma run_rshutdowns_frame:
  "http_response_code (run_rshutdowns_loop found ms s) = http_response_code s"
  "\<exists>ops. sapi_ops (run_rshutdowns_loop found ms s) = sapi_ops s @ ops"
  by (induction found ms s rule: run_rshutdowns_loop.induct) auto

lemma flush_frame:
  "during_request_startup (dd_trace_close_all_spans_and_flush s) = during_request_startup s"
  "sapi_name (dd_trace_close_all_spans_and_flush s) = sapi_name s"
  "sapi_ops (dd_trace_close_all_spans_and_flush s) = sapi_ops s"
  "http_response_code (dd_trace_close_all_spans_and_flush s) = http_response_code s"
  by (simp_all add: dd_trace_close_all_spans_and_flush_def)

lemma emit_error_tail_frame:
  "fst (emit_error_tail msg s) = Bailed_out"
  "http_response_code (snd (emit_error_tail msg s)) = http_response_code s"
  "\<exists>ops. sapi_ops (snd (emit_error_tail msg s)) = sapi_ops s @ ops"
  by (simp_all add: emit_error_tail_def suppress_error_reporting_def Let_def)

text \<open>
  What aborting a request relies on in the extension's request shutdown, which it runs when the
  request is blocked while it starts: it leaves alone the phase of the request, the name of the
  SAPI, the response code, and does no output of its own.
\<close>

locale rshutdown_contract =
  fixes rshutdown :: "'a abort_state_scheme \<Rightarrow> 'a abort_state_scheme"
  assumes keeps_startup: "during_request_startup (rshutdown s) = during_request_startup s"
    and keeps_sapi_name: "sapi_name (rshutdown s) = sapi_name s"
    and keeps_sapi_ops: "sapi_ops (rshutdown s) = sapi_ops s"
    and keeps_response_code: "http_response_code (rshutdown s) = http_response_code s"
begin

lemma emit_error_startup:
  assumes "during_request_startup s"
  obtains s2 where "sapi_name s2 = sapi_name s" "sapi_ops s2 = sapi_ops s"
    "http_response_code s2 = http_response_code s"
    "emit_error rshutdown msg s =
       (if sapi_name s = ''fpm-fcgi''
        then (Returned, (sapi (Php_error E_WARNING msg) s2)\<lparr>request_method := None\<rparr>)
        else emit_error_tail msg (run_rshutdowns s2))"
proof
  let ?s2 = "dd_trace_close_all_spans_and_flush
      (if \<not> ts_testing s then (rshutdown s)\<lparr>skip_rshutdown := True\<rparr> else s)"
  show frame: "sapi_name ?s2 = sapi_name s" "sapi_ops ?s2 = sapi_ops s"
    "http_response_code ?s2 = http_response_code s"
    by (simp_all add: flush_frame keeps_sapi_name keeps_sapi_ops keeps_response_code)
  show "emit_error rshutdown msg s =
       (if sapi_name s = ''fpm-fcgi''
        then (Returned, (sapi (Php_error E_WARNING msg) ?s2)\<lparr>request_method := None\<rparr>)
        else emit_error_tail msg (run_rshutdowns ?s2))"
    unfolding emit_error_def Let_def frame(1) using assms by simp
qed

lemma emit_error_later:
  assumes "\<not> during_request_startup s"
  shows "emit_error rshutdown msg s = emit_error_tail msg (s\<lparr>user_error_handler := False, user_exception_handler := False\<rparr>)"
  using assms by (simp add: emit_error_def)

lemma emit_error_outcome:
  "fst (emit_error rshutdown msg s) =
     (if during_request_startup s \<and> sapi_name s = ''fpm-fcgi'' then Returned else Bailed_out)"
  "fst (emit_error rshutdown msg s) = Returned \<Longrightarrow> request_method (snd (emit_error rshutdown msg s)) = None"
proof -
  have "fst (emit_error rshutdown msg s) =
      (if during_request_startup s \<and> sapi_name s = ''fpm-fcgi'' then Returned else Bailed_out) \<and>
    (fst (emit_error rshutdown msg s) = Returned \<longrightarrow> request_method (snd (emit_error rshutdown msg s)) = None)"
  proof (cases "during_request_startup s")
    case True
    then obtain s2 where "emit_error rshutdown msg s =
       (if sapi_name s = ''fpm-fcgi''
        then (Returned, (sapi (Php_error E_WARNING msg) s2)\<lparr>request_method := None\<rparr>)
        else emit_error_tail msg (run_rshutdowns s2))"
      using emit_error_startup [of s msg] by blast
    with True show ?thesis by (simp add: emit_error_tail_frame)
  next
    case False
    then show ?thesis by (simp add: emit_error_later emit_error_tail_frame)
  qed
  then show "fst (emit_error rshutdown msg s) =
      (if during_request_startup s \<and> sapi_name s = ''fpm-fcgi'' then Returned else Bailed_out)"
    "fst (emit_error rshutdown msg s) = Returned \<Longrightarrow> request_method (snd (emit_error rshutdown msg s)) = None"
    by blast+
qed

lemma emit_error_frame:
  "http_response_code (snd (emit_error rshutdown msg s)) = http_response_code s"
  "\<exists>ops. sapi_ops (snd (emit_error rshutdown msg s)) = sapi_ops s @ ops"
proof -
  have "http_response_code (snd (emit_error rshutdown msg s)) = http_response_code s \<and>
    (\<exists>ops. sapi_ops (snd (emit_error rshutdown msg s)) = sapi_ops s @ ops)"
  proof (cases "during_request_startup s")
    case True
    then obtain s2 where s2: "sapi_ops s2 = sapi_ops s" "http_response_code s2 = http_response_code s"
      "emit_error rshutdown msg s =
       (if sapi_name s = ''fpm-fcgi''
        then (Returned, (sapi (Php_error E_WARNING msg) s2)\<lparr>request_method := None\<rparr>)
        else emit_error_tail msg (run_rshutdowns s2))"
      using emit_error_startup [of s msg] by blast
    obtain ops where ops: "sapi_ops (run_rshutdowns s2) = sapi_ops s2 @ ops"
      unfolding run_rshutdowns_def using run_rshutdowns_frame(2) by blast
    obtain ops' where "sapi_ops (snd (emit_error_tail msg (run_rshutdowns s2))) = sapi_ops (run_rshutdowns s2) @ ops'"
      using emit_error_tail_frame(3) by blast
    with ops s2 show ?thesis
      by (auto simp: emit_error_tail_frame run_rshutdowns_def run_rshutdowns_frame)
  next
    case False
    from emit_error_tail_frame(2,3) [of msg "s\<lparr>user_error_handler := False, user_exception_handler := False\<rparr>"]
    show ?thesis unfolding emit_error_later [OF False] by simp
  qed
  then show "http_response_code (snd (emit_error rshutdown msg s)) = http_response_code s"
    "\<exists>ops. sapi_ops (snd (emit_error rshutdown msg s)) = sapi_ops s @ ops" by auto
qed

lemma abort_ok_emit:
  assumes "\<not> during_request_shutdown s"
    and "during_request_startup s1 = during_request_startup s" "sapi_name s1 = sapi_name s"
  shows "abort_ok s (emit_error rshutdown msg s1)"
  using emit_error_outcome [of msg s1] assms by (auto simp: abort_ok_def)

lemma abort_ok_finish:
  assumes "during_request_shutdown s1 = during_request_shutdown s"
    and "during_request_startup s1 = during_request_startup s" "sapi_name s1 = sapi_name s"
  shows "abort_ok s (abort_finish rshutdown msg s1)"
proof (cases "during_request_shutdown s")
  case True
  with assms(1) show ?thesis by (simp add: abort_finish_def abort_ok_def)
next
  case False
  with assms(1) abort_ok_emit [OF False assms(2,3)] show ?thesis by (simp add: abort_finish_def)
qed

lemma abort_ok_static_page:
  shows "abort_ok s (request_abort_static_page rshutdown server code type s)"
proof (cases rule: abort_prelude_cases [of rshutdown s])
  case (go s1)
  then show ?thesis
    unfolding request_abort_static_page_def Let_def go(1) prod.case bool.case
    by (intro abort_ok_finish ) simp_all
next
  case (shut s1)
  then show ?thesis by (simp add: request_abort_static_page_def abort_ok_def)
next
  case (sent s1 msg)
  with abort_ok_emit [of s s1 msg] show ?thesis
    by (cases "emit_error rshutdown msg s1") (simp add: request_abort_static_page_def)
qed

lemma abort_ok_redirect:
  shows "abort_ok s (dd_request_abort_redirect rshutdown server s)"
proof (cases "redirection_location s = None \<or> redirection_location s = Some []")
  case True
  then show ?thesis using abort_ok_static_page  by (auto simp: dd_request_abort_redirect_def)
next
  case False
  then obtain l where l: "redirection_location s = Some l" "l \<noteq> []" by auto
  show ?thesis
  proof (cases rule: abort_prelude_cases [of rshutdown s])
    case (go s1)
    then show ?thesis
      unfolding dd_request_abort_redirect_def Let_def go(1) l(1) option.case prod.case bool.case
      using l(2) by (simp del: c_str_id) (intro abort_ok_finish , simp_all)
  next
    case (shut s1)
    then show ?thesis using l by (simp add: dd_request_abort_redirect_def abort_ok_def)
  next
    case (sent s1 msg)
    with abort_ok_emit [of s s1 msg] l show ?thesis
      by (cases "emit_error rshutdown msg s1") (simp add: dd_request_abort_redirect_def)
  qed
qed

lemma finish_frame:
  "http_response_code (snd (abort_finish rshutdown msg s)) = http_response_code s"
  "\<exists>ops. sapi_ops (snd (abort_finish rshutdown msg s)) = sapi_ops s @ ops"
  using emit_error_frame [of msg s] by (simp_all add: abort_finish_def)

lemma static_page_served:
  assumes "\<not> headers_sent s"
    and t_def: "t = (if type = response_type_auto then get_response_type_from_accept_header server else type)"
  shows "\<exists>rest. sapi_ops (snd (request_abort_static_page rshutdown server code type s)) =
      sapi_ops s @ [Header_delete_all, Output_discard_all] @ page_ops t s @ [Sapi_flush] @ rest"
    "http_response_code (snd (request_abort_static_page rshutdown server code type s)) = code"
proof -
  obtain s1 where s1: "abort_prelude rshutdown s = (True, Returned, s1)"
    "sapi_ops s1 = sapi_ops s @ [Header_delete_all, Output_discard_all]"
    "custom_error_html s1 = custom_error_html s" "custom_error_json s1 = custom_error_json s"
    using assms(1) by (cases rule: abort_prelude_cases [of rshutdown s]) auto
  let ?s3 = "sapi Sapi_flush (set_page t (s1\<lparr>http_response_code := code\<rparr>))"
  have run: "request_abort_static_page rshutdown server code type s = abort_finish rshutdown msg_static_page ?s3"
    by (simp add: request_abort_static_page_def s1(1) Let_def t_def)
  have "page_ops t (s1\<lparr>http_response_code := code\<rparr>) = page_ops t s"
    by (simp add: page_ops_def s1 split: dd_response_type.splits)
  with s1(2) have "sapi_ops ?s3 = sapi_ops s @ [Header_delete_all, Output_discard_all] @ page_ops t s @ [Sapi_flush]"
    by (simp add: set_page_ops)
  with finish_frame [of msg_static_page ?s3] run
  show "\<exists>rest. sapi_ops (snd (request_abort_static_page rshutdown server code type s)) =
      sapi_ops s @ [Header_delete_all, Output_discard_all] @ page_ops t s @ [Sapi_flush] @ rest"
    "http_response_code (snd (request_abort_static_page rshutdown server code type s)) = code"
    by (auto simp: set_page_code)
qed

end

section \<open>What aborting leaves alone\<close>

text \<open>
  Aborting a request writes the output, the response code, the request method, the output handlers, the
  user handlers, the flag that skips the request shutdown and the tracer's flush count. A relation
  between the states before and after that does not depend on these fields, and holds across the request
  shutdown, holds across both ways to abort.
\<close>

locale abort_frame = frame_relation R
  for R :: "'a abort_state_scheme \<Rightarrow> 'a abort_state_scheme \<Rightarrow> bool" +
  assumes frame_ops: "R s (s\<lparr>sapi_ops := ops\<rparr>)"
    and frame_code: "R s (s\<lparr>http_response_code := code\<rparr>)"
    and frame_method: "R s (s\<lparr>request_method := m\<rparr>)"
    and frame_handlers: "R s (s\<lparr>og_active := a, og_running := r, og_handlers := n\<rparr>)"
    and frame_user: "R s (s\<lparr>user_error_handler := ue, user_exception_handler := ux\<rparr>)"
    and frame_skip: "R s (s\<lparr>skip_rshutdown := sk\<rparr>)"
    and frame_flush: "R s (dd_trace_close_all_spans_and_flush s)"
begin

lemma R_sapi: "R s s' \<Longrightarrow> R s (sapi op s')"
  unfolding sapi_def by (rule frame_trans [OF _ frame_ops])

lemma R_set_page: "R s s' \<Longrightarrow> R s (set_page t s')"
  by (cases t) (simp_all add: set_page_def set_output_def set_content_type_def R_sapi)

lemma R_run_rshutdowns: "R s s' \<Longrightarrow> R s (run_rshutdowns_loop found ms s')"
  by (induction found ms s' rule: run_rshutdowns_loop.induct) (auto intro: R_sapi)

lemma R_emit_error_tail: "R s s' \<Longrightarrow> R s (snd (emit_error_tail msg s'))"
  by (simp add: emit_error_tail_def suppress_error_reporting_def Let_def R_sapi)

lemma R_emit_error:
  assumes "\<And>s. R s (f s)" "R s s'"
  shows "R s (snd (emit_error f msg s'))"
proof -
  let ?s1 = "if \<not> ts_testing s' then (f s')\<lparr>skip_rshutdown := True\<rparr> else s'"
  let ?s2 = "dd_trace_close_all_spans_and_flush ?s1"
  have "R s ((f s')\<lparr>skip_rshutdown := True\<rparr>)"
    by (rule frame_trans [OF frame_trans [OF assms(2,1)] frame_skip])
  with assms(2) have "R s ?s1" by simp
  then have s2: "R s ?s2" by (rule frame_trans [OF _ frame_flush])
  have "R s ((sapi (Php_error E_WARNING msg) ?s2)\<lparr>request_method := None\<rparr>)"
    by (rule frame_trans [OF R_sapi [OF s2] frame_method])
  moreover have "R s (snd (emit_error_tail msg (run_rshutdowns ?s2)))"
    unfolding run_rshutdowns_def by (intro R_emit_error_tail R_run_rshutdowns s2)
  moreover have "R s (snd (emit_error_tail msg (s'\<lparr>user_error_handler := False, user_exception_handler := False\<rparr>)))"
    by (intro R_emit_error_tail frame_trans [OF assms(2) frame_user])
  ultimately show ?thesis by (simp add: emit_error_def Let_def)
qed

lemma R_prelude:
  assumes "\<And>s. R s (f s)"
  shows "R s (snd (snd (abort_prelude f s)))"
proof -
  define s1 where "s1 = (if og_running s then force_destroy_output_handlers s else s)"
  have "R s s1" by (simp add: s1_def force_destroy_output_handlers_def frame_handlers frame_refl)
  then show ?thesis
    unfolding abort_prelude_def s1_def [symmetric] Let_def by (simp add: R_sapi R_emit_error [OF assms])
qed

lemma R_finish: "(\<And>s. R s (f s)) \<Longrightarrow> R s s' \<Longrightarrow> R s (snd (abort_finish f msg s'))"
  by (simp add: abort_finish_def R_emit_error)

lemma R_static_page:
  assumes "\<And>s. R s (f s)"
  shows "R s (snd (request_abort_static_page f server code type s))"
proof -
  obtain b out s1 where p: "abort_prelude f s = (b, out, s1)" by (metis prod.exhaust)
  have "R s s1" using R_prelude [OF assms, of s] p by simp
  moreover from this have "R s (s1\<lparr>http_response_code := code\<rparr>)" by (rule frame_trans [OF _ frame_code])
  ultimately show ?thesis
    by (cases b) (simp_all add: request_abort_static_page_def p Let_def R_finish [OF assms] R_sapi R_set_page)
qed

lemma R_redirect:
  assumes "\<And>s. R s (f s)"
  shows "R s (snd (dd_request_abort_redirect f server s))"
proof (cases "redirection_location s = None \<or> redirection_location s = Some []")
  case True
  then show ?thesis using R_static_page [OF assms] by (auto simp: dd_request_abort_redirect_def)
next
  case False
  then obtain l where l: "redirection_location s = Some l" "l \<noteq> []" by auto
  obtain b out s1 where p: "abort_prelude f s = (b, out, s1)" by (metis prod.exhaust)
  have "R s s1" using R_prelude [OF assms, of s] p by simp
  moreover from this have "R s (s1\<lparr>http_response_code := code\<rparr>)" for code
    by (rule frame_trans [OF _ frame_code])
  ultimately show ?thesis using l
    by (cases b) (simp_all add: dd_request_abort_redirect_def p Let_def R_finish [OF assms] R_sapi)
qed

end

end
