(* ===== verification/Commands_In.thy ===== *)
theory Commands_In
  imports Commands_Out Request_Abort
begin

text \<open>
  Executing a command and handling the answer of the helper: src/extension/commands\_helpers.c and the
  response half of src/extension/commands/client\_init.c, config\_sync.c and request\_exec.c.

  The mpack library is not part of the sources. Encoding a finished message is a function from the
  calls made to the writer to the collected buffers, or nothing on an error. Reading is the record
  \<open>mpack_reader\<close>, over whatever type of nodes the library has: each accessor gives a value or
  nothing when the node has the wrong type or the index is out of range. As documented, such an
  access sets the error of the tree, which stays set and makes every later access return a default
  value (\<open>node_get\<close>).
\<close>

section \<open>Reading nodes\<close>

datatype mpack_type =
    mpack_type_nil | mpack_type_bool | mpack_type_int | mpack_type_uint | mpack_type_float
  | mpack_type_double | mpack_type_str | mpack_type_bin | mpack_type_array | mpack_type_map

record 'n mpack_reader =
  mr_parse :: "string \<Rightarrow> 'n option"
  mr_nil :: 'n
  mr_type :: "'n \<Rightarrow> mpack_type"
  mr_at :: "'n \<Rightarrow> nat \<Rightarrow> 'n option"
  mr_length :: "'n \<Rightarrow> nat option"
  mr_map_count :: "'n \<Rightarrow> nat option"
  mr_key_at :: "'n \<Rightarrow> nat \<Rightarrow> 'n option"
  mr_value_at :: "'n \<Rightarrow> nat \<Rightarrow> 'n option"
  mr_str :: "'n \<Rightarrow> string option"
  mr_data :: "'n \<Rightarrow> string option"
  mr_bool :: "'n \<Rightarrow> bool option"
  mr_float :: "'n \<Rightarrow> u64 option"
  mr_double :: "'n \<Rightarrow> u64 option"
  mr_int :: "'n \<Rightarrow> int option"
  mr_uint :: "'n \<Rightarrow> int option"

record appsec_state = abort_state +
  tree_error :: bool

type_synonym ('a, 'r) app = "('a appsec_state_scheme, 'r) state"

definition node_get :: "('n \<Rightarrow> 'v option) \<Rightarrow> 'v \<Rightarrow> 'n \<Rightarrow> ('a, 'v) app" where
  "node_get f dflt n = do {
     err \<leftarrow> gets tree_error;
     if err then ret dflt
     else case f n of
       Some v \<Rightarrow> ret v
     | None \<Rightarrow> do { modify (\<lambda>s. s\<lparr>tree_error := True\<rparr>); ret dflt }
   }"

definition node_type :: "'n mpack_reader \<Rightarrow> 'n \<Rightarrow> ('a, mpack_type) app" where
  "node_type rd n = do { err \<leftarrow> gets tree_error; ret (if err then mpack_type_nil else mr_type rd n) }"

definition node_array_at :: "'n mpack_reader \<Rightarrow> 'n \<Rightarrow> nat \<Rightarrow> ('a, 'n) app" where
  "node_array_at rd n i = node_get (\<lambda>n. mr_at rd n i) (mr_nil rd) n"

definition node_array_length :: "'n mpack_reader \<Rightarrow> 'n \<Rightarrow> ('a, nat) app" where
  "node_array_length rd n = node_get (mr_length rd) 0 n"

definition node_map_count :: "'n mpack_reader \<Rightarrow> 'n \<Rightarrow> ('a, nat) app" where
  "node_map_count rd n = node_get (mr_map_count rd) 0 n"

definition node_map_key_at :: "'n mpack_reader \<Rightarrow> 'n \<Rightarrow> nat \<Rightarrow> ('a, 'n) app" where
  "node_map_key_at rd n i = node_get (\<lambda>n. mr_key_at rd n i) (mr_nil rd) n"

definition node_map_value_at :: "'n mpack_reader \<Rightarrow> 'n \<Rightarrow> nat \<Rightarrow> ('a, 'n) app" where
  "node_map_value_at rd n i = node_get (\<lambda>n. mr_value_at rd n i) (mr_nil rd) n"

definition node_str :: "'n mpack_reader \<Rightarrow> 'n \<Rightarrow> ('a, string option) app" where
  "node_str rd n = node_get (\<lambda>n. map_option Some (mr_str rd n)) None n"

definition node_strlen :: "'n mpack_reader \<Rightarrow> 'n \<Rightarrow> ('a, nat) app" where
  "node_strlen rd n = node_get (\<lambda>n. map_option length (mr_str rd n)) 0 n"

definition node_data :: "'n mpack_reader \<Rightarrow> 'n \<Rightarrow> ('a, string option) app" where
  "node_data rd n = node_get (\<lambda>n. map_option Some (mr_data rd n)) None n"

definition node_bool :: "'n mpack_reader \<Rightarrow> 'n \<Rightarrow> ('a, bool) app" where
  "node_bool rd n = node_get (mr_bool rd) False n"

text \<open>\<open>dd_mpack_node_lstr_eq\<close> and \<open>dd_mpack_node_str_eq\<close>: the length first, then the bytes.\<close>

definition dd_mpack_node_str_eq :: "'n mpack_reader \<Rightarrow> 'n \<Rightarrow> string \<Rightarrow> ('a, bool) app" where
  "dd_mpack_node_str_eq rd n str = do {
     len \<leftarrow> node_strlen rd n;
     if len \<noteq> length str then ret False
     else do { s \<leftarrow> node_str rd n; ret (s = Some str) }
   }"

section \<open>Tags and metrics\<close>

text \<open>The first \<open>INT_MAX\<close> characters of a key.\<close>

definition clamp_key :: "string \<Rightarrow> string" where
  "clamp_key key = (if int (length key) > int_max then take (nat int_max) key else key)"

fun process_meta_loop :: "'n mpack_reader \<Rightarrow> 'n \<Rightarrow> nat list \<Rightarrow> ('a, unit) app" where
  "process_meta_loop rd root [] = ret ()"
| "process_meta_loop rd root (i # is) = do {
     key \<leftarrow> node_map_key_at rd root i;
     val \<leftarrow> node_map_value_at rd root i;
     key_type \<leftarrow> node_type rd key;
     if key_type \<noteq> mpack_type_str then ret ()
     else do {
       val_type \<leftarrow> node_type rd val;
       if val_type \<noteq> mpack_type_str then ret ()
       else do {
         key_str \<leftarrow> node_str rd key;
         val_str \<leftarrow> node_str rd val;
         res \<leftarrow> State (dd_trace_root_span_add_tag_str (clamp_key (case_option [] id key_str)) (case_option [] id val_str));
         if \<not> res then ret () else process_meta_loop rd root is
       }
     }
   }"

definition dd_command_process_meta :: "'n mpack_reader \<Rightarrow> 'n \<Rightarrow> ('a, unit) app" where
  "dd_command_process_meta rd root = do {
     t \<leftarrow> node_type rd root;
     if t \<noteq> mpack_type_map then ret ()
     else do {
       cnt \<leftarrow> node_map_count rd root;
       process_meta_loop rd root [0..<cnt]
     }
   }"

definition metric_value :: "'n mpack_reader \<Rightarrow> 'n \<Rightarrow> ('a, zval option) app" where
  "metric_value rd val = do {
     t \<leftarrow> node_type rd val;
     case t of
       mpack_type_float \<Rightarrow> do { d \<leftarrow> node_get (mr_float rd) 0 val; ret (Some (ZDouble d)) }
     | mpack_type_double \<Rightarrow> do { d \<leftarrow> node_get (mr_double rd) 0 val; ret (Some (ZDouble d)) }
     | mpack_type_int \<Rightarrow> do { i \<leftarrow> node_get (mr_int rd) 0 val; ret (Some (ZLong i)) }
     | mpack_type_uint \<Rightarrow> do { i \<leftarrow> node_get (mr_uint rd) 0 val; ret (Some (ZLong i)) }
     | _ \<Rightarrow> ret None
   }"

definition add_metric :: "string \<Rightarrow> zval \<Rightarrow> 'a appsec_state_scheme \<Rightarrow> bool \<times> 'a appsec_state_scheme" where
  "add_metric key zv s =
     (case root_metrics s of
        None \<Rightarrow> (False, s)
      | Some metrics \<Rightarrow>
          (let (res, metrics') = zend_hash_add metrics (KStr key) zv
           in (res, s\<lparr>root_metrics := Some metrics'\<rparr>)))"

text \<open>The count is read again before every iteration, so an error of the tree ends the loop.\<close>

fun process_metrics_loop :: "'n mpack_reader \<Rightarrow> 'n \<Rightarrow> nat list \<Rightarrow> ('a, bool) app" where
  "process_metrics_loop rd root [] = do { _ \<leftarrow> node_map_count rd root; ret True }"
| "process_metrics_loop rd root (i # is) = do {
     cnt \<leftarrow> node_map_count rd root;
     if \<not> i < cnt then ret True
     else do {
       key \<leftarrow> node_map_key_at rd root i;
       val \<leftarrow> node_map_value_at rd root i;
       key_type \<leftarrow> node_type rd key;
       if key_type \<noteq> mpack_type_str then ret False
       else do {
         zv \<leftarrow> metric_value rd val;
         case zv of
           None \<Rightarrow> ret False
         | Some v \<Rightarrow> do {
             key_str \<leftarrow> node_str rd key;
             res \<leftarrow> State (add_metric (clamp_key (case_option [] id key_str)) v);
             if \<not> res then ret False else process_metrics_loop rd root is
           }
       }
     }
   }"

definition dd_command_process_metrics :: "'n mpack_reader \<Rightarrow> 'n \<Rightarrow> ('a, bool) app" where
  "dd_command_process_metrics rd root = do {
     metrics_zv \<leftarrow> gets dd_trace_root_span_get_metrics;
     if metrics_zv = None then ret False
     else do {
       t \<leftarrow> node_type rd root;
       if t \<noteq> mpack_type_map then ret False
       else process_metrics_loop rd root [0..<case_option 0 id (mr_map_count rd root)]
     }
   }"

section \<open>Parameters of a blocking verdict\<close>

fun block_params_loop ::
  "'n mpack_reader \<Rightarrow> 'n \<Rightarrow> nat list \<Rightarrow> nat \<Rightarrow> int \<times> dd_response_type \<Rightarrow> ('a, int \<times> dd_response_type) app" where
  "block_params_loop rd root [] expected_nodes (status_code, type) = ret (status_code, type)"
| "block_params_loop rd root (i # is) expected_nodes (status_code, type) =
     (if expected_nodes = 0 then ret (status_code, type)
      else do {
        key \<leftarrow> node_map_key_at rd root i;
        val \<leftarrow> node_map_value_at rd root i;
        key_type \<leftarrow> node_type rd key;
        val_type \<leftarrow> node_type rd val;
        if key_type \<noteq> mpack_type_str \<or> val_type \<noteq> mpack_type_str
        then block_params_loop rd root is expected_nodes (status_code, type)
        else do {
          is_code \<leftarrow> dd_mpack_node_str_eq rd key ''status_code'';
          if is_code then do {
            code_len \<leftarrow> node_strlen rd val;
            if code_len \<noteq> 3 then block_params_loop rd root is expected_nodes (status_code, type)
            else do {
              str \<leftarrow> node_str rd val;
              let parsed_value = atoi (case_option [] id str);
              block_params_loop rd root is (expected_nodes - 1)
                (if parsed_value > 99 \<and> parsed_value < 1000 then parsed_value else status_code, type)
            }
          }
          else do {
            is_type \<leftarrow> dd_mpack_node_str_eq rd key ''type'';
            if \<not> is_type then block_params_loop rd root is expected_nodes (status_code, type)
            else do {
              is_json \<leftarrow> dd_mpack_node_str_eq rd val ''json'';
              is_html \<leftarrow> (if is_json then ret False else dd_mpack_node_str_eq rd val ''html'');
              is_auto \<leftarrow> (if is_json \<or> is_html then ret False else dd_mpack_node_str_eq rd val ''auto'');
              if is_json then block_params_loop rd root is (expected_nodes - 1) (status_code, response_type_json)
              else if is_html then block_params_loop rd root is (expected_nodes - 1) (status_code, response_type_html)
              else if is_auto then block_params_loop rd root is (expected_nodes - 1) (status_code, response_type_auto)
              else block_params_loop rd root is expected_nodes (status_code, type)
            }
          }
        }
      })"

definition command_process_block_parameters :: "'n mpack_reader \<Rightarrow> 'n \<Rightarrow> ('a, unit) app" where
  "command_process_block_parameters rd root = do {
     cnt \<leftarrow> node_map_count rd root;
     (status_code, type) \<leftarrow>
       block_params_loop rd root [0..<cnt] 2 (DEFAULT_BLOCKING_RESPONSE_CODE, DEFAULT_RESPONSE_TYPE);
     modify (dd_set_block_code_and_type status_code type)
   }"

fun redirect_params_loop ::
  "'n mpack_reader \<Rightarrow> 'n \<Rightarrow> nat list \<Rightarrow> nat \<Rightarrow> int \<times> string option \<Rightarrow> ('a, int \<times> string option) app" where
  "redirect_params_loop rd root [] expected_nodes (status_code, location) = ret (status_code, location)"
| "redirect_params_loop rd root (i # is) expected_nodes (status_code, location) =
     (if expected_nodes = 0 then ret (status_code, location)
      else do {
        key \<leftarrow> node_map_key_at rd root i;
        val \<leftarrow> node_map_value_at rd root i;
        key_type \<leftarrow> node_type rd key;
        val_type \<leftarrow> node_type rd val;
        if key_type \<noteq> mpack_type_str \<or> val_type \<noteq> mpack_type_str
        then redirect_params_loop rd root is expected_nodes (status_code, location)
        else do {
          is_code \<leftarrow> dd_mpack_node_str_eq rd key ''status_code'';
          if is_code then do {
            code_len \<leftarrow> node_strlen rd val;
            if code_len \<noteq> 3 then redirect_params_loop rd root is expected_nodes (status_code, location)
            else do {
              str \<leftarrow> node_str rd val;
              redirect_params_loop rd root is (expected_nodes - 1) (atoi (case_option [] id str), location)
            }
          }
          else do {
            is_location \<leftarrow> dd_mpack_node_str_eq rd key ''location'';
            if \<not> is_location then redirect_params_loop rd root is expected_nodes (status_code, location)
            else do {
              str \<leftarrow> node_str rd val;
              redirect_params_loop rd root is (expected_nodes - 1) (status_code, Some (case_option [] id str))
            }
          }
        }
      })"

definition command_process_redirect_parameters :: "'n mpack_reader \<Rightarrow> 'n \<Rightarrow> ('a, unit) app" where
  "command_process_redirect_parameters rd root = do {
     cnt \<leftarrow> node_map_count rd root;
     (status_code, location) \<leftarrow> redirect_params_loop rd root [0..<cnt] 2 (0, None);
     modify (dd_set_redirect_code_and_location status_code location)
   }"

section \<open>Verdicts\<close>

definition DD_TAG_DATA_MAX_LEN :: int where "DD_TAG_DATA_MAX_LEN = 1024 * 1024"

definition add_appsec_span_data_frag :: "'n mpack_reader \<Rightarrow> 'n \<Rightarrow> ('a, unit) app" where
  "add_appsec_span_data_frag rd node = do {
     data \<leftarrow> node_data rd node;
     case data of
       None \<Rightarrow> ret ()
     | Some d \<Rightarrow>
         if length d = 0 \<or> hd d = nul then ret ()
         else if int (length d) \<ge> DD_TAG_DATA_MAX_LEN then ret ()
         else modify (dd_tags_add_appsec_json_frag d)
   }"

fun span_data_loop :: "'n mpack_reader \<Rightarrow> 'n \<Rightarrow> nat list \<Rightarrow> ('a, unit) app" where
  "span_data_loop rd node [] = do { _ \<leftarrow> node_array_length rd node; ret () }"
| "span_data_loop rd node (i # is) = do {
     len \<leftarrow> node_array_length rd node;
     if \<not> i < len then ret ()
     else do {
       frag \<leftarrow> node_array_at rd node i;
       add_appsec_span_data_frag rd frag;
       span_data_loop rd node is
     }
   }"

definition set_appsec_span_data :: "'n mpack_reader \<Rightarrow> 'n \<Rightarrow> ('a, unit) app" where
  "set_appsec_span_data rd node = span_data_loop rd node [0..<case_option 0 id (mr_length rd node)]"

text \<open>
  The reads made for a debug message, of a node that is read again at once, are left out.
\<close>

definition dd_command_proc_resp_verd_span_data :: "'n mpack_reader \<Rightarrow> 'n \<Rightarrow> ('a, dd_result) app" where
  "dd_command_proc_resp_verd_span_data rd root = do {
     verdict \<leftarrow> node_array_at rd root 0;
     is_block \<leftarrow> dd_mpack_node_str_eq rd verdict ''block'';
     is_redirect \<leftarrow> (if is_block then ret False else dd_mpack_node_str_eq rd verdict ''redirect'');
     (if is_block then do {
        params \<leftarrow> node_array_at rd root 1;
        command_process_block_parameters rd params;
        modify dd_tags_add_blocked
      }
      else if is_redirect then do {
        params \<leftarrow> node_array_at rd root 1;
        command_process_redirect_parameters rd params;
        modify dd_tags_add_blocked
      }
      else ret ());
     is_record \<leftarrow> (if is_block \<or> is_redirect then ret True else dd_mpack_node_str_eq rd verdict ''record'');
     (if is_record then do {
        events \<leftarrow> node_array_at rd root 2;
        set_appsec_span_data rd events
      }
      else ret ());
     force \<leftarrow> node_array_at rd root 3;
     force_type \<leftarrow> node_type rd force;
     force_value \<leftarrow> (if force_type = mpack_type_bool then node_bool rd force else ret False);
     (if force_value then modify dd_tags_set_sampling_priority else ret ());
     len \<leftarrow> node_array_length rd root;
     (if len \<ge> 6 then do {
        meta \<leftarrow> node_array_at rd root 4;
        dd_command_process_meta rd meta;
        metrics \<leftarrow> node_array_at rd root 5;
        _ \<leftarrow> dd_command_process_metrics rd metrics;
        ret ()
      }
      else ret ());
     ret (if is_block then dd_should_block else if is_redirect then dd_should_redirect else dd_success)
   }"

definition dd_command_process_config_features :: "'n mpack_reader \<Rightarrow> 'n \<Rightarrow> ('a, dd_result) app" where
  "dd_command_process_config_features rd root = do {
     first_element \<leftarrow> node_array_at rd root 0;
     new_status \<leftarrow> node_bool rd first_element;
     by_config \<leftarrow> gets enabled_by_configuration;
     (if by_config = ENABLED \<and> \<not> new_status
      then modify (\<lambda>s. s\<lparr>appsec_enabled := ENABLED\<rparr>)
      else modify (\<lambda>s. s\<lparr>appsec_enabled := if new_status then ENABLED else DISABLED\<rparr>));
     ret dd_success
   }"

definition dd_command_process_config_features_unexpected :: "'n mpack_reader \<Rightarrow> 'n \<Rightarrow> ('a, dd_result) app" where
  "dd_command_process_config_features_unexpected rd root = ret dd_error"

definition dd_command_process_config_sync :: "'n mpack_reader \<Rightarrow> 'n \<Rightarrow> ('a, dd_result) app" where
  "dd_command_process_config_sync rd root = ret dd_success"

section \<open>The answer to client\_init\<close>

definition process_meta_and_metrics :: "'n mpack_reader \<Rightarrow> 'n \<Rightarrow> ('a, unit) app" where
  "process_meta_and_metrics rd root = do {
     meta \<leftarrow> node_array_at rd root 3;
     cnt \<leftarrow> node_map_count rd meta;
     (if cnt > 0 then dd_command_process_meta rd meta else ret ());
     metrics \<leftarrow> node_array_at rd root 4;
     _ \<leftarrow> dd_command_process_metrics rd metrics;
     ret ()
   }"

definition check_helper_version :: "string \<Rightarrow> 'n mpack_reader \<Rightarrow> 'n \<Rightarrow> ('a, dd_result) app" where
  "check_helper_version ext_version rd root = do {
     version_node \<leftarrow> node_array_at rd root 1;
     version \<leftarrow> node_str rd version_node;
     case version of
       None \<Rightarrow> ret dd_error
     | Some v \<Rightarrow> if v \<noteq> ext_version then ret dd_error else ret dd_success
   }"

definition client_init_process_response :: "string \<Rightarrow> 'n mpack_reader \<Rightarrow> 'n \<Rightarrow> ('a, dd_result) app" where
  "client_init_process_response ext_version rd root = do {
     process_meta_and_metrics rd root;
     verdict \<leftarrow> node_array_at rd root 0;
     is_ok \<leftarrow> dd_mpack_node_str_eq rd verdict ''ok'';
     if is_ok then check_helper_version ext_version rd root
     else do {
       _ \<leftarrow> node_str rd verdict;
       errors \<leftarrow> node_array_at rd root 2;
       first_error_node \<leftarrow> node_array_at rd errors 0;
       _ \<leftarrow> node_str rd first_error_node;
       ret dd_error
     }
   }"

section \<open>Executing a command\<close>

record ('n, 's) dd_command_spec = out_spec +
  incoming_cb :: "'n \<Rightarrow> ('s, dd_result) state"
  config_features_cb :: "'n \<Rightarrow> ('s, dd_result) state"

definition imsg_destroy :: "sys_env \<Rightarrow> ('a, unit) app" where
  "imsg_destroy env = do { _ \<leftarrow> sys env (Sys_free 0); ret () }"

text \<open>\<open>None\<close> is a reception that runs out of fuel; see \<open>recv_one_message\<close>.\<close>

definition dd_imsg_recv ::
  "sys_env \<Rightarrow> 'n mpack_reader \<Rightarrow> dd_conn \<Rightarrow> bool \<Rightarrow> ('a, (dd_result + 'n) option) app" where
  "dd_imsg_recv env rd cn check_cred = do {
     out \<leftarrow> (if check_cred then dd_conn_recv_cred env cn else dd_conn_recv env cn);
     case out of
       None \<Rightarrow> ret None
     | Some (res, ro) \<Rightarrow>
         if res \<noteq> dd_success then ret (Some (Inl res))
         else if ro_len ro = 1 then ret (Some (Inl dd_helper_error))
         else do {
           modify (\<lambda>s. s\<lparr>tree_error := False\<rparr>);
           case mr_parse rd (case ro_data ro of Buffer b \<Rightarrow> b | _ \<Rightarrow> []) of
             None \<Rightarrow> do { imsg_destroy env; ret (Some (Inl dd_error)) }
           | Some root \<Rightarrow> ret (Some (Inr root))
         }
   }"

definition process_answer ::
  "sys_env \<Rightarrow> 'n mpack_reader \<Rightarrow> ('n, 'a appsec_state_scheme) dd_command_spec \<Rightarrow> 'n \<Rightarrow> ('a, dd_result) app" where
  "process_answer env rd spec root = do {
     first_response \<leftarrow> node_array_at rd root 0;
     err \<leftarrow> gets tree_error;
     if err then do { imsg_destroy env; ret dd_error }
     else do {
       t \<leftarrow> node_type rd first_response;
       if t \<noteq> mpack_type_array then do { imsg_destroy env; ret dd_error }
       else do {
         first_message \<leftarrow> node_array_at rd first_response 1;
         type \<leftarrow> node_array_at rd first_response 0;
         err \<leftarrow> gets tree_error;
         if err then do { imsg_destroy env; ret dd_error }
         else do {
           tt \<leftarrow> node_type rd type;
           if tt \<noteq> mpack_type_str then do { imsg_destroy env; ret dd_error }
           else do {
             is_features \<leftarrow> dd_mpack_node_str_eq rd type ''config_features'';
             is_command \<leftarrow> (if is_features then ret False else dd_mpack_node_str_eq rd type (cmd_name spec));
             if \<not> is_features \<and> \<not> is_command then do { imsg_destroy env; ret dd_error }
             else do {
               res \<leftarrow> (if is_features then config_features_cb spec first_message else incoming_cb spec first_message);
               err \<leftarrow> gets tree_error;
               imsg_destroy env;
               ret (if err then dd_error else res)
             }
           }
         }
       }
     }
   }"

definition dd_command_exec0 ::
  "sys_env \<Rightarrow> (mpack_writer \<Rightarrow> string list option) \<Rightarrow> 'n mpack_reader \<Rightarrow> dd_conn \<Rightarrow> bool \<Rightarrow>
     ('n, 'a appsec_state_scheme) dd_command_spec \<Rightarrow> ('a, dd_result option) app" where
  "dd_command_exec0 env encode rd cn check_cred spec =
     (case command_message (out_spec.truncate spec) of
        Inl res \<Rightarrow> ret (Some res)
      | Inr calls \<Rightarrow>
          (case encode calls of
             None \<Rightarrow> ret (Some dd_error)
           | Some iovecs \<Rightarrow> do {
               res \<leftarrow> (if check_cred then dd_conn_sendv_cred env cn iovecs else dd_conn_sendv env cn iovecs);
               if res \<noteq> dd_success then ret (Some res)
               else do {
                 msg \<leftarrow> dd_imsg_recv env rd cn check_cred;
                 case msg of
                   None \<Rightarrow> ret None
                 | Some (Inl res) \<Rightarrow> ret (Some res)
                 | Some (Inr root) \<Rightarrow> do {
                     res \<leftarrow> process_answer env rd spec root;
                     ret (Some res)
                   }
               }
             }))"

definition dd_command_exec ::
  "sys_env \<Rightarrow> (mpack_writer \<Rightarrow> string list option) \<Rightarrow> 'n mpack_reader \<Rightarrow> dd_conn \<Rightarrow>
     ('n, 'a appsec_state_scheme) dd_command_spec \<Rightarrow> ('a, dd_result option) app" where
  "dd_command_exec env encode rd cn spec = dd_command_exec0 env encode rd cn False spec"

definition dd_command_exec_cred ::
  "sys_env \<Rightarrow> (mpack_writer \<Rightarrow> string list option) \<Rightarrow> 'n mpack_reader \<Rightarrow> dd_conn \<Rightarrow>
     ('n, 'a appsec_state_scheme) dd_command_spec \<Rightarrow> ('a, dd_result option) app" where
  "dd_command_exec_cred env encode rd cn spec = dd_command_exec0 env encode rd cn True spec"

section \<open>The commands\<close>

text \<open>What the commands need of their surroundings: the system, the mpack library, the context.\<close>

record 'n command_env =
  ce_sys :: sys_env
  ce_encode :: "mpack_writer \<Rightarrow> string list option"
  ce_writer_error :: writer_error
  ce_reader :: "'n mpack_reader"

definition request_init_spec :: "'n command_env \<Rightarrow> request_ctx \<Rightarrow> ('n, 'a appsec_state_scheme) dd_command_spec" where
  "request_init_spec ce rq =
     out_spec.extend (request_init_out (ce_writer_error ce) rq)
       (dd_command_spec.fields (dd_command_proc_resp_verd_span_data (ce_reader ce))
         (dd_command_process_config_features (ce_reader ce)))"

definition request_shutdown_spec :: "'n command_env \<Rightarrow> response_ctx \<Rightarrow> ('n, 'a appsec_state_scheme) dd_command_spec" where
  "request_shutdown_spec ce rs =
     out_spec.extend (request_shutdown_out rs)
       (dd_command_spec.fields (dd_command_proc_resp_verd_span_data (ce_reader ce))
         (dd_command_process_config_features_unexpected (ce_reader ce)))"

definition request_exec_spec :: "'n command_env \<Rightarrow> zval \<Rightarrow> ('n, 'a appsec_state_scheme) dd_command_spec" where
  "request_exec_spec ce data =
     out_spec.extend (request_exec_out (ce_writer_error ce) data)
       (dd_command_spec.fields (dd_command_proc_resp_verd_span_data (ce_reader ce))
         (dd_command_process_config_features_unexpected (ce_reader ce)))"

definition config_sync_spec :: "'n command_env \<Rightarrow> ('n, 'a appsec_state_scheme) dd_command_spec" where
  "config_sync_spec ce =
     out_spec.extend config_sync_out
       (dd_command_spec.fields (dd_command_process_config_sync (ce_reader ce))
         (dd_command_process_config_features (ce_reader ce)))"

definition client_init_spec :: "'n command_env \<Rightarrow> client_ctx \<Rightarrow> ('n, 'a appsec_state_scheme) dd_command_spec" where
  "client_init_spec ce cl =
     out_spec.extend (client_init_out (ce_writer_error ce) cl)
       (dd_command_spec.fields (client_init_process_response (cl_ext_version cl) (ce_reader ce))
         (dd_command_process_config_features_unexpected (ce_reader ce)))"

definition dd_request_init :: "'n command_env \<Rightarrow> dd_conn \<Rightarrow> request_ctx \<Rightarrow> ('a, dd_result option) app" where
  "dd_request_init ce cn rq =
     dd_command_exec (ce_sys ce) (ce_encode ce) (ce_reader ce) cn (request_init_spec ce rq)"

definition dd_request_shutdown :: "'n command_env \<Rightarrow> dd_conn \<Rightarrow> response_ctx \<Rightarrow> ('a, dd_result option) app" where
  "dd_request_shutdown ce cn rs =
     dd_command_exec (ce_sys ce) (ce_encode ce) (ce_reader ce) cn (request_shutdown_spec ce rs)"

definition dd_request_exec :: "'n command_env \<Rightarrow> dd_conn \<Rightarrow> zval \<Rightarrow> ('a, dd_result option) app" where
  "dd_request_exec ce cn data =
     (if \<not> is_array data then ret (Some dd_error)
      else dd_command_exec (ce_sys ce) (ce_encode ce) (ce_reader ce) cn (request_exec_spec ce data))"

definition dd_config_sync :: "'n command_env \<Rightarrow> dd_conn \<Rightarrow> ('a, dd_result option) app" where
  "dd_config_sync ce cn =
     dd_command_exec (ce_sys ce) (ce_encode ce) (ce_reader ce) cn (config_sync_spec ce)"

definition dd_client_init :: "'n command_env \<Rightarrow> dd_conn \<Rightarrow> client_ctx \<Rightarrow> ('a, dd_result option) app" where
  "dd_client_init ce cn cl =
     dd_command_exec_cred (ce_sys ce) (ce_encode ce) (ce_reader ce) cn (client_init_spec ce cl)"

end
