(* ===== verification/Command_Laws.thy ===== *)
theory Command_Laws
  imports Commands_In
begin

text \<open>
  What executing a command does to the state of the extension: a frame for each of the five commands,
  that every command answers, and that a blocking result comes only from a verdict and has marked the
  request as blocked.
\<close>

section \<open>What a command leaves alone\<close>

definition codes_ok :: "'a abort_state_scheme \<Rightarrow> bool" where
  "codes_ok s \<longleftrightarrow> 100 \<le> block_response_code s \<and> block_response_code s < 1000 \<and>
     300 \<le> redirection_response_code s \<and> redirection_response_code s < 400"

text \<open>
  A command changes nothing of the helper manager, opens and closes no descriptor, does no output and
  keeps the phase of the request. It only adds tags and metrics, keeps the response codes in range,
  and does not disable what the configuration enables.
\<close>

definition command_frame :: "'a appsec_state_scheme \<Rightarrow> 'a appsec_state_scheme \<Rightarrow> bool" where
  "command_frame s s' \<longleftrightarrow>
     mgr s' = mgr s \<and> launch_failure_fd_lock s' = launch_failure_fd_lock s \<and>
     open_fds (trace s') = open_fds (trace s) \<and>
     sapi_ops s' = sapi_ops s \<and> http_response_code s' = http_response_code s \<and>
     sapi_name s' = sapi_name s \<and> during_request_startup s' = during_request_startup s \<and>
     during_request_shutdown s' = during_request_shutdown s \<and> headers_sent s' = headers_sent s \<and>
     request_method s' = request_method s \<and>
     enabled_by_configuration s' = enabled_by_configuration s \<and>
     (enabled_by_configuration s = ENABLED \<longrightarrow> appsec_enabled s = ENABLED \<longrightarrow> appsec_enabled s' = ENABLED) \<and>
     (codes_ok s \<longrightarrow> codes_ok s') \<and> (is_blocked s \<longrightarrow> is_blocked s') \<and> meta_extends s s'"

interpretation cf: frame_relation command_frame
proof
  fix s s' s'' :: "'a appsec_state_scheme"
  show "command_frame s s" by (simp add: command_frame_def meta_extends_refl)
  assume "command_frame s s'" "command_frame s' s''"
  then show "command_frame s s''"
    unfolding command_frame_def by (auto intro: meta_extends_trans)
qed

lemma frame_node_get: "keeps command_frame (node_get f d n)"
  unfolding node_get_def
  by (intro cf.keeps_rules cf.keeps_modify) (simp add: command_frame_def meta_extends_same codes_ok_def)

lemma frame_node_type: "keeps command_frame (node_type rd n)"
  unfolding node_type_def by (intro cf.keeps_rules)

lemma frame_str_eq: "keeps command_frame (dd_mpack_node_str_eq rd n str)"
  unfolding dd_mpack_node_str_eq_def node_strlen_def node_str_def
  by (intro cf.keeps_rules frame_node_get)

lemma frame_accessors:
  "keeps command_frame (node_array_at rd n i)" "keeps command_frame (node_array_length rd n)"
  "keeps command_frame (node_map_count rd n)" "keeps command_frame (node_map_key_at rd n i)"
  "keeps command_frame (node_map_value_at rd n i)" "keeps command_frame (node_str rd n)"
  "keeps command_frame (node_strlen rd n)" "keeps command_frame (node_data rd n)"
  "keeps command_frame (node_bool rd n)"
  unfolding node_array_at_def node_array_length_def node_map_count_def node_map_key_at_def
    node_map_value_at_def node_str_def node_strlen_def node_data_def node_bool_def
  by (rule frame_node_get)+

lemmas frame_rules = cf.keeps_rules frame_node_get frame_node_type frame_str_eq frame_accessors

lemma frame_add_tag_str: "keeps command_frame (State (dd_trace_root_span_add_tag_str tag val))"
proof (rule cf.keeps_State)
  fix s :: "'a appsec_state_scheme"
  show "command_frame s (snd (dd_trace_root_span_add_tag_str tag val s))"
  proof (cases "int (length val) \<le> int_max")
    case True
    with meta_extends_add_tag [of s tag "ZString val"] show ?thesis
      by (auto simp: add_tag_str_eq command_frame_def add_tag_cases codes_ok_def split: option.splits)
  next
    case False
    then show ?thesis by (simp add: dd_trace_root_span_add_tag_str_def cf.frame_refl)
  qed
qed

lemma frame_add_metric: "keeps command_frame (State (add_metric key v))"
proof (rule cf.keeps_State)
  fix s :: "'a appsec_state_scheme"
  show "command_frame s (snd (add_metric key v s))"
    using extends_hash_add [of _ "KStr key" v]
    by (auto simp: add_metric_def command_frame_def codes_ok_def meta_extends_def rel_option_refl_extends
        case_prod_beta Let_def split: option.splits)
qed

lemma frame_meta_loop: "keeps command_frame (process_meta_loop rd root is)"
  by (induction rd root "is" rule: process_meta_loop.induct)
     (unfold process_meta_loop.simps, (intro frame_rules frame_add_tag_str; assumption?)+)

lemma frame_metric_value: "keeps command_frame (metric_value rd v)"
  unfolding metric_value_def by (intro frame_rules) (auto split: mpack_type.splits intro!: frame_rules)

lemma frame_metrics_loop: "keeps command_frame (process_metrics_loop rd root is)"
  by (induction rd root "is" rule: process_metrics_loop.induct)
     (unfold process_metrics_loop.simps, (intro frame_rules frame_add_metric frame_metric_value; assumption?)+)

lemma frame_process_meta:
  "keeps command_frame (dd_command_process_meta rd root)"
  "keeps command_frame (dd_command_process_metrics rd root)"
  unfolding dd_command_process_meta_def dd_command_process_metrics_def
  by (intro frame_rules frame_meta_loop frame_metrics_loop)+


lemma yields_block_params:
  assumes "100 \<le> fst ct" "fst ct < 1000"
  shows "yields (\<lambda>ct. 100 \<le> fst ct \<and> fst ct < 1000) (block_params_loop rd root is n ct)"
  using assms
proof (induction "is" arbitrary: n ct)
  case Nil
  then show ?case by (cases ct) (simp add: yields_ret)
next
  case (Cons i "is")
  obtain c t where ct: "ct = (c, t)" by force
  with Cons.prems have c: "100 \<le> c" "c < 1000" by simp_all
  show ?case unfolding ct block_params_loop.simps Let_def
    by (intro yields_rules yields_ret; (rule Cons.IH)?) (use c in auto)
qed

lemma frame_block_loop: "keeps command_frame (block_params_loop rd root is n ct)"
proof (induction "is" arbitrary: n ct)
  case Nil
  show ?case by (cases ct) (simp add: cf.keeps_ret)
next
  case (Cons i "is")
  obtain c t where ct: "ct = (c, t)" by force
  show ?case unfolding ct block_params_loop.simps Let_def by (intro frame_rules Cons)
qed

lemma frame_redirect_loop: "keeps command_frame (redirect_params_loop rd root is n cl)"
proof (induction "is" arbitrary: n cl)
  case Nil
  show ?case by (cases cl) (simp add: cf.keeps_ret)
next
  case (Cons i "is")
  obtain c l where cl: "cl = (c, l)" by force
  show ?case unfolding cl redirect_params_loop.simps by (intro frame_rules Cons)
qed

lemma keeps_bind_result:
  "yields Q m \<Longrightarrow> keeps command_frame m \<Longrightarrow> (\<And>a. Q a \<Longrightarrow> keeps command_frame (f a)) \<Longrightarrow> keeps command_frame (m \<bind> f)"
  by (auto simp: keeps_def yields_def case_prod_beta intro: cf.frame_trans)

lemma frame_block_parameters: "keeps command_frame (command_process_block_parameters rd root)"
  unfolding command_process_block_parameters_def
proof (rule cf.keeps_bind, rule frame_accessors, rule keeps_bind_result [OF yields_block_params frame_block_loop])
  fix ct :: "int \<times> dd_response_type"
  assume "100 \<le> fst ct \<and> fst ct < 1000"
  then show "keeps command_frame (case ct of (c, t) \<Rightarrow> modify (dd_set_block_code_and_type c t))"
    by (cases ct) (auto intro!: cf.keeps_modify simp: dd_set_block_code_and_type_def command_frame_def
        codes_ok_def meta_extends_same)
qed (simp_all add: DEFAULT_BLOCKING_RESPONSE_CODE_def)

lemma frame_redirect_parameters: "keeps command_frame (command_process_redirect_parameters rd root)"
  unfolding command_process_redirect_parameters_def
  by (intro frame_rules frame_redirect_loop cf.keeps_modify)
     (simp add: dd_set_redirect_code_and_location_def command_frame_def codes_ok_def meta_extends_same
        DEFAULT_REDIRECTION_RESPONSE_CODE_def)

lemma frame_tag_state:
  "command_frame s (dd_tags_add_appsec_json_frag d s)" "command_frame s (dd_tags_add_blocked s)"
  "command_frame s (dd_tags_set_sampling_priority s)"
  by (simp_all add: dd_tags_add_appsec_json_frag_def dd_tags_add_blocked_def dd_tags_set_sampling_priority_def
      command_frame_def codes_ok_def meta_extends_same)

lemma frame_span_data_loop: "keeps command_frame (span_data_loop rd node is)"
  by (induction rd node "is" rule: span_data_loop.induct)
     (unfold span_data_loop.simps add_appsec_span_data_frag_def,
      (intro frame_rules cf.keeps_modify frame_tag_state; assumption?)+)

lemma frame_verdict: "keeps command_frame (dd_command_proc_resp_verd_span_data rd root)"
  unfolding dd_command_proc_resp_verd_span_data_def set_appsec_span_data_def
  by (intro frame_rules frame_block_parameters frame_redirect_parameters frame_span_data_loop
      frame_process_meta cf.keeps_modify frame_tag_state)

lemma frame_config_features:
  "keeps command_frame (dd_command_process_config_features rd root)"
  "keeps command_frame (dd_command_process_config_features_unexpected rd root)"
  "keeps command_frame (dd_command_process_config_sync rd root)"
proof -
  show "keeps command_frame (dd_command_process_config_features rd root)"
    unfolding keeps_def
  proof
    fix s
    obtain e s1 where e: "run_state (node_array_at rd root 0) s = (e, s1)" by force
    obtain b s2 where b: "run_state (node_bool rd e) s1 = (b, s2)" by force
    have "command_frame s s1" "command_frame s1 s2"
      using frame_accessors(1) [of rd root 0] frame_accessors(9) [of rd e] e b unfolding keeps_def
      by (metis snd_conv)+
    then have "command_frame s s2" by (rule cf.frame_trans)
    then show "command_frame s (snd (run_state (dd_command_process_config_features rd root) s))"
      by (auto simp: dd_command_process_config_features_def e b command_frame_def codes_ok_def meta_extends_def)
  qed
qed (unfold dd_command_process_config_features_unexpected_def dd_command_process_config_sync_def, (rule frame_rules)+)

lemma frame_client_init_response: "keeps command_frame (client_init_process_response v rd root)"
  unfolding client_init_process_response_def process_meta_and_metrics_def check_helper_version_def
  by (intro frame_rules frame_process_meta)

lemma frame_sys:
  assumes "\<And>M r. fd_step M (c, r) = M"
  shows "keeps command_frame (sys env c)"
  by (auto simp: keeps_def command_frame_def assms codes_ok_def meta_extends_same)

lemma frame_network:
  "keeps command_frame (dd_conn_sendv env cn io)" "keeps command_frame (dd_conn_sendv_cred env cn io)"
  unfolding dd_conn_sendv_def dd_conn_sendv_cred_def Let_def
  by (intro frame_rules frame_sys; simp)+

lemma frame_recv_body_loop: "keeps command_frame (recv_body_loop fuel env sock n got)"
  by (induction fuel env sock n got rule: recv_body_loop.induct)
     (unfold recv_body_loop.simps, (intro frame_rules frame_sys; (assumption | simp)?)+)

lemma frame_recv_message_body: "keeps command_frame (recv_message_body env sock n)"
  unfolding recv_message_body_def
  by (intro frame_rules frame_sys frame_recv_body_loop) (auto split: bool.splits intro!: frame_rules frame_sys)

lemma frame_recv: "keeps command_frame (dd_conn_recv env cn)" "keeps command_frame (dd_conn_recv_cred env cn)"
  unfolding dd_conn_recv_def dd_conn_recv_cred_def check_credentials_def Let_def
  by (intro frame_rules frame_sys frame_recv_message_body; simp)+

lemma frame_imsg_destroy: "keeps command_frame (imsg_destroy env)"
  unfolding imsg_destroy_def by (intro frame_rules frame_sys) simp

lemma frame_imsg_recv: "keeps command_frame (dd_imsg_recv env rd cn cred)"
  unfolding dd_imsg_recv_def
  by (intro frame_rules frame_recv frame_imsg_destroy cf.keeps_modify)
     (simp add: command_frame_def codes_ok_def meta_extends_same)

text \<open>A command whose two callbacks keep the frame.\<close>

definition spec_frame :: "('n, 'a appsec_state_scheme) dd_command_spec \<Rightarrow> bool" where
  "spec_frame spec \<longleftrightarrow>
     (\<forall>n. keeps command_frame (incoming_cb spec n) \<and> keeps command_frame (config_features_cb spec n))"

lemma frame_process_answer: "spec_frame spec \<Longrightarrow> keeps command_frame (process_answer env rd spec root)"
  unfolding process_answer_def spec_frame_def by (intro frame_rules frame_imsg_destroy) blast+

lemma frame_command_exec:
  assumes "spec_frame spec"
  shows "keeps command_frame (dd_command_exec0 env encode rd cn cred spec)"
  unfolding dd_command_exec0_def
  by (intro frame_rules frame_network frame_imsg_recv frame_process_answer assms)

text \<open>Every command answers.\<close>

lemma recv_returns:
  assumes "recv_ok env"
  shows "fst (run_state (dd_conn_recv env cn) w) \<noteq> None" "fst (run_state (dd_conn_recv_cred env cn) w) \<noteq> None"
  using wp_dd_conn_recv [OF assms, of cn w] wp_dd_conn_recv_cred [OF assms, of cn w]
  by (auto simp: wp_fst_snd recv_post_def recv_cred_post_def)

lemma imsg_recv_returns:
  assumes "recv_ok env"
  shows "fst (run_state (dd_imsg_recv env rd cn cred) w) \<noteq> None"
  using recv_returns [OF assms, of cn w]
  by (cases cred) (auto simp: dd_imsg_recv_def case_prod_beta split: option.splits prod.splits)

lemma command_exec_returns:
  assumes "recv_ok env"
  shows "\<exists>res. fst (run_state (dd_command_exec0 env encode rd cn cred spec) s) = Some res"
  by (auto simp: dd_command_exec0_def case_prod_beta imsg_recv_returns [OF assms, simplified not_None_eq [symmetric]]
      split: sum.splits option.splits)


section \<open>Blocking verdicts\<close>

lemma wp_frame_bind:
  assumes "keeps command_frame m" "\<And>a s'. command_frame s s' \<Longrightarrow> wp (f a) Q s'"
  shows "wp (m \<bind> f) Q s"
  using assms by (auto simp: wp_fst_snd keeps_def case_prod_beta)

definition blocking :: "dd_result \<Rightarrow> bool" where
  "blocking res \<longleftrightarrow> res = dd_should_block \<or> res = dd_should_redirect"

lemma wp_blocked_bind:
  assumes "wp m (\<lambda>_ s'. b \<longrightarrow> is_blocked s') s" "\<And>a s'. b \<longrightarrow> is_blocked s' \<Longrightarrow> wp (f a) Q s'"
  shows "wp (m \<bind> f) Q s"
  using assms by (auto simp: wp_fst_snd case_prod_beta)

lemma wp_blocked_result:
  assumes "keeps command_frame m" "yields (\<lambda>res. blocking res \<longrightarrow> b) m" "b \<longrightarrow> is_blocked s"
  shows "wp m (\<lambda>res s'. blocking res \<longrightarrow> is_blocked s') s"
  using assms by (auto simp: wp_fst_snd keeps_def yields_def command_frame_def)

lemma verdict_marks:
  "wp (dd_command_proc_resp_verd_span_data rd root) (\<lambda>res s'. blocking res \<longrightarrow> is_blocked s') s"
  unfolding dd_command_proc_resp_verd_span_data_def set_appsec_span_data_def
proof (rule wp_frame_bind [OF frame_accessors(1)], rule wp_frame_bind [OF frame_str_eq],
    rule wp_frame_bind, goal_cases)
  case (1 verdict s1 is_block s2)
  show ?case by (intro frame_rules)
next
  case (2 verdict s1 is_block s2 is_redirect s3)
  show ?case
  proof (rule wp_blocked_bind [where b = "is_block \<or> is_redirect"], goal_cases)
    case 1
    show ?case by (auto simp: dd_tags_add_blocked_def wp_fst_snd case_prod_beta)
  next
    case (2 u s4)
    show ?case
      by (rule wp_blocked_result [where b = "is_block \<or> is_redirect", OF _ _ 2])
         (intro frame_rules frame_span_data_loop frame_process_meta cf.keeps_modify frame_tag_state,
          intro yields_rules yields_ret, simp add: blocking_def)
  qed
qed

section \<open>The five commands\<close>

lemma spec_frames:
  "spec_frame (request_init_spec ce rq)" "spec_frame (request_shutdown_spec ce rs)"
  "spec_frame (request_exec_spec ce data)" "spec_frame (config_sync_spec ce)"
  "spec_frame (client_init_spec ce cl)"
  by (simp_all add: spec_frame_def request_init_spec_def request_shutdown_spec_def request_exec_spec_def
      config_sync_spec_def client_init_spec_def out_spec.defs dd_command_spec.defs
      frame_verdict frame_config_features frame_client_init_response)

lemma frame_commands:
  "keeps command_frame (dd_request_init ce cn rq)" "keeps command_frame (dd_request_shutdown ce cn rs)"
  "keeps command_frame (dd_request_exec ce cn data)" "keeps command_frame (dd_config_sync ce cn)"
  "keeps command_frame (dd_client_init ce cn cl)"
  unfolding dd_request_init_def dd_request_shutdown_def dd_request_exec_def dd_config_sync_def
    dd_client_init_def dd_command_exec_def dd_command_exec_cred_def
  by (intro frame_rules frame_command_exec spec_frames)+

lemma commands_return:
  assumes "recv_ok (ce_sys ce)"
  shows "\<exists>res. fst (run_state (dd_request_init ce cn rq) s) = Some res"
    "\<exists>res. fst (run_state (dd_request_shutdown ce cn rs) s) = Some res"
    "\<exists>res. fst (run_state (dd_request_exec ce cn data) s) = Some res"
    "\<exists>res. fst (run_state (dd_config_sync ce cn) s) = Some res"
    "\<exists>res. fst (run_state (dd_client_init ce cn cl) s) = Some res"
  using command_exec_returns [OF assms]
  unfolding dd_request_init_def dd_request_shutdown_def dd_request_exec_def dd_config_sync_def
    dd_client_init_def dd_command_exec_def dd_command_exec_cred_def
  by (simp_all add: command_exec_returns [OF assms])

section \<open>Blocking results of a command\<close>

lemma not_blocking [simp]:
  "\<not> blocking dd_success" "\<not> blocking dd_error" "\<not> blocking dd_network" "\<not> blocking dd_helper_error"
  by (simp_all add: blocking_def)

text \<open>Only the callback of a command gives a blocking result.\<close>

definition quiet_answer :: "(dd_result \<times> recv_out) option \<Rightarrow> bool" where
  "quiet_answer out \<longleftrightarrow> (\<forall>res ro. out = Some (res, ro) \<longrightarrow> \<not> blocking res)"

lemma yields_sendv:
  "yields (\<lambda>res. \<not> blocking res) (dd_conn_sendv env cn io)"
  "yields (\<lambda>res. \<not> blocking res) (dd_conn_sendv_cred env cn io)"
  unfolding dd_conn_sendv_cred_def dd_conn_sendv_def Let_def
  by (intro yields_rules yields_ret; simp)+

lemma yields_message_body: "yields quiet_answer (recv_message_body env sock n)"
  unfolding recv_message_body_def
  by (intro yields_rules yields_case_option yields_case_prod yields_ret)
     (auto simp: quiet_answer_def split: bool.splits intro!: yields_rules yields_ret)

lemma yields_recv:
  "yields quiet_answer (dd_conn_recv env cn)" "yields quiet_answer (dd_conn_recv_cred env cn)"
proof -
  have "yields (\<lambda>res. \<not> blocking res) (check_credentials env c)" for c
    unfolding check_credentials_def
    by (intro yields_rules yields_case_option yields_case_prod yields_ret; simp)
  then show "yields quiet_answer (dd_conn_recv_cred env cn)"
    unfolding dd_conn_recv_cred_def
    by (intro yields_if yields_bind_result [where Q = "\<lambda>res. \<not> blocking res" and m = "check_credentials env c" for c]
        yields_message_body yields_bind [where m = "sys env c" for c] yields_ret) (simp_all add: quiet_answer_def)
  show "yields quiet_answer (dd_conn_recv env cn)"
    unfolding dd_conn_recv_def by (intro yields_rules yields_message_body yields_ret; simp add: quiet_answer_def)
qed

lemma yields_imsg_recv: "yields (\<lambda>m. \<forall>res. m = Some (Inl res) \<longrightarrow> \<not> blocking res) (dd_imsg_recv env rd cn cred)"
  unfolding dd_imsg_recv_def
proof (rule yields_bind_result [where Q = quiet_answer])
  show "yields quiet_answer (if cred then dd_conn_recv_cred env cn else dd_conn_recv env cn)"
    by (simp add: yields_recv)
qed (intro yields_rules yields_case_option yields_case_prod yields_ret; auto simp: quiet_answer_def)

text \<open>A command whose callbacks mark a request when they give a blocking result.\<close>

definition spec_marks :: "('n, 'a appsec_state_scheme) dd_command_spec \<Rightarrow> bool" where
  "spec_marks spec \<longleftrightarrow>
     (\<forall>n s. wp (incoming_cb spec n) (\<lambda>res s'. blocking res \<longrightarrow> is_blocked s') s) \<and>
     (\<forall>n. yields (\<lambda>res. \<not> blocking res) (config_features_cb spec n)) \<and>
     yields (\<lambda>res. \<not> blocking res) (outgoing_cb spec)"

lemma answer_marks:
  assumes "spec_marks spec"
  shows "wp (process_answer env rd spec root) (\<lambda>res s'. blocking res \<longrightarrow> is_blocked s') s"
proof -
  have err: "wp (do { imsg_destroy env; ret dd_error }) (\<lambda>res s'. blocking res \<longrightarrow> is_blocked s') s" for s :: "'b appsec_state_scheme"
    by (intro wp_any_bind wp_retI) simp
  have cb: "wp (if features then config_features_cb spec m else incoming_cb spec m)
      (\<lambda>res s'. blocking res \<longrightarrow> is_blocked s') s" for features m and s :: "'b appsec_state_scheme"
    using assms by (auto simp: spec_marks_def yields_def wp_fst_snd)
  have fin: "wp (do { err \<leftarrow> gets tree_error; imsg_destroy env; ret (if err then dd_error else res) })
      (\<lambda>res s'. blocking res \<longrightarrow> is_blocked s') s" if "blocking res \<longrightarrow> is_blocked s"
    for res and s :: "'b appsec_state_scheme"
    using that frame_imsg_destroy [of env]
    by (intro wp_bindI wp_getsI wp_bindI) (auto simp: wp_fst_snd keeps_def command_frame_def)
  show ?thesis
    unfolding process_answer_def
    by (intro wp_ifI err wp_bindI [OF wp_mono [OF cb fin]] wp_any_bind)
qed

lemma message_not_blocking:
  assumes "spec_marks spec" "command_message (out_spec.truncate spec) = Inl res"
  shows "\<not> blocking res"
  using assms
  by (auto simp: spec_marks_def yields_def command_message_def out_spec.defs case_prod_beta Let_def split: if_splits)

lemma exec_marks:
  assumes "spec_marks spec"
  shows "wp (dd_command_exec0 env encode rd cn cred spec)
    (\<lambda>r s'. \<forall>res. r = Some res \<longrightarrow> blocking res \<longrightarrow> is_blocked s') s"
proof -
  let ?Q = "\<lambda>r s'. \<forall>res. r = Some res \<longrightarrow> blocking res \<longrightarrow> is_blocked s'"
  have answer: "wp (do { res \<leftarrow> process_answer env rd spec root; ret (Some res) }) ?Q s"
    for root and s :: "'b appsec_state_scheme"
    by (rule wp_bindI, rule wp_mono [OF answer_marks [OF assms]]) (simp add: wp_ret)
  have recv: "wp (case msg of None \<Rightarrow> ret None | Some (Inl res) \<Rightarrow> ret (Some res)
      | Some (Inr root) \<Rightarrow> do { res \<leftarrow> process_answer env rd spec root; ret (Some res) }) ?Q s"
    if "\<forall>res. msg = Some (Inl res) \<longrightarrow> \<not> blocking res" for msg and s :: "'b appsec_state_scheme"
    using that answer by (auto simp: wp_ret split: option.splits sum.splits)
  have "wp (do {
       res \<leftarrow> (if cred then dd_conn_sendv_cred env cn io else dd_conn_sendv env cn io);
       if res \<noteq> dd_success then ret (Some res)
       else do { msg \<leftarrow> dd_imsg_recv env rd cn cred;
         case msg of None \<Rightarrow> ret None | Some (Inl res) \<Rightarrow> ret (Some res)
           | Some (Inr root) \<Rightarrow> do { res \<leftarrow> process_answer env rd spec root; ret (Some res) } } }) ?Q s" for io
    by (rule wp_yields_bind [where P = "\<lambda>res. \<not> blocking res"], simp add: yields_sendv)
       (intro wp_ifI wp_retI wp_yields_bind [OF yields_imsg_recv recv], simp_all)
  with message_not_blocking [OF assms] show ?thesis
    unfolding dd_command_exec0_def by (auto simp: wp_ret split: sum.splits option.splits)
qed

lemma yields_config_features:
  "yields (\<lambda>res. \<not> blocking res) (dd_command_process_config_features rd root)"
  "yields (\<lambda>res. \<not> blocking res) (dd_command_process_config_features_unexpected rd root)"
  "yields (\<lambda>res. \<not> blocking res) (dd_command_process_config_sync rd root)"
  unfolding dd_command_process_config_features_def dd_command_process_config_features_unexpected_def
    dd_command_process_config_sync_def
  by (intro yields_rules yields_ret; simp)+

lemma wp_not_blocking:
  "yields (\<lambda>res. \<not> blocking res) m \<Longrightarrow> wp m (\<lambda>res s'. blocking res \<longrightarrow> is_blocked s') s"
  by (simp add: yields_def wp_fst_snd)

lemma spec_marksI:
  assumes "\<And>n s. wp (incoming_cb spec n) (\<lambda>res s'. blocking res \<longrightarrow> is_blocked s') s"
    and "\<And>n. yields (\<lambda>res. \<not> blocking res) (config_features_cb spec n)"
    and "\<And>w. fst (run_state (outgoing_cb spec) w) = dd_success"
  shows "spec_marks spec"
  using assms by (simp add: spec_marks_def yields_def)

lemma specs_mark:
  "spec_marks (request_init_spec ce rq)" "spec_marks (request_shutdown_spec ce rs)"
  "spec_marks (request_exec_spec ce data)" "spec_marks (config_sync_spec ce)"
  by (rule spec_marksI, simp_all add: request_init_spec_def request_shutdown_spec_def request_exec_spec_def
      config_sync_spec_def out_spec.defs dd_command_spec.defs request_init_out_def request_shutdown_out_def
      request_exec_out_def config_sync_out_def verdict_marks yields_config_features wp_not_blocking pack_results)+

lemma commands_mark:
  "wp (dd_request_init ce cn rq) (\<lambda>r s'. \<forall>res. r = Some res \<longrightarrow> blocking res \<longrightarrow> is_blocked s') s"
  "wp (dd_request_shutdown ce cn rs) (\<lambda>r s'. \<forall>res. r = Some res \<longrightarrow> blocking res \<longrightarrow> is_blocked s') s"
  "wp (dd_request_exec ce cn data) (\<lambda>r s'. \<forall>res. r = Some res \<longrightarrow> blocking res \<longrightarrow> is_blocked s') s"
  "wp (dd_config_sync ce cn) (\<lambda>r s'. \<forall>res. r = Some res \<longrightarrow> blocking res \<longrightarrow> is_blocked s') s"
  unfolding dd_request_init_def dd_request_shutdown_def dd_request_exec_def dd_config_sync_def dd_command_exec_def
  by (intro exec_marks specs_mark wp_ifI wp_retI; simp)+

end
