(* ===== verification/User_Tracking.thy ===== *)
theory User_Tracking
  imports Command_Laws
begin

text \<open>
  src/extension/user\_tracking.c: asking the helper for a verdict on a user, and the wrapper put around
  the tracer's \<open>set_user\<close> function.

  The extension's request shutdown, which aborting a request may run, is an argument. \<open>None\<close> is a
  reception that runs out of fuel, which \<open>commands_answer\<close> excludes.
\<close>

section \<open>The verdict on a user\<close>

definition user_data :: "string \<Rightarrow> zval" where
  "user_data user_id = ZArray False True [(KStr ''usr.id'', ZString user_id)]"

text \<open>What is done with the result of a command that may block; also used at the start of a request.\<close>

definition apply_blocking ::
  "('a appsec_state_scheme \<Rightarrow> 'a appsec_state_scheme) \<Rightarrow> zval option \<Rightarrow> dd_result \<Rightarrow> ('a, outcome_kind) app" where
  "apply_blocking rshutdown server res =
     (if res = dd_should_block then State (dd_request_abort_static_page rshutdown server)
      else if res = dd_should_redirect then State (dd_request_abort_redirect rshutdown server)
      else ret Returned)"

definition dd_find_and_apply_verdict_for_user ::
  "'n command_env \<Rightarrow> ('a appsec_state_scheme \<Rightarrow> 'a appsec_state_scheme) \<Rightarrow> zval option \<Rightarrow> string \<Rightarrow>
     ('a, outcome_kind option) app" where
  "dd_find_and_apply_verdict_for_user ce rshutdown server user_id = do {
     enabled \<leftarrow> gets appsec_enabled;
     testing \<leftarrow> gets ts_testing;
     if enabled \<noteq> ENABLED \<and> \<not> testing then ret (Some Returned)
     else if length user_id = 0 then ret (Some Returned)
     else do {
       c \<leftarrow> dd_helper_mgr_cur_conn;
       case c of
         None \<Rightarrow> ret (Some Returned)
       | Some cn \<Rightarrow> do {
           r \<leftarrow> dd_request_exec ce cn (user_data user_id);
           case r of
             None \<Rightarrow> ret None
           | Some res \<Rightarrow> do {
               modify (dd_tags_set_event_user_id user_id);
               out \<leftarrow> apply_blocking rshutdown server res;
               ret (Some out)
             }
         }
     }
   }"

section \<open>The wrapper of \<open>set_user\<close>\<close>

text \<open>The handler in the function table (none when the tracer has no such function) and the saved one.\<close>

datatype set_user_handler = Ddtrace_set_user | Set_user_wrapper

record user_tracking_state =
  ut_function :: "set_user_handler option"
  ut_saved :: "set_user_handler option"

definition dd_user_tracking_startup ::
  "'a trace_state_scheme \<Rightarrow> user_tracking_state \<Rightarrow> user_tracking_state" where
  "dd_user_tracking_startup s u =
     (if \<not> dd_trace_loaded s then u
      else case ut_function u of
        None \<Rightarrow> u
      | Some h \<Rightarrow> u\<lparr>ut_saved := Some h, ut_function := Some Set_user_wrapper\<rparr>)"

definition dd_user_tracking_shutdown :: "user_tracking_state \<Rightarrow> user_tracking_state" where
  "dd_user_tracking_shutdown u =
     (case ut_saved u of
        None \<Rightarrow> u
      | Some h \<Rightarrow> (case ut_function u of None \<Rightarrow> u | Some _ \<Rightarrow> u\<lparr>ut_function := Some h\<rparr>))"

text \<open>\<open>args\<close> is the user id, or nothing when the parameters cannot be parsed.\<close>

definition set_user_wrapper ::
  "'n command_env \<Rightarrow> ('a appsec_state_scheme \<Rightarrow> 'a appsec_state_scheme) \<Rightarrow> zval option \<Rightarrow>
     ('a, unit) app option \<Rightarrow> string option \<Rightarrow> ('a, outcome_kind option) app" where
  "set_user_wrapper ce rshutdown server ddtrace_set_user args = do {
     enabled \<leftarrow> gets appsec_enabled;
     testing \<leftarrow> gets ts_testing;
     out \<leftarrow> (if enabled = ENABLED \<or> testing then
               (case args of
                  Some user_id \<Rightarrow> dd_find_and_apply_verdict_for_user ce rshutdown server user_id
                | None \<Rightarrow> ret (Some Returned))
             else ret (Some Returned));
     if out \<noteq> Some Returned then ret out
     else case ddtrace_set_user of
       None \<Rightarrow> ret (Some Returned)
     | Some f \<Rightarrow> do { f; ret (Some Returned) }
   }"

lemma user_tracking_restored:
  assumes "ut_saved u = None"
  shows "ut_function (dd_user_tracking_shutdown (dd_user_tracking_startup s u)) = ut_function u"
  using assms by (auto simp: dd_user_tracking_startup_def dd_user_tracking_shutdown_def split: option.splits)

end
