(* ===== verification/Ddappsec.thy ===== *)
theory Ddappsec
  imports User_Tracking Ip_Extraction
begin

text \<open>
  src/extension/ddappsec.c: the order of the modules, what enables the extension, and the handlers of
  the life of the module and of a request, which put the other components together.

  The surroundings of a request (the system, the mpack library, the configuration, what PHP reports
  of the request) are the record \<open>appsec_env\<close>. A handler gives \<open>None\<close> only when a reception runs out
  of fuel (or its behaviour is undefined), \<open>Some Bailed_out\<close> when it ended the request, and otherwise \<open>Some Returned\<close>.
\<close>

section \<open>The order of the modules\<close>

text \<open>
  \<open>i\<close> is the index of the first module of the rest of the list, \<open>found\<close> that of ddappsec if it was seen.
\<close>

fun sort_modules_loop :: "nat option \<Rightarrow> nat \<Rightarrow> string list \<Rightarrow> string list \<Rightarrow> string list" where
  "sort_modules_loop found i [] ms = ms"
| "sort_modules_loop found i (m # rest) ms =
     (if m = ''ddappsec'' then sort_modules_loop (Some i) (i + 1) rest ms
      else case found of
        Some j \<Rightarrow>
          if m = ''ddtrace'' then ms[j := ms ! i, i := ms ! j]
          else sort_modules_loop found (i + 1) rest ms
      | None \<Rightarrow> sort_modules_loop found (i + 1) rest ms)"

definition ddappsec_sort_modules :: "string list \<Rightarrow> string list" where
  "ddappsec_sort_modules ms = sort_modules_loop None 0 ms ms"

section \<open>State\<close>

text \<open>
  The state of the whole extension: what the components before it keep, the client address of
  ip\_extraction.c and the handlers of user\_tracking.c.
\<close>

record ddappsec_state = appsec_state +
  client_ip :: "string option"
  user_tracking :: user_tracking_state

type_synonym ('a, 'r) dapp = "('a ddappsec_state_scheme, 'r) state"

section \<open>Configuration\<close>

record enabled_config =
  ec_phpinfo_as_text :: bool
  ec_default :: bool
  ec_appsec_enabled :: bool
  ec_remote_config_enabled :: bool

definition check_enabled :: "enabled_config \<Rightarrow> 'a ddappsec_state_scheme \<Rightarrow> 'a ddappsec_state_scheme" where
  "check_enabled ec s =
     (let by_config =
        (if \<not> ts_testing s \<and> (\<not> dd_trace_enabled s \<or> sapi_name s = ''cli'' \<or> ec_phpinfo_as_text ec) then DISABLED
         else if \<not> ec_default ec then (if ec_appsec_enabled ec then ENABLED else DISABLED)
         else NOT_CONFIGURED);
          by_config' = (if by_config = NOT_CONFIGURED \<and> \<not> ec_remote_config_enabled ec then DISABLED else by_config)
      in s\<lparr>enabled_by_configuration := by_config', appsec_enabled := by_config'\<rparr>)"

section \<open>Surroundings\<close>

record 'n appsec_env =
  ae_cmd :: "'n command_env"
  ae_helper :: helper_config
  ae_enabled :: enabled_config
  ae_client :: client_ctx
  ae_request :: request_ctx
  ae_response_headers :: "string list"
  ae_server :: "zval option"
  ae_request_uri :: "string option"
  ae_inet :: inet_api
  ae_ip_header :: "string option"
  ae_path_translated :: "string option"
  ae_testing_abort_rinit :: bool
  ae_read_file :: "string \<Rightarrow> string option"
  ae_json_template :: "string option"
  ae_html_template :: "string option"

text \<open>What the response and the tags are made from, at the time they are.\<close>

definition response_of :: "'n appsec_env \<Rightarrow> 'a ddappsec_state_scheme \<Rightarrow> response_ctx" where
  "response_of ae s = \<lparr>rs_response_code = http_response_code s, rs_headers = ae_response_headers ae\<rparr>"

definition tag_ctx_of :: "'n appsec_env \<Rightarrow> 'a ddappsec_state_scheme \<Rightarrow> tag_ctx" where
  "tag_ctx_of ae s =
     \<lparr>tc_server = ae_server ae, tc_method = request_method s, tc_request_uri = ae_request_uri ae,
      tc_response_code = http_response_code s, tc_response_headers = ae_response_headers ae,
      tc_client_ip = dd_ip_extraction_get_ip (client_ip s)\<rparr>"

definition request_of :: "'n appsec_env \<Rightarrow> 'a ddappsec_state_scheme \<Rightarrow> request_ctx" where
  "request_of ae s = (ae_request ae)\<lparr>rq_client_ip := dd_ip_extraction_get_ip (client_ip s)\<rparr>"

section \<open>The end of a request\<close>

text \<open>\<open>dd_appsec_rshutdown\<close> up to the verdict it acts on.\<close>

definition rshutdown_verdict :: "'n appsec_env \<Rightarrow> bool \<Rightarrow> ('a, dd_result option) dapp" where
  "rshutdown_verdict ae ignore_verdict = do {
     c \<leftarrow> dd_helper_mgr_cur_conn;
     enabled \<leftarrow> gets appsec_enabled;
     verdict \<leftarrow> (case c of
         None \<Rightarrow> ret (Some dd_success)
       | Some cn \<Rightarrow>
           if enabled \<noteq> ENABLED then ret (Some dd_success)
           else do {
             s \<leftarrow> gets id;
             r \<leftarrow> dd_request_shutdown (ae_cmd ae) cn (response_of ae s);
             case r of
               None \<Rightarrow> ret None
             | Some res \<Rightarrow>
                 if res = dd_network then do { dd_helper_close_conn (ce_sys (ae_cmd ae)); ret (Some dd_success) }
                 else if res = dd_should_block \<or> res = dd_should_redirect
                 then ret (Some (if ignore_verdict then dd_success else res))
                 else ret (Some dd_success)
           });
     dd_helper_rshutdown;
     enabled \<leftarrow> gets appsec_enabled;
     (if enabled = ENABLED then modify (\<lambda>s. dd_tags_add_tags (tag_ctx_of ae s) s) else ret ());
     modify dd_tags_rshutdown;
     ret verdict
   }"

text \<open>
  With the verdict ignored nothing is aborted, so that the recursion of the source (aborting a request
  that starts runs the request shutdown) is not one.
\<close>

definition rshutdown_ignoring :: "'n appsec_env \<Rightarrow> 'a ddappsec_state_scheme \<Rightarrow> 'a ddappsec_state_scheme" where
  "rshutdown_ignoring ae s = snd (run_state (rshutdown_verdict ae True) s)"

definition dd_appsec_rshutdown :: "'n appsec_env \<Rightarrow> bool \<Rightarrow> ('a, outcome_kind option) dapp" where
  "dd_appsec_rshutdown ae ignore_verdict = do {
     verdict \<leftarrow> rshutdown_verdict ae ignore_verdict;
     case verdict of
       None \<Rightarrow> ret None
     | Some v \<Rightarrow> do {
         (if v = dd_should_block \<or> v = dd_should_redirect
          then modify dd_trace_close_all_spans_and_flush else ret ());
         out \<leftarrow> apply_blocking (rshutdown_ignoring ae) (ae_server ae) v;
         ret (Some out)
       }
   }"

definition php_rshutdown :: "'n appsec_env \<Rightarrow> ('a, outcome_kind option) dapp" where
  "php_rshutdown ae = do {
     modify (\<lambda>s. s\<lparr>during_request_shutdown := True\<rparr>);
     s \<leftarrow> gets id;
     out \<leftarrow> (if enabled_by_configuration s = DISABLED then ret (Some Returned)
       else if skip_rshutdown s then ret (Some Returned)
       else if ts_testing s then do { modify dd_tags_rshutdown_testing; ret (Some Returned) }
       else dd_appsec_rshutdown ae False);
     (if out = Some Returned
      then modify (\<lambda>s. s\<lparr>client_ip := dd_ip_extraction_rshutdown (client_ip s), during_request_shutdown := False\<rparr>)
      else ret ());
     ret out
   }"

section \<open>The start of a request\<close>

definition acquire_conn_cb :: "'n appsec_env \<Rightarrow> dd_conn \<Rightarrow> ('a, dd_result) dapp" where
  "acquire_conn_cb ae cn = do {
     r \<leftarrow> dd_client_init (ae_cmd ae) cn (ae_client ae);
     ret (case r of Some res \<Rightarrow> res | None \<Rightarrow> dd_error)
   }"

definition do_rinit :: "'n appsec_env \<Rightarrow> ('a, outcome_kind option) dapp" where
  "do_rinit ae = do {
     by_config \<leftarrow> gets enabled_by_configuration;
     if by_config = DISABLED then ret (Some Returned)
     else do {
       modify dd_tags_rinit;
       ok \<leftarrow> dd_helper_mgr_acquire_conn (ce_sys (ae_cmd ae)) (ae_helper ae) (acquire_conn_cb ae);
       if \<not> ok then ret (Some Returned)
       else do {
         cn \<leftarrow> gets (\<lambda>s. conn (mgr s));
         rq \<leftarrow> gets (request_of ae);
         enabled \<leftarrow> gets appsec_enabled;
         r \<leftarrow> (if enabled = ENABLED then dd_request_init (ae_cmd ae) cn rq
           else do {
             r \<leftarrow> dd_config_sync (ae_cmd ae) cn;
             enabled \<leftarrow> gets appsec_enabled;
             if r = Some dd_success \<and> enabled = ENABLED
             then dd_request_init (ae_cmd ae) cn rq else ret r
           });
         case r of
           None \<Rightarrow> ret None
         | Some res \<Rightarrow>
             if res = dd_network then do {
               dd_helper_close_conn (ce_sys (ae_cmd ae));
               ret (Some Returned)
             }
             else do {
               out \<leftarrow> apply_blocking (rshutdown_ignoring ae) (ae_server ae) res;
               ret (Some out)
             }
       }
     }
   }"

text \<open>\<open>first\<close> tells whether this is the first request, when \<open>_rinit_once\<close> runs.\<close>

definition rinit_once :: "'n appsec_env \<Rightarrow> 'a ddappsec_state_scheme \<Rightarrow> 'a ddappsec_state_scheme" where
  "rinit_once ae s = dd_request_abort_rinit_once (ae_read_file ae) (ae_json_template ae) (ae_html_template ae) s"

definition testing_rinit :: "'n appsec_env \<Rightarrow> ('a, outcome_kind option) dapp" where
  "testing_rinit ae =
     (case ae_path_translated ae of
        Some pt \<Rightarrow>
          if ae_testing_abort_rinit ae \<and> memmem (c_str pt) ''skip.php'' = None
          then do {
            out \<leftarrow> State (dd_request_abort_static_page (rshutdown_ignoring ae) (ae_server ae));
            ret (Some out)
          }
          else ret (Some Returned)
      | None \<Rightarrow> ret (Some Returned))"

text \<open>What is left to do once the configuration is known not to disable the extension.\<close>

definition rinit_enabled :: "'n appsec_env \<Rightarrow> ('a, outcome_kind option) dapp" where
  "rinit_enabled ae = do {
     modify (\<lambda>s. s\<lparr>skip_rshutdown := False\<rparr>);
     modify dd_trace_rinit;
     ip \<leftarrow> gets (\<lambda>s. dd_ip_extraction_rinit (ae_inet ae) (ae_ip_header ae) (ae_server ae) (client_ip s));
     case ip of
       Undefined \<Rightarrow> ret None
     | Defined addr \<Rightarrow> do {
         modify (\<lambda>s. s\<lparr>client_ip := addr\<rparr>);
         testing \<leftarrow> gets ts_testing;
         if testing then testing_rinit ae else do_rinit ae
       }
   }"

definition php_rinit :: "'n appsec_env \<Rightarrow> bool \<Rightarrow> ('a, outcome_kind option) dapp" where
  "php_rinit ae first = do {
     modify (\<lambda>s. s\<lparr>during_request_shutdown := False\<rparr>);
     (if first then modify (rinit_once ae) else ret ());
     modify (check_enabled (ae_enabled ae));
     by_config \<leftarrow> gets enabled_by_configuration;
     if by_config = DISABLED then ret (Some Returned) else rinit_enabled ae
   }"

section \<open>The life of the module\<close>

text \<open>
  The globals of the module start as zero. \<open>config_ok\<close> is what \<open>dd_config_minit\<close> returns; the result is
  whether the module starts.
\<close>

definition php_ginit :: "'a ddappsec_state_scheme \<Rightarrow> 'a ddappsec_state_scheme" where
  "php_ginit s =
     s\<lparr>enabled_by_configuration := NOT_CONFIGURED, appsec_enabled := NOT_CONFIGURED,
       skip_rshutdown := False, during_request_shutdown := False\<rparr>"

definition php_minit :: "bool \<Rightarrow> symbols \<Rightarrow> (string \<times> zval) list \<Rightarrow> ('a, bool) dapp" where
  "php_minit config_ok dl extra_headers =
     (if \<not> config_ok then ret False
      else do {
        modify (\<lambda>s. s\<lparr>appsec_enabled := NOT_CONFIGURED\<rparr>);
        dd_helper_startup;
        modify (dd_trace_startup dl);
        modify (\<lambda>s. s\<lparr>user_tracking := dd_user_tracking_startup s (user_tracking s)\<rparr>);
        modify (dd_tags_startup extra_headers);
        ret True
      })"

definition php_mshutdown :: "sys_env \<Rightarrow> ('a, unit) dapp" where
  "php_mshutdown env = do {
     modify dd_tags_shutdown;
     modify (\<lambda>s. s\<lparr>user_tracking := dd_user_tracking_shutdown (user_tracking s)\<rparr>);
     modify dd_trace_shutdown;
     dd_helper_shutdown env
   }"

definition datadog_appsec_is_enabled :: "'a ddappsec_state_scheme \<Rightarrow> bool" where
  "datadog_appsec_is_enabled s = (appsec_enabled s = ENABLED)"

end
