(* ===== verification/Ddappsec_Laws.thy ===== *)
theory Ddappsec_Laws
  imports Ddappsec Helper_Frame
begin

text \<open>
  The laws of the request handlers of ddappsec.c. The contracts that the components have with each other
  are discharged here on their definitions: the callback of \<open>dd_helper_mgr_acquire_conn\<close> keeps the
  manager's contract, and the request shutdown that of aborting a request. The locale \<open>request_frame\<close>
  derives that a relation holds across each handler of a request from its holding across the operations
  of the components; it gives the invariant of the manager and the refinement of the activation.
\<close>

section \<open>The order of the modules\<close>

lemma sort_loop_skip:
  "(\<And>x. x \<in> set xs \<Longrightarrow> x \<noteq> ''ddappsec'' \<and> (found = None \<or> x \<noteq> ''ddtrace'')) \<Longrightarrow>
   sort_modules_loop found i (xs @ rest) ms = sort_modules_loop found (i + length xs) rest ms"
proof (induction xs arbitrary: i)
  case (Cons x xs)
  then have "x \<noteq> ''ddappsec''" "found = None \<or> x \<noteq> ''ddtrace''" by auto
  moreover have "sort_modules_loop found (i + 1) (xs @ rest) ms = sort_modules_loop found (i + 1 + length xs) rest ms"
    using Cons by auto
  ultimately show ?case by (auto split: option.splits)
qed simp

lemma swap_nth:
  "(xs @ a # ys @ b # zs)[length xs := (xs @ a # ys @ b # zs) ! (length xs + Suc (length ys)),
      length xs + Suc (length ys) := (xs @ a # ys @ b # zs) ! length xs] = xs @ b # ys @ a # zs"
  by (simp add: list_update_append nth_append)

lemma sort_modules_swaps:
  assumes "''ddappsec'' \<notin> set xs \<union> set ys" "''ddtrace'' \<notin> set ys"
  shows "ddappsec_sort_modules (xs @ ''ddappsec'' # ys @ ''ddtrace'' # zs) = xs @ ''ddtrace'' # ys @ ''ddappsec'' # zs"
proof -
  let ?ms = "xs @ ''ddappsec'' # ys @ ''ddtrace'' # zs"
  have "ddappsec_sort_modules ?ms = sort_modules_loop None (length xs) (''ddappsec'' # ys @ ''ddtrace'' # zs) ?ms"
    unfolding ddappsec_sort_modules_def using assms by (subst sort_loop_skip) auto
  also have "\<dots> = sort_modules_loop (Some (length xs)) (length xs + 1) (ys @ ''ddtrace'' # zs) ?ms" by simp
  also have "\<dots> = sort_modules_loop (Some (length xs)) (length xs + 1 + length ys) (''ddtrace'' # zs) ?ms"
    using assms by (subst sort_loop_skip) auto
  also have "\<dots> = xs @ ''ddtrace'' # ys @ ''ddappsec'' # zs"
    using swap_nth [of xs "''ddappsec''" ys "''ddtrace''" zs] by simp
  finally show ?thesis .
qed

lemma sort_modules_same:
  assumes "''ddappsec'' \<notin> set ms \<or> ms = xs @ ''ddappsec'' # ys \<and> ''ddappsec'' \<notin> set xs \<union> set ys \<and> ''ddtrace'' \<notin> set ys"
  shows "ddappsec_sort_modules ms = ms"
  using assms
proof
  assume "''ddappsec'' \<notin> set ms"
  then show ?thesis
    using sort_loop_skip [of ms None 0 "[]" ms] unfolding ddappsec_sort_modules_def by auto
next
  assume ms: "ms = xs @ ''ddappsec'' # ys \<and> ''ddappsec'' \<notin> set xs \<union> set ys \<and> ''ddtrace'' \<notin> set ys"
  then have "ddappsec_sort_modules ms = sort_modules_loop None (length xs) (''ddappsec'' # ys) ms"
    unfolding ddappsec_sort_modules_def by (metis UnI1 add_0 sort_loop_skip)
  also have "\<dots> = sort_modules_loop (Some (length xs)) (length xs + 1) (ys @ []) ms" by simp
  also have "\<dots> = ms" using ms by (subst sort_loop_skip) auto
  finally show ?thesis .
qed

lemma sort_modules_sorted:
  assumes "distinct ms"
  shows "mset (ddappsec_sort_modules ms) = mset ms \<and>
    (\<forall>xs ys. ddappsec_sort_modules ms = xs @ ''ddappsec'' # ys \<longrightarrow> ''ddtrace'' \<notin> set ys)"
proof (cases "''ddappsec'' \<in> set ms")
  case True
  then obtain xs ys where ms: "ms = xs @ ''ddappsec'' # ys" by (meson split_list)
  with assms have d: "''ddappsec'' \<notin> set xs \<union> set ys" "distinct ys" "distinct xs" "set xs \<inter> set ys = {}" by auto
  show ?thesis
  proof (cases "''ddtrace'' \<in> set ys")
    case True
    then obtain us vs where ys: "ys = us @ ''ddtrace'' # vs" by (meson split_list)
    with d have "ddappsec_sort_modules ms = xs @ ''ddtrace'' # us @ ''ddappsec'' # vs"
      unfolding ms ys by (intro sort_modules_swaps) auto
    moreover have "''ddappsec'' \<notin> set xs \<union> set us \<union> set vs" "''ddtrace'' \<notin> set xs \<union> set us \<union> set vs"
      using d ys by auto
    ultimately show ?thesis
      by (auto simp: ms ys append_eq_append_conv2 append_eq_Cons_conv Cons_eq_append_conv)
  next
    case False
    with d ms have "ddappsec_sort_modules ms = ms" by (intro sort_modules_same) blast
    with False d ms show ?thesis by (auto simp: append_eq_append_conv2 append_eq_Cons_conv Cons_eq_append_conv)
  qed
next
  case False
  then show ?thesis using sort_modules_same [of ms] by auto
qed

section \<open>The contracts between the components\<close>

text \<open>The callback that the manager runs on a new connection keeps its contract.\<close>

lemma frame_acquire_conn_cb: "keeps command_frame (acquire_conn_cb ae cn)"
  unfolding acquire_conn_cb_def by (intro frame_rules frame_commands)

lemma acquire_conn_cb_keeps: "init_keeps (acquire_conn_cb ae)"
  unfolding init_keeps_def
proof (intro allI)
  fix c and w :: "'a ddappsec_state_scheme"
  show "wp (acquire_conn_cb ae c) (\<lambda>_ w'. quiet w w' \<and> open_fds (trace w') = open_fds (trace w)) w"
    by (rule wp_mono [OF cf.keeps_wp [OF frame_acquire_conn_cb]]) (simp add: command_frame_def quiet_def)
qed

text \<open>
  The tags change nothing of the manager, of the output or of the activation.
\<close>

definition output_frame :: "'a abort_state_scheme \<Rightarrow> 'a abort_state_scheme \<Rightarrow> bool" where
  "output_frame s s' \<longleftrightarrow>
     sapi_ops s' = sapi_ops s \<and> http_response_code s' = http_response_code s \<and>
     request_method s' = request_method s \<and>
     sapi_name s' = sapi_name s \<and> during_request_startup s' = during_request_startup s"

definition tagging_frame :: "'a abort_state_scheme \<Rightarrow> 'a abort_state_scheme \<Rightarrow> bool" where
  "tagging_frame s s' \<longleftrightarrow> output_frame s s' \<and>
     trace s' = trace s \<and> mgr s' = mgr s \<and> launch_failure_fd_lock s' = launch_failure_fd_lock s \<and>
     appsec_enabled s' = appsec_enabled s \<and> enabled_by_configuration s' = enabled_by_configuration s"

interpretation oframe: helper_frame output_frame
  by unfold_locales (auto simp: output_frame_def)

interpretation tframe: frame_relation tagging_frame
  by unfold_locales (auto simp: tagging_frame_def output_frame_def)

lemma output_command: "keeps command_frame m \<Longrightarrow> keeps output_frame m"
  by (auto simp: keeps_def command_frame_def output_frame_def)

lemma tagging_add_tag: "tagging_frame s (snd (dd_trace_root_span_add_tag t v s))"
  by (auto simp: add_tag_cases tagging_frame_def output_frame_def split: option.splits)

lemma tagging_prepare: "tagging_frame s (prepare_root_span s)"
  by (auto simp: prepare_root_span_def Let_def set_runtime_family_add_tag add_tag_cases tagging_frame_def
      output_frame_def dd_trace_set_priority_sampling_on_root_def split: option.splits)

lemma tagging_ancillary:
  "tagging_frame s (add_basic_ancillary_tags c s)" "tagging_frame s (snd (add_all_ancillary_tags c s))"
  by (auto simp: add_basic_ancillary_tags_def add_all_ancillary_tags_def tagging_frame_def output_frame_def
      split: option.splits)

lemma tagging_add_tags: "tagging_frame s (dd_tags_add_tags c s)"
proof -
  define s3 where "s3 = prepare_root_span s"
  obtain r4 s4 where d: "dd_trace_root_span_add_tag DD_TAG_DATA
      (ZString (concat_json_fragments (appsec_json_frags s3))) s3 = (r4, s4)" by force
  obtain r5 s5 where e: "dd_trace_root_span_add_tag DD_TAG_EVENT (ZString ''true'') s4 = (r5, s5)" by force
  have s3: "tagging_frame s s3" by (simp add: s3_def tagging_prepare)
  moreover have s4: "tagging_frame s s4"
    using tagging_add_tag [of s3] d by (metis tframe.frame_trans s3 snd_conv)
  moreover have "tagging_frame s s5"
    using tagging_add_tag [of s4] e by (metis tframe.frame_trans s4 snd_conv)
  ultimately show ?thesis
    using tframe.frame_trans [of s s3, OF _ tagging_ancillary(1) [of s3 c]]
      tframe.frame_trans [of s s5, OF _ tagging_ancillary(2) [of s5 c]]
    by (simp add: dd_tags_add_tags_def s3_def [symmetric] d e)
qed

lemma tagging_output: "tagging_frame s s' \<Longrightarrow> output_frame s s'"
  by (simp add: tagging_frame_def)

lemma tagging_tags_rshutdown: "tagging_frame s (dd_tags_rshutdown s)"
  by (simp add: dd_tags_rshutdown_def tagging_frame_def output_frame_def)

lemma output_rshutdown_verdict: "keeps output_frame (rshutdown_verdict ae ign)"
  unfolding rshutdown_verdict_def
  by (intro oframe.keeps_helper_rules oframe.keeps_helper output_command [OF frame_commands(2)]
      oframe.keeps_modify tagging_add_tags [THEN tagging_output] tagging_tags_rshutdown [THEN tagging_output])

lemma rshutdown_ignoring_output: "output_frame s (rshutdown_ignoring ae s)"
  unfolding rshutdown_ignoring_def by (rule output_rshutdown_verdict [unfolded keeps_def, rule_format])

interpretation ri: rshutdown_contract "rshutdown_ignoring ae" for ae
  by unfold_locales (simp_all add: rshutdown_ignoring_output [unfolded output_frame_def])

lemma keeps_case_outcome:
  "keeps R m \<Longrightarrow> (\<And>x. keeps R (n x)) \<Longrightarrow> keeps R (case p of Undefined \<Rightarrow> m | Defined x \<Rightarrow> n x)"
  by (simp split: outcome.splits)

section \<open>Frames of the request handlers\<close>

text \<open>
  A relation that holds across the commands, the tags, the operations of the manager and aborting holds
  across the handlers of a request.
\<close>

locale request_frame = abort_frame R
  for R :: "'a ddappsec_state_scheme \<Rightarrow> 'a ddappsec_state_scheme \<Rightarrow> bool" and ae :: "'n appsec_env" +
  assumes frame_command: "command_frame s s' \<Longrightarrow> R s s'"
    and frame_tagging: "tagging_frame s s' \<Longrightarrow> R s s'"
    and frame_acquire: "keeps R (dd_helper_mgr_acquire_conn (ce_sys (ae_cmd ae)) (ae_helper ae) (acquire_conn_cb ae))"
    and frame_close: "keeps R (dd_helper_close_conn (ce_sys (ae_cmd ae)))"
    and frame_rshutdown: "keeps R dd_helper_rshutdown"
    and frame_shutting: "R s (s\<lparr>during_request_shutdown := b\<rparr>)"
    and frame_client_ip: "R s (s\<lparr>client_ip := addr\<rparr>)"
begin

lemma keeps_command: "keeps command_frame m \<Longrightarrow> keeps R m"
  by (simp add: keeps_def frame_command)

lemmas keeps_commands = frame_commands [THEN keeps_command]

lemma keeps_rshutdown_verdict: "keeps R (rshutdown_verdict ae ign)"
  unfolding rshutdown_verdict_def dd_helper_mgr_cur_conn_def
  by (intro keeps_rules keeps_commands frame_close frame_rshutdown keeps_modify
      tagging_add_tags [THEN frame_tagging] tagging_tags_rshutdown [THEN frame_tagging])

lemma R_rshutdown_ignoring: "R s (rshutdown_ignoring ae s)"
  unfolding rshutdown_ignoring_def by (rule keeps_rshutdown_verdict [unfolded keeps_def, rule_format])

lemma keeps_blocking: "keeps R (apply_blocking (rshutdown_ignoring ae) server res)"
  unfolding apply_blocking_def dd_request_abort_static_page_def
  by (intro keeps_rules keeps_State R_static_page R_redirect R_rshutdown_ignoring)

lemma keeps_appsec_rshutdown: "keeps R (dd_appsec_rshutdown ae ign)"
  unfolding dd_appsec_rshutdown_def
  by (intro keeps_rules keeps_rshutdown_verdict keeps_blocking keeps_modify frame_flush)

lemma keeps_php_rshutdown: "keeps R (php_rshutdown ae)"
proof -
  have "R s (s\<lparr>client_ip := addr, during_request_shutdown := b\<rparr>)" for s addr b
    using frame_trans [OF frame_client_ip frame_shutting] by simp
  then show ?thesis
    unfolding php_rshutdown_def dd_tags_rshutdown_testing_def
    by (intro keeps_rules keeps_appsec_rshutdown keeps_modify frame_shutting
        tagging_tags_rshutdown [THEN frame_tagging])
qed

lemma keeps_do_rinit: "keeps R (do_rinit ae)"
proof -
  have "tagging_frame s (dd_tags_rinit s)" for s :: "'a ddappsec_state_scheme"
    by (simp add: dd_tags_rinit_def tagging_frame_def output_frame_def)
  then show ?thesis
    unfolding do_rinit_def
    by (intro keeps_rules frame_acquire frame_close keeps_blocking keeps_commands keeps_modify frame_tagging)
qed

lemma keeps_testing_rinit: "keeps R (testing_rinit ae)"
  unfolding testing_rinit_def dd_request_abort_static_page_def
  by (intro keeps_rules keeps_State R_static_page R_rshutdown_ignoring)

lemma keeps_user_verdict:
  "keeps R (dd_find_and_apply_verdict_for_user (ae_cmd ae) (rshutdown_ignoring ae) server user_id)"
proof -
  have "tagging_frame s (dd_tags_set_event_user_id user_id s)" for s :: "'a ddappsec_state_scheme"
    by (simp add: dd_tags_set_event_user_id_def tagging_frame_def output_frame_def)
  then show ?thesis
    unfolding dd_find_and_apply_verdict_for_user_def dd_helper_mgr_cur_conn_def
    by (intro keeps_rules keeps_blocking keeps_commands keeps_modify frame_tagging)
qed

lemma keeps_rinit_enabled: "keeps R (rinit_enabled ae)"
proof -
  have "tagging_frame s (dd_trace_rinit s)" for s :: "'a ddappsec_state_scheme"
    by (simp add: dd_trace_rinit_def tagging_frame_def output_frame_def Let_def)
  then show ?thesis
    unfolding rinit_enabled_def
    by (intro keeps_rules keeps_case_outcome keeps_testing_rinit keeps_do_rinit keeps_modify frame_skip
        frame_client_ip frame_tagging)
qed

end

section \<open>The invariant of the manager across the extension\<close>

definition mgr_kept :: "'w helper_world_scheme \<Rightarrow> 'w helper_world_scheme \<Rightarrow> bool" where
  "mgr_kept w w' \<longleftrightarrow> (mgr_inv w \<longrightarrow> mgr_inv w')"

lemma kept_same:
  "mgr w' = mgr w \<Longrightarrow> launch_failure_fd_lock w' = launch_failure_fd_lock w \<Longrightarrow>
   open_fds (trace w') = open_fds (trace w) \<Longrightarrow> mgr_kept w w'"
  by (auto simp: mgr_kept_def mgr_inv_def helper_inv_def mgr_fds_def)

interpretation kept: abort_frame mgr_kept
proof unfold_locales
  fix s :: "'a abort_state_scheme"
  show "mgr_kept s (dd_trace_close_all_spans_and_flush s)"
    by (rule kept_same) (simp_all add: dd_trace_close_all_spans_and_flush_def)
qed (auto simp: mgr_kept_def mgr_inv_def helper_inv_def mgr_fds_def)

lemma kept_wp: "(\<And>w. mgr_inv w \<Longrightarrow> wp m (\<lambda>_. mgr_inv) w) \<Longrightarrow> keeps mgr_kept m"
  by (simp add: keeps_def mgr_kept_def wp_fst_snd)

lemma kept_helper_shutdown:
  "keeps mgr_kept dd_helper_rshutdown" "keeps mgr_kept (dd_helper_shutdown env)"
  by (auto simp: keeps_def mgr_kept_def dd_helper_rshutdown_def dd_helper_shutdown_def mgr_inv_def helper_inv_def
      mgr_fds_def split: if_splits)

lemma mgr_request_frame:
  assumes "positive_fds (ce_sys (ae_cmd ae))" "parent_env (ce_sys (ae_cmd ae))"
  shows "request_frame mgr_kept ae"
proof unfold_locales
  show "keeps mgr_kept (dd_helper_mgr_acquire_conn (ce_sys (ae_cmd ae)) (ae_helper ae) (acquire_conn_cb ae))"
    by (rule kept_wp, rule wp_mono [OF wp_acquire_conn [OF assms acquire_conn_cb_keeps]])
       (simp_all add: acquire_post_def)
  show "keeps mgr_kept (dd_helper_close_conn (ce_sys (ae_cmd ae)))"
    by (rule kept_wp, rule wp_mono [OF wp_close_conn [OF assms(1)]]) simp_all
qed (auto simp: kept_helper_shutdown command_frame_def tagging_frame_def intro: kept_same)

lemma kept_rinit:
  assumes "positive_fds (ce_sys (ae_cmd ae))" "parent_env (ce_sys (ae_cmd ae))"
  shows "keeps mgr_kept (php_rinit ae first)"
proof -
  have "mgr_kept s (rinit_once ae s)" "mgr_kept s (check_enabled ec s)"
    for ec and s :: "'b ddappsec_state_scheme"
    by (rule kept_same; simp add: rinit_once_def dd_request_abort_rinit_once_def check_enabled_def Let_def)+
  then show ?thesis
    unfolding php_rinit_def
    by (intro kept.keeps_rules kept.keeps_modify request_frame.keeps_rinit_enabled [OF mgr_request_frame [OF assms]])
       (simp_all add: kept_same)
qed

lemma kept_mshutdown: "keeps mgr_kept (php_mshutdown env)"
  unfolding php_mshutdown_def
  by (intro kept.keeps_rules kept.keeps_modify kept_helper_shutdown kept_same)
     (simp_all add: dd_tags_shutdown_def dd_trace_shutdown_def split: option.splits)

text \<open>
  The states of a worker: its first state is that of a started module; then come requests (each in its
  own surroundings), verdicts on users, and in between whatever PHP does without touching the manager.
\<close>

inductive appsec_reachable :: "'n command_env \<Rightarrow> 'a ddappsec_state_scheme \<Rightarrow> bool" for ce where
  started: "trace s = [] \<Longrightarrow> mgr s = initial_mgr \<Longrightarrow> launch_failure_fd_lock s = -1 \<Longrightarrow> appsec_reachable ce s"
| php: "appsec_reachable ce s \<Longrightarrow> trace s' = trace s \<Longrightarrow> mgr s' = mgr s \<Longrightarrow>
    launch_failure_fd_lock s' = launch_failure_fd_lock s \<Longrightarrow> appsec_reachable ce s'"
| rinit: "appsec_reachable ce s \<Longrightarrow> ae_cmd ae = ce \<Longrightarrow>
    run_state (php_rinit ae first) s = (out, s') \<Longrightarrow> appsec_reachable ce s'"
| user: "appsec_reachable ce s \<Longrightarrow> ae_cmd ae = ce \<Longrightarrow>
    run_state (dd_find_and_apply_verdict_for_user ce (rshutdown_ignoring ae) server user_id) s = (out, s') \<Longrightarrow>
    appsec_reachable ce s'"
| rshutdown: "appsec_reachable ce s \<Longrightarrow> ae_cmd ae = ce \<Longrightarrow>
    run_state (php_rshutdown ae) s = (out, s') \<Longrightarrow> appsec_reachable ce s'"
| mshutdown: "appsec_reachable ce s \<Longrightarrow> run_state (php_mshutdown (ce_sys ce)) s = (u, s') \<Longrightarrow>
    appsec_reachable ce s'"

lemma kept_step: "keeps mgr_kept m \<Longrightarrow> run_state m s = (r, s') \<Longrightarrow> mgr_inv s \<Longrightarrow> mgr_inv s'"
  by (metis keeps_def mgr_kept_def snd_conv)

lemma appsec_reachable_mgr_inv:
  assumes "appsec_reachable ce s" "positive_fds (ce_sys ce)" "parent_env (ce_sys ce)"
  shows "mgr_inv s"
  using assms(1)
proof (induction rule: appsec_reachable.induct)
  case (started s)
  then show ?case by (simp add: mgr_inv_def helper_inv_def mgr_fds_def initial_mgr_def dd_conn_connected_def)
next
  case (php s s')
  then show ?case using kept_same [of s' s] by (simp add: mgr_kept_def)
next
  case (rinit s ae first out s')
  then show ?case using kept_step [OF kept_rinit] assms(2,3) by blast
next
  case (user s ae server user_id out s')
  then show ?case using kept_step [OF request_frame.keeps_user_verdict [OF mgr_request_frame]] assms(2,3) by blast
next
  case (rshutdown s ae out s')
  then show ?case using kept_step [OF request_frame.keeps_php_rshutdown [OF mgr_request_frame]] assms(2,3) by blast
next
  case (mshutdown s u s')
  then show ?case using kept_step [OF kept_mshutdown] by blast
qed

end
