(* ===== verification/Activation.thy ===== *)
theory Activation
  imports Ddappsec_Laws
begin

text \<open>
  When the extension is active, and what it does to a request. An abstract machine says how the
  configuration and the remote configuration turn the extension on and off; the handlers of ddappsec.c
  refine it. The other laws are that every handler returns, and that a request gets no output from the
  extension unless a command of the helper came back with a verdict to block it.
\<close>

section \<open>The abstract machine\<close>

datatype activation = Off | On | Remote bool

definition active :: "activation \<Rightarrow> bool" where
  "active a = (case a of Off \<Rightarrow> False | On \<Rightarrow> True | Remote b \<Rightarrow> b)"

text \<open>What the configuration asks for at the start of a request.\<close>

definition configured :: "enabled_config \<Rightarrow> bool \<Rightarrow> bool \<Rightarrow> string \<Rightarrow> activation" where
  "configured ec testing traced module_name =
     (if testing \<or> traced \<and> module_name \<noteq> ''cli'' \<and> \<not> ec_phpinfo_as_text ec
      then if ec_default ec then (if ec_remote_config_enabled ec then Remote False else Off)
        else (if ec_appsec_enabled ec then On else Off)
      else Off)"

text \<open>Only the remote configuration changes it, and only when the configuration left it open.\<close>

fun reaches :: "activation \<Rightarrow> activation \<Rightarrow> bool" where
  "reaches (Remote b) a' \<longleftrightarrow> a' \<in> {Remote True, Remote False}"
| "reaches a a' \<longleftrightarrow> a' = a"

section \<open>Refinement\<close>

definition activation_of :: "'a abort_state_scheme \<Rightarrow> activation" where
  "activation_of s =
     (case enabled_by_configuration s of
        DISABLED \<Rightarrow> Off | ENABLED \<Rightarrow> On | NOT_CONFIGURED \<Rightarrow> Remote (appsec_enabled s = ENABLED))"

definition activation_inv :: "'a abort_state_scheme \<Rightarrow> bool" where
  "activation_inv s \<longleftrightarrow>
     (enabled_by_configuration s = ENABLED \<longrightarrow> appsec_enabled s = ENABLED) \<and>
     (enabled_by_configuration s = DISABLED \<longrightarrow> appsec_enabled s = DISABLED)"

lemma active_enabled: "activation_inv s \<Longrightarrow> active (activation_of s) \<longleftrightarrow> appsec_enabled s = ENABLED"
  by (auto simp: activation_inv_def activation_of_def active_def split: enabled_configuration.splits)

lemma check_enabled_configured:
  "activation_of (check_enabled ec s) = configured ec (ts_testing s) (dd_trace_enabled s) (sapi_name s)"
  "activation_inv (check_enabled ec s)"
  by (simp_all add: check_enabled_def activation_of_def configured_def activation_inv_def Let_def)

definition act_frame :: "'a abort_state_scheme \<Rightarrow> 'a abort_state_scheme \<Rightarrow> bool" where
  "act_frame s s' \<longleftrightarrow> enabled_by_configuration s' = enabled_by_configuration s \<and>
     (enabled_by_configuration s = ENABLED \<longrightarrow> appsec_enabled s = ENABLED \<longrightarrow> appsec_enabled s' = ENABLED)"

interpretation act_helper: helper_frame act_frame
  by unfold_locales (auto simp: act_frame_def)

lemma act_command: "command_frame s s' \<Longrightarrow> act_frame s s'"
  by (simp add: command_frame_def act_frame_def)

interpretation act: request_frame act_frame ae for ae
proof unfold_locales
  have "keeps act_frame (acquire_conn_cb ae c)" for c
    using frame_acquire_conn_cb unfolding keeps_def by (blast intro: act_command)
  then show "keeps act_frame (dd_helper_mgr_acquire_conn (ce_sys (ae_cmd ae)) (ae_helper ae) (acquire_conn_cb ae))"
    by (rule act_helper.keeps_acquire_conn)
qed (auto simp: act_frame_def command_frame_def dd_trace_close_all_spans_and_flush_def tagging_frame_def
    intro: act_helper.keeps_close_conn act_helper.keeps_shutdowns)

text \<open>Across a step in this frame that the configuration did not switch off, the abstract machine steps.\<close>

lemma act_frame_reaches:
  assumes "act_frame s s'" "activation_inv s" "enabled_by_configuration s \<noteq> DISABLED"
  shows "reaches (activation_of s) (activation_of s') \<and> activation_inv s'"
  using assms
  by (auto simp: act_frame_def activation_inv_def activation_of_def split: enabled_configuration.splits)

text \<open>The start of a request, up to and after its configuration.\<close>

definition configured_state :: "'n appsec_env \<Rightarrow> bool \<Rightarrow> 'a ddappsec_state_scheme \<Rightarrow> 'a ddappsec_state_scheme" where
  "configured_state ae first s =
     (let s1 = s\<lparr>during_request_shutdown := False\<rparr> in
      check_enabled (ae_enabled ae) (if first then rinit_once ae s1 else s1))"

lemma configured_state_same:
  "trace (configured_state ae first s) = trace s" "mgr (configured_state ae first s) = mgr s"
  "sapi_ops (configured_state ae first s) = sapi_ops s" "sapi_name (configured_state ae first s) = sapi_name s"
  "ts_testing (configured_state ae first s) = ts_testing s"
  "root_meta (configured_state ae first s) = root_meta s" "client_ip (configured_state ae first s) = client_ip s"
  by (simp_all add: configured_state_def check_enabled_def rinit_once_def dd_request_abort_rinit_once_def Let_def)

lemma configured_state_activation:
  "activation_of (configured_state ae first s) =
     configured (ae_enabled ae) (ts_testing s) (dd_trace_enabled s) (sapi_name s)"
  "activation_inv (configured_state ae first s)"
  by (simp_all add: configured_state_def check_enabled_configured Let_def rinit_once_def
      dd_request_abort_rinit_once_def dd_trace_enabled_def)

lemma run_rinit_off:
  assumes "enabled_by_configuration (configured_state ae first s) = DISABLED"
  shows "run_state (php_rinit ae first) s = (Some Returned, configured_state ae first s)"
  using assms by (cases first) (simp_all add: php_rinit_def configured_state_def Let_def)

lemma run_rinit_on:
  assumes "enabled_by_configuration (configured_state ae first s) \<noteq> DISABLED"
  shows "run_state (php_rinit ae first) s = run_state (rinit_enabled ae) (configured_state ae first s)"
  using assms by (cases first) (simp_all add: php_rinit_def configured_state_def Let_def)

lemma run_rinit_frame:
  assumes "run_state (php_rinit ae first) s = (out, s')"
    and "enabled_by_configuration (configured_state ae first s) \<noteq> DISABLED"
  shows "act_frame (configured_state ae first s) s'"
proof -
  have "s' = snd (run_state (rinit_enabled ae) (configured_state ae first s))" using assms(1) run_rinit_on [OF assms(2)] by (metis snd_conv)
  then show ?thesis using act.keeps_rinit_enabled unfolding keeps_def by blast
qed

lemma rinit_refines:
  assumes "run_state (php_rinit ae first) s = (out, s')"
  shows "reaches (configured (ae_enabled ae) (ts_testing s) (dd_trace_enabled s) (sapi_name s)) (activation_of s') \<and>
    activation_inv s'"
proof (cases "enabled_by_configuration (configured_state ae first s) = DISABLED")
  case True
  then have "s' = configured_state ae first s" using run_rinit_off assms by fastforce
  moreover have "reaches a a" for a by (cases a) auto
  ultimately show ?thesis using configured_state_activation [of ae first s] by metis
next
  case False
  from act_frame_reaches [OF run_rinit_frame [OF assms False] configured_state_activation(2) False]
  show ?thesis unfolding configured_state_activation .
qed

lemma rshutdown_off:
  assumes "enabled_by_configuration s = DISABLED"
  shows "run_state (php_rshutdown ae) s =
    (Some Returned, s\<lparr>client_ip := dd_ip_extraction_rshutdown (client_ip s), during_request_shutdown := False\<rparr>)"
  using assms by (simp add: php_rshutdown_def)

lemma rshutdown_refines:
  assumes "run_state (php_rshutdown ae) s = (out, s')" "activation_inv s"
  shows "reaches (activation_of s) (activation_of s') \<and> activation_inv s'"
proof (cases "enabled_by_configuration s = DISABLED")
  case True
  with assms rshutdown_off [OF True, of ae] show ?thesis
    by (auto simp: activation_of_def activation_inv_def)
next
  case False
  have "act_frame s s'" using act.keeps_php_rshutdown [of ae] assms(1) unfolding keeps_def by (metis snd_conv)
  from act_frame_reaches [OF this assms(2) False] show ?thesis .
qed

section \<open>Every handler returns\<close>

definition returns :: "('s, 'r option) state \<Rightarrow> bool" where
  "returns m \<longleftrightarrow> (\<forall>s. fst (run_state m s) \<noteq> None)"

lemma returnsD: "returns m \<Longrightarrow> fst (run_state m s) \<noteq> None"
  by (simp add: returns_def)

lemma returns_ret: "returns (ret (Some x))"
  by (simp add: returns_def)

lemma returns_bind: "(\<And>a. returns (f a)) \<Longrightarrow> returns (m \<bind> f)"
  by (simp add: returns_def case_prod_beta)

lemma returns_some_bind: "returns m \<Longrightarrow> (\<And>x. returns (f (Some x))) \<Longrightarrow> returns (m \<bind> f)"
  by (auto simp: returns_def case_prod_beta) (metis option.exhaust)

lemma returns_if: "(b \<Longrightarrow> returns m) \<Longrightarrow> (\<not> b \<Longrightarrow> returns n) \<Longrightarrow> returns (if b then m else n)"
  by simp

lemma returns_case: "returns m \<Longrightarrow> (\<And>x. returns (n x)) \<Longrightarrow> returns (case p of None \<Rightarrow> m | Some x \<Rightarrow> n x)"
  by (simp split: option.splits)

lemma returns_some_case: "returns (n x) \<Longrightarrow> returns (case Some x of None \<Rightarrow> m | Some x \<Rightarrow> n x)"
  by simp

lemma returns_commands:
  assumes "recv_ok (ce_sys ce)"
  shows "returns (dd_request_init ce cn rq)" "returns (dd_request_shutdown ce cn rs)"
    "returns (dd_request_exec ce cn data)" "returns (dd_config_sync ce cn)"
  by (simp_all add: returns_def commands_return [OF assms])

text \<open>The computations of which only the effect on the state is used.\<close>

lemmas returns_effects =
  returns_bind [where m = "gets f" for f] returns_bind [where m = "modify f" for f]
  returns_bind [where m = dd_helper_mgr_cur_conn] returns_bind [where m = dd_helper_rshutdown]
  returns_bind [where m = "dd_helper_close_conn e" for e]
  returns_bind [where m = "dd_helper_mgr_acquire_conn e c i" for e c i]
  returns_bind [where m = "apply_blocking f server res" for f server res]
  returns_bind [where m = "if b then modify f else ret u" for b f u]
  returns_bind [where m = "State f" for f]

lemmas returns_rules = returns_if returns_ret returns_effects returns_some_case

lemma rshutdown_returns:
  assumes "recv_ok (ce_sys (ae_cmd ae))"
  shows "returns (rshutdown_verdict ae ign)" "returns (dd_appsec_rshutdown ae ign)" "returns (php_rshutdown ae)"
proof -
  show v: "returns (rshutdown_verdict ae ign)" for ign
    unfolding rshutdown_verdict_def
    by (intro returns_rules returns_commands [OF assms] returns_case returns_some_bind)
  show a: "returns (dd_appsec_rshutdown ae ign)" for ign
    unfolding dd_appsec_rshutdown_def by (intro returns_rules returns_some_bind [OF v])
  show "returns (php_rshutdown ae)"
    unfolding php_rshutdown_def by (intro returns_rules a returns_some_bind)
qed

lemma do_rinit_returns:
  assumes "recv_ok (ce_sys (ae_cmd ae))"
  shows "returns (do_rinit ae)"
  unfolding do_rinit_def
  by (intro returns_rules returns_commands [OF assms] returns_some_bind)

lemma testing_rinit_returns: "returns (testing_rinit ae)"
  unfolding testing_rinit_def by (intro returns_case returns_rules)

lemma user_verdict_returns:
  assumes "recv_ok (ce_sys ce)"
  shows "returns (dd_find_and_apply_verdict_for_user ce f server user_id)"
  unfolding dd_find_and_apply_verdict_for_user_def
  by (intro returns_rules returns_case returns_commands [OF assms] returns_some_bind)

lemma rinit_returns:
  assumes "recv_ok (ce_sys (ae_cmd ae))"
    and "dd_ip_extraction_rinit (ae_inet ae) (ae_ip_header ae) (ae_server ae) (client_ip s) \<noteq> Undefined"
  shows "fst (run_state (php_rinit ae first) s) \<noteq> None"
proof (cases "enabled_by_configuration (configured_state ae first s) = DISABLED")
  case True
  then show ?thesis by (simp add: run_rinit_off)
next
  case False
  let ?s1 = "dd_trace_rinit ((configured_state ae first s)\<lparr>skip_rshutdown := False\<rparr>)"
  have "client_ip ?s1 = client_ip s"
    by (simp add: dd_trace_rinit_def Let_def configured_state_same)
  moreover obtain addr where "dd_ip_extraction_rinit (ae_inet ae) (ae_ip_header ae) (ae_server ae) (client_ip s) = Defined addr"
    using assms(2) by (cases "dd_ip_extraction_rinit (ae_inet ae) (ae_ip_header ae) (ae_server ae) (client_ip s)") auto
  ultimately have run: "run_state (rinit_enabled ae) (configured_state ae first s) =
      run_state (if ts_testing ?s1 then testing_rinit ae else do_rinit ae) (?s1\<lparr>client_ip := addr\<rparr>)"
    by (simp add: rinit_enabled_def)
  show ?thesis
    unfolding run_rinit_on [OF False] run
    by (rule returnsD) (intro returns_if testing_rinit_returns do_rinit_returns assms(1))
qed

section \<open>No output without a verdict\<close>

text \<open>
  Either the output and the response are as they were and the request goes on, or some command gave a
  blocking result, the request was marked as blocked, and aborting it did the rest.
\<close>

definition blocked_by ::
  "'n appsec_env \<Rightarrow> zval option \<Rightarrow> 'a ddappsec_state_scheme \<Rightarrow> outcome_kind option \<Rightarrow> 'a ddappsec_state_scheme \<Rightarrow> bool" where
  "blocked_by ae server s out s' \<longleftrightarrow>
     (\<exists>res s1 k. blocking res \<and> is_blocked s1 \<and> output_frame s s1 \<and> out = Some k \<and>
        run_state (apply_blocking (rshutdown_ignoring ae) server res) s1 = (k, s'))"

definition silent_or_blocked ::
  "'n appsec_env \<Rightarrow> zval option \<Rightarrow> 'a ddappsec_state_scheme \<Rightarrow> outcome_kind option \<Rightarrow> 'a ddappsec_state_scheme \<Rightarrow> bool" where
  "silent_or_blocked ae server s out s' \<longleftrightarrow>
     output_frame s s' \<and> out \<noteq> Some Bailed_out \<or> blocked_by ae server s out s'"

lemma silent_apply:
  assumes "output_frame s s1" "blocking res \<longrightarrow> is_blocked s1"
  shows "wp (do { k \<leftarrow> apply_blocking (rshutdown_ignoring ae) server res; ret (Some k) })
    (silent_or_blocked ae server s) s1"
proof (cases "blocking res")
  case True
  then show ?thesis
    using assms by (force simp: wp_fst_snd silent_or_blocked_def blocked_by_def case_prod_beta)
next
  case False
  then show ?thesis
    using assms by (simp add: wp_fst_snd silent_or_blocked_def apply_blocking_def blocking_def case_prod_beta)
qed

lemma wp_output_bind:
  assumes "keeps output_frame m" "output_frame s s1" "\<And>a s2. output_frame s s2 \<Longrightarrow> wp (f a) Q s2"
  shows "wp (m \<bind> f) Q s1"
  using assms by (auto simp: wp_fst_snd keeps_def case_prod_beta intro: oframe.frame_trans)

text \<open>The answer of a command, or of a sequence of them.\<close>

definition answered ::
  "'a ddappsec_state_scheme \<Rightarrow> dd_result option \<Rightarrow> 'a ddappsec_state_scheme \<Rightarrow> bool" where
  "answered s r s' \<longleftrightarrow> output_frame s s' \<and> (\<forall>res. r = Some res \<longrightarrow> blocking res \<longrightarrow> is_blocked s')"

lemma answered_command:
  assumes "keeps command_frame m" "wp m (\<lambda>r s'. \<forall>res. r = Some res \<longrightarrow> blocking res \<longrightarrow> is_blocked s') s1"
    and "output_frame s s1"
  shows "wp m (answered s) s1"
proof -
  have "wp m (\<lambda>_. output_frame s1) s1" by (rule oframe.keeps_wp [OF output_command [OF assms(1)]])
  from wp_conj [OF assms(2) this] show ?thesis
    by (rule wp_mono) (auto simp: answered_def intro: oframe.frame_trans [OF assms(3)])
qed

lemmas answered_commands =
  answered_command [OF frame_commands(1) commands_mark(1)] answered_command [OF frame_commands(2) commands_mark(2)]
  answered_command [OF frame_commands(3) commands_mark(3)] answered_command [OF frame_commands(4) commands_mark(4)]

lemma answered_init:
  assumes "output_frame s s1"
  shows "wp (if enabled then dd_request_init ce cn rq
      else do {
        r \<leftarrow> dd_config_sync ce cn;
        enabled \<leftarrow> gets appsec_enabled;
        if r = Some dd_success \<and> enabled = ENABLED then dd_request_init ce cn rq else ret r
      }) (answered s) s1"
proof (intro wp_ifI wp_bindI)
  show "wp (dd_request_init ce cn rq) (answered s) s1" by (rule answered_commands(1) [OF assms])
  show "wp (dd_config_sync ce cn) (\<lambda>r. wp (do {
      enabled \<leftarrow> gets appsec_enabled;
      if r = Some dd_success \<and> enabled = ENABLED then dd_request_init ce cn rq else ret r }) (answered s)) s1"
    by (rule wp_mono [OF answered_commands(4) [OF assms]])
       (intro wp_bindI wp_getsI wp_ifI wp_retI answered_commands(1), simp_all add: answered_def)
qed

lemma silent_stop: "output_frame s s1 \<Longrightarrow> wp (ret (Some Returned)) (silent_or_blocked ae server s) s1"
  "output_frame s s1 \<Longrightarrow> wp (ret None) (silent_or_blocked ae server s) s1"
  by (simp_all add: wp_ret silent_or_blocked_def)

lemma user_verdict_silent:
  "wp (dd_find_and_apply_verdict_for_user (ae_cmd ae) (rshutdown_ignoring ae) server user_id)
     (silent_or_blocked ae server s) s"
proof -
  have user: "output_frame s1 (dd_tags_set_event_user_id user_id s1)" for s1 :: "'a ddappsec_state_scheme"
    by (simp add: dd_tags_set_event_user_id_def output_frame_def)
  have "wp (case r of None \<Rightarrow> ret None | Some res \<Rightarrow> do {
        modify (dd_tags_set_event_user_id user_id);
        out \<leftarrow> apply_blocking (rshutdown_ignoring ae) server res;
        ret (Some out) }) (silent_or_blocked ae server s) s2"
    if "output_frame s s2" "\<forall>res. r = Some res \<longrightarrow> blocking res \<longrightarrow> is_blocked s2"
    for r and s2 :: "'a ddappsec_state_scheme"
    using that oframe.frame_trans [OF that(1) user]
    by (intro wp_case_optionI silent_stop wp_bindI [where m = "modify f" for f] wp_modifyI silent_apply)
       (simp_all add: dd_tags_set_event_user_id_def)
  then have exec: "wp (dd_request_exec (ae_cmd ae) cn (user_data user_id)) (\<lambda>r. wp (case r of None \<Rightarrow> ret None
      | Some res \<Rightarrow> do {
          modify (dd_tags_set_event_user_id user_id);
          out \<leftarrow> apply_blocking (rshutdown_ignoring ae) server res;
          ret (Some out) }) (silent_or_blocked ae server s)) s" for cn
    by (intro wp_mono [OF answered_commands(3) [OF oframe.frame_refl]]) (simp add: answered_def)
  show ?thesis
    unfolding dd_find_and_apply_verdict_for_user_def dd_helper_mgr_cur_conn_def
    by (intro wp_bindI [where m = "gets f" for f] wp_getsI wp_ifI silent_stop oframe.frame_refl
        wp_bindI [where m = "ret u" for u] wp_bindI [where m = "gets f \<bind> g" for f g] wp_retI wp_case_optionI
        wp_bindI [where m = "dd_request_exec e c d" for e c d] exec)
qed

lemma do_rinit_silent: "wp (do_rinit ae) (silent_or_blocked ae (ae_server ae) s) s"
proof -
  have tags: "keeps output_frame (modify dd_tags_rinit)"
    by (simp add: keeps_def output_frame_def dd_tags_rinit_def)
  have acq: "keeps output_frame (dd_helper_mgr_acquire_conn e cfg (acquire_conn_cb ae))" for e cfg
    by (intro oframe.keeps_acquire_conn output_command frame_acquire_conn_cb)
  have fin: "wp (case r of None \<Rightarrow> ret None | Some res \<Rightarrow>
       if res = dd_network then do { dd_helper_close_conn (ce_sys (ae_cmd ae)); ret (Some Returned) }
       else do { out \<leftarrow> apply_blocking (rshutdown_ignoring ae) (ae_server ae) res; ret (Some out) })
      (silent_or_blocked ae (ae_server ae) s) s2" if "answered s r s2" for r and s2 :: "'a ddappsec_state_scheme"
    using that unfolding answered_def
    by (intro wp_case_optionI wp_ifI silent_stop silent_apply wp_output_bind [OF oframe.keeps_close_conn]) auto
  show ?thesis
    unfolding do_rinit_def
    by (intro wp_bindI [where m = "gets f" for f] wp_getsI wp_ifI silent_stop oframe.frame_refl
        wp_output_bind [OF tags oframe.frame_refl] wp_output_bind [OF acq]
        wp_bindI [where m = "if b then dd_request_init e c q else n" for b e c q n]
        wp_mono [OF answered_init fin])
qed

end
