(* ===== verification/Logging.thy ===== *)
theory Logging
  imports String_Helpers Os
begin

text \<open>
  src/extension/logging.c and logging.h: the log levels, the lazy choice of where messages go, the
  writers and the shutdown.

  The state extends the trace of calls with the static variables of the module and with the error
  reporting of the user's handlers, which the module masks around its own messages. Messages are given
  as they are after formatting. The configuration and the phase of the PHP engine at the time of a call are a
  record; \<open>strerror\<close> is a field of it.
\<close>

section \<open>Levels\<close>

datatype dd_log_level_t =
    dd_log_off | dd_log_fatal | dd_log_error | dd_log_warning | dd_log_info | dd_log_debug | dd_log_trace

fun level_int :: "dd_log_level_t \<Rightarrow> int" where
  "level_int dd_log_off = 0"
| "level_int dd_log_fatal = 1"
| "level_int dd_log_error = 2"
| "level_int dd_log_warning = 3"
| "level_int dd_log_info = 4"
| "level_int dd_log_debug = 5"
| "level_int dd_log_trace = 6"

lemma level_int_inject: "level_int a = level_int b \<longleftrightarrow> a = b"
  by (cases a; cases b) auto

instantiation dd_log_level_t :: linorder
begin

definition less_eq_dd_log_level_t :: "dd_log_level_t \<Rightarrow> dd_log_level_t \<Rightarrow> bool" where
  "less_eq_dd_log_level_t a b = (level_int a \<le> level_int b)"

definition less_dd_log_level_t :: "dd_log_level_t \<Rightarrow> dd_log_level_t \<Rightarrow> bool" where
  "less_dd_log_level_t a b = (level_int a < level_int b)"

instance
  by standard (auto simp: less_eq_dd_log_level_t_def less_dd_log_level_t_def level_int_inject)

end

definition dd_log_level_from_str :: "string \<Rightarrow> dd_log_level_t option" where
  "dd_log_level_from_str log_level =
     (if dd_string_equals_lc log_level ''off'' then Some dd_log_off
      else if dd_string_equals_lc log_level ''fatal'' then Some dd_log_fatal
      else if dd_string_equals_lc log_level ''error'' then Some dd_log_error
      else if dd_string_equals_lc log_level ''warning'' \<or> dd_string_equals_lc log_level ''warn'' then Some dd_log_warning
      else if dd_string_equals_lc log_level ''info'' then Some dd_log_info
      else if dd_string_equals_lc log_level ''debug'' then Some dd_log_debug
      else if dd_string_equals_lc log_level ''trace'' then Some dd_log_trace
      else None)"

fun dd_log_level_to_str :: "dd_log_level_t \<Rightarrow> string" where
  "dd_log_level_to_str dd_log_off = ''off''"
| "dd_log_level_to_str dd_log_fatal = ''fatal''"
| "dd_log_level_to_str dd_log_error = ''error''"
| "dd_log_level_to_str dd_log_warning = ''warning''"
| "dd_log_level_to_str dd_log_info = ''info''"
| "dd_log_level_to_str dd_log_debug = ''debug''"
| "dd_log_level_to_str dd_log_trace = ''trace''"

definition dd_parse_log_level :: "string \<Rightarrow> dd_log_level_t option" where
  "dd_parse_log_level value = (if length value = 0 then None else dd_log_level_from_str (c_str value))"

text \<open>The priorities of syslog, \<open>LOG_CRIT\<close> to \<open>LOG_DEBUG\<close>, and the error levels of PHP.\<close>

fun log_level_to_syslog_pri :: "dd_log_level_t \<Rightarrow> int" where
  "log_level_to_syslog_pri dd_log_fatal = 2"
| "log_level_to_syslog_pri dd_log_error = 3"
| "log_level_to_syslog_pri dd_log_warning = 4"
| "log_level_to_syslog_pri dd_log_info = 5"
| "log_level_to_syslog_pri dd_log_debug = 7"
| "log_level_to_syslog_pri dd_log_trace = 7"
| "log_level_to_syslog_pri dd_log_off = 4"

definition log_E_WARNING :: u32 where "log_E_WARNING = 2"
definition log_E_NOTICE :: u32 where "log_E_NOTICE = 8"

definition log_level_to_php_err_reporting_pri :: "dd_log_level_t \<Rightarrow> u32" where
  "log_level_to_php_err_reporting_pri level =
     (if level \<in> {dd_log_fatal, dd_log_error, dd_log_warning} then log_E_WARNING else log_E_NOTICE)"

section \<open>State\<close>

datatype log_strategy = log_use_nothing | log_use_file | log_use_syslog | log_use_php_err_rep

record log_world = world +
  log_initialized :: bool
  mlog_fd :: int
  log_strategy :: log_strategy
  user_error_handler_error_reporting :: u32

record log_config =
  lc_log_file :: string
  lc_testing :: bool
  lc_log_level :: dd_log_level_t
  lc_global_log_level :: dd_log_level_t
  lc_first_init :: bool
  lc_modules_activated :: bool
  lc_during_request_startup :: bool
  lc_strerror :: "int \<Rightarrow> string"

definition dd_log_level :: "log_config \<Rightarrow> dd_log_level_t" where
  "dd_log_level cfg = (if lc_first_init cfg then lc_log_level cfg else lc_global_log_level cfg)"

definition at_request :: "log_config \<Rightarrow> bool" where
  "at_request cfg = (lc_modules_activated cfg \<or> lc_during_request_startup cfg)"

section \<open>Texts of errors\<close>

text \<open>
  With thread safety \<open>strerror\<close> is whichever \<open>strerror_r\<close> the C library has, found once by \<open>dd_log_startup\<close>. Such a
  function gets the number and the size of the buffer and gives a code and the text in the buffer.
\<close>

type_synonym strerror_r_t = "int \<Rightarrow> nat \<Rightarrow> int \<times> string"

definition strerror_r_fallback :: "(int \<Rightarrow> string) \<Rightarrow> strerror_r_t" where
  "strerror_r_fallback strerror errnum buflen = (0, take (buflen - 1) (strerror errnum))"

definition find_strerror_r :: "(string \<Rightarrow> strerror_r_t option) \<Rightarrow> (int \<Rightarrow> string) \<Rightarrow> strerror_r_t" where
  "find_strerror_r dlsym strerror =
     (case dlsym ''__xpg_strerror_r'' of
        Some f \<Rightarrow> f
      | None \<Rightarrow> (case dlsym ''strerror_r'' of Some f \<Rightarrow> f | None \<Rightarrow> strerror_r_fallback strerror))"

definition strerror_r :: "strerror_r_t \<Rightarrow> int \<Rightarrow> nat \<Rightarrow> string" where
  "strerror_r libc_strerror_r err buflen =
     (let (res, buf) = libc_strerror_r err buflen in if res \<noteq> 0 then [] else buf)"

section \<open>PHP error reporting\<close>

definition PHP_MSG_PREFIX :: string where "PHP_MSG_PREFIX = ''[ddappsec] ''"

definition mlog_php :: "sys_env \<Rightarrow> dd_log_level_t \<Rightarrow> string \<Rightarrow> ('w log_world_scheme, unit) state" where
  "mlog_php env level message = do {
     orig_ueher \<leftarrow> gets user_error_handler_error_reporting;
     modify (\<lambda>w. w\<lparr>user_error_handler_error_reporting := orig_ueher AND NOT (log_E_WARNING OR log_E_NOTICE)\<rparr>);
     ueher \<leftarrow> gets user_error_handler_error_reporting;
     _ \<leftarrow> sys env (Sys_php_verror ueher (log_level_to_php_err_reporting_pri level) (PHP_MSG_PREFIX @ message));
     modify (\<lambda>w. w\<lparr>user_error_handler_error_reporting := orig_ueher\<rparr>)
   }"

section \<open>Initialisation\<close>

definition SYSLOG_IDENT :: string where "SYSLOG_IDENT = ''ddog-appsec-php-ext''"

text \<open>Where the messages go, by the configured file. A path stays to be opened.\<close>

definition choose_strategy :: "sys_env \<Rightarrow> string \<Rightarrow> ('w log_world_scheme, string) state" where
  "choose_strategy env log_file =
     (if log_file = ''syslog'' then do {
        _ \<leftarrow> sys env (Sys_openlog SYSLOG_IDENT);
        modify (\<lambda>w. w\<lparr>log_strategy := log_use_syslog\<rparr>);
        ret []
      }
      else if log_file = ''stdout'' then do {
        modify (\<lambda>w. w\<lparr>log_strategy := log_use_file, mlog_fd := 1\<rparr>);
        ret []
      }
      else if log_file = ''stderr'' then do {
        modify (\<lambda>w. w\<lparr>log_strategy := log_use_file, mlog_fd := 2\<rparr>);
        ret []
      }
      else if log_file = ''php_error_reporting'' then do {
        modify (\<lambda>w. w\<lparr>log_strategy := log_use_php_err_rep\<rparr>);
        ret []
      }
      else do {
        modify (\<lambda>w. w\<lparr>log_strategy := log_use_file\<rparr>);
        ret (c_str log_file)
      })"

definition open_flags :: "log_config \<Rightarrow> open_flag list" where
  "open_flags cfg =
     [O_WRONLY, O_APPEND, O_NOFOLLOW] @ (if lc_testing cfg then [O_TRUNC] else []) @
     (if at_request cfg then [O_CREAT] else [])"

definition ENOENT :: int where "ENOENT = 2"

definition do_dd_log_init :: "sys_env \<Rightarrow> log_config \<Rightarrow> ('w log_world_scheme, dd_result) state" where
  "do_dd_log_init env cfg = do {
     path \<leftarrow> choose_strategy env (lc_log_file cfg);
     strategy \<leftarrow> gets log_strategy;
     fd \<leftarrow> gets mlog_fd;
     if strategy \<noteq> log_use_file \<or> fd \<noteq> -1 then ret dd_success
     else do {
       r \<leftarrow> sys env (Sys_open_log path (open_flags cfg));
       modify (\<lambda>w. w\<lparr>mlog_fd := rv r\<rparr>);
       if rv r = -1 then
         if \<not> at_request cfg \<and> errno r = ENOENT then ret dd_try_later
         else do {
           mlog_php env dd_log_warning
             (''Error opening log file '' @ [CHR 0x27] @ path @ [CHR 0x27] @ '' (errno '' @ int_dec (errno r) @ '': '' @
              lc_strerror cfg (errno r) @ '')'');
           ret dd_error
         }
       else ret dd_success
     }
   }"

definition ensure_init :: "sys_env \<Rightarrow> log_config \<Rightarrow> ('w log_world_scheme, unit) state" where
  "ensure_init env cfg = do {
     i \<leftarrow> gets log_initialized;
     if i then ret ()
     else do {
       res \<leftarrow> do_dd_log_init env cfg;
       (if res = dd_error then do {
          mlog_php env dd_log_warning ''Could not initialize logging'';
          modify (\<lambda>w. w\<lparr>log_strategy := log_use_nothing\<rparr>)
        } else ret ());
       if res \<noteq> dd_try_later then modify (\<lambda>w. w\<lparr>log_initialized := True\<rparr>)
       else modify (\<lambda>w. w\<lparr>log_strategy := log_use_nothing\<rparr>)
     }
   }"

section \<open>Time stamps\<close>

text \<open>
  \<open>gmtime_r\<close>: years and months are counted off from the days since 1970. Times before 1970 do not come from the
  clock.
\<close>

definition leap_year :: "nat \<Rightarrow> bool" where
  "leap_year y = (y mod 4 = 0 \<and> (y mod 100 \<noteq> 0 \<or> y mod 400 = 0))"

definition days_in_year :: "nat \<Rightarrow> nat" where
  "days_in_year y = (if leap_year y then 366 else 365)"

definition month_lengths :: "nat \<Rightarrow> nat list" where
  "month_lengths y = [31, if leap_year y then 29 else 28, 31, 30, 31, 30, 31, 31, 30, 31, 30, 31]"

function year_loop :: "nat \<Rightarrow> nat \<Rightarrow> nat \<times> nat" where
  "year_loop y days = (if days < days_in_year y then (y, days) else year_loop (y + 1) (days - days_in_year y))"
  by pat_completeness auto
termination by (relation "measure snd") (auto simp: days_in_year_def)

declare year_loop.simps [simp del]

fun month_loop :: "nat list \<Rightarrow> nat \<Rightarrow> nat \<Rightarrow> nat \<times> nat" where
  "month_loop [] m days = (m, days)"
| "month_loop (l # ls) m days = (if days < l then (m, days) else month_loop ls (m + 1) (days - l))"

record tm =
  tm_year :: nat
  tm_mon :: nat
  tm_mday :: nat
  tm_hour :: nat
  tm_min :: nat
  tm_sec :: nat

definition gmtime_r :: "nat \<Rightarrow> tm" where
  "gmtime_r t =
     (let (y, yday) = year_loop 1970 (t div 86400); (m, d) = month_loop (month_lengths y) 1 yday; s = t mod 86400 in
      \<lparr>tm_year = y, tm_mon = m, tm_mday = d + 1, tm_hour = s div 3600, tm_min = s div 60 mod 60, tm_sec = s mod 60\<rparr>)"

text \<open>A number in at least as many digits as given.\<close>

definition zero_padded :: "nat \<Rightarrow> nat \<Rightarrow> string" where
  "zero_padded width n = replicate (width - length (nat_dec n)) CHR ''0'' @ nat_dec n"

text \<open>\<open>strftime\<close> with \<open>%FT%T\<close>; it returns zero when the text and its NUL do not fit.\<close>

definition date_time :: "tm \<Rightarrow> string" where
  "date_time tm = nat_dec (tm_year tm) @ ''-'' @ zero_padded 2 (tm_mon tm) @ ''-'' @ zero_padded 2 (tm_mday tm) @ ''T'' @
     zero_padded 2 (tm_hour tm) @ '':'' @ zero_padded 2 (tm_min tm) @ '':'' @ zero_padded 2 (tm_sec tm)"

definition strftime :: "nat \<Rightarrow> tm \<Rightarrow> string" where
  "strftime buf_size tm = (if length (date_time tm) < buf_size then date_time tm else [])"

definition FORMAT_TIME_BUF_SIZE :: "nat \<Rightarrow> nat" where
  "FORMAT_TIME_BUF_SIZE precision = 22 + precision"

text \<open>\<open>snprintf\<close> writes at most the size less one characters and a NUL.\<close>

definition format_time :: "nat \<Rightarrow> int \<times> int \<Rightarrow> nat \<Rightarrow> string" where
  "format_time buf_size time precision =
     (let date = strftime buf_size (gmtime_r (nat (fst time))); left_size = buf_size - length date in
      date @ take (left_size - 1)
        (''.'' @ zero_padded precision (nat (snd time) div 10 ^ (9 - precision)) @ ''Z''))"

section \<open>Writers\<close>

text \<open>The place in the source that a message comes from.\<close>

record log_site =
  site_file :: string
  site_function :: string
  site_line :: nat

definition mlog_syslog :: "sys_env \<Rightarrow> dd_log_level_t \<Rightarrow> string \<Rightarrow> log_site \<Rightarrow> ('w log_world_scheme, unit) state" where
  "mlog_syslog env level message site = do {
     _ \<leftarrow> sys env (Sys_syslog (log_level_to_syslog_pri level)
       (site_file site @ '' '' @ nat_dec (site_line site) @ '':'' @ site_function site @ '' '' @ message));
     ret ()
   }"

definition log_line :: "string \<Rightarrow> int \<Rightarrow> dd_log_level_t \<Rightarrow> string \<Rightarrow> log_site \<Rightarrow> string" where
  "log_line time_str pid level message site =
     ''['' @ time_str @ '']['' @ int_dec pid @ ''][''  @ dd_log_level_to_str level @ ''] '' @ message @ '' at '' @
     site_file site @ '':'' @ nat_dec (site_line site) @ '':'' @ site_function site @ [CHR 0x0A]"

definition mlog_file ::
  "sys_env \<Rightarrow> log_config \<Rightarrow> dd_log_level_t \<Rightarrow> string \<Rightarrow> log_site \<Rightarrow> ('w log_world_scheme, unit) state" where
  "mlog_file env cfg level message site = do {
     fd \<leftarrow> gets mlog_fd;
     if fd = -1 then ret ()
     else do {
       ts \<leftarrow> sys env Sys_clock_gettime;
       pid \<leftarrow> sys env Sys_getpid;
       let time_str = (if rv ts \<noteq> -1 then format_time (FORMAT_TIME_BUF_SIZE 3) (out_time ts) 3 else []);
           data = log_line time_str (rv pid) level message site
       in do {
         written \<leftarrow> sys env (Sys_write fd data);
         if rv written = -1 then
           mlog_php env dd_log_warning
             (''Failed writing to log file (errno '' @ int_dec (errno written) @ '': '' @ lc_strerror cfg (errno written) @ '')'')
         else if rv written < int (length data) then
           mlog_php env dd_log_warning
             (''Failed writing full data to log file ('' @ int_dec (rv written) @ '' < '' @ nat_dec (length data) @ '')'')
         else ret ()
       }
     }
   }"

text \<open>The switch on the strategy in \<open>_mlog_relay\<close>.\<close>

definition mlog_switch ::
  "sys_env \<Rightarrow> log_config \<Rightarrow> log_strategy \<Rightarrow> dd_log_level_t \<Rightarrow> string \<Rightarrow> log_site \<Rightarrow> ('w log_world_scheme, unit) state" where
  "mlog_switch env cfg strategy level message site =
     (case strategy of
        log_use_syslog \<Rightarrow> mlog_syslog env level message site
      | log_use_php_err_rep \<Rightarrow> mlog_php env level message
      | log_use_file \<Rightarrow> mlog_file env cfg level message site
      | log_use_nothing \<Rightarrow> ret ())"

definition mlog_relay ::
  "sys_env \<Rightarrow> log_config \<Rightarrow> dd_log_level_t \<Rightarrow> string \<Rightarrow> log_site \<Rightarrow> ('w log_world_scheme, unit) state" where
  "mlog_relay env cfg level message site =
     (if dd_log_level cfg < level then ret ()
      else do {
        ensure_init env cfg;
        strategy \<leftarrow> gets log_strategy;
        (if strategy \<noteq> log_use_php_err_rep \<and> level \<le> dd_log_error then mlog_php env level message else ret ());
        mlog_switch env cfg strategy level message site
      })"

section \<open>Shutdown\<close>

definition dd_log_shutdown :: "sys_env \<Rightarrow> log_config \<Rightarrow> ('w log_world_scheme, unit) state" where
  "dd_log_shutdown env cfg = do {
     mlog_relay env cfg dd_log_debug ''Shutting down the file logging''
       \<lparr>site_file = ''logging.c'', site_function = ''dd_log_shutdown'', site_line = 452\<rparr>;
     strategy \<leftarrow> gets log_strategy;
     fd \<leftarrow> gets mlog_fd;
     (if strategy = log_use_file \<and> fd \<noteq> -1 \<and> fd > 2 then do {
        r \<leftarrow> sys env (Sys_close fd);
        if rv r = -1 then
          mlog_php env dd_log_warning
            (''Error closing the log file (errno '' @ int_dec (errno r) @ '': '' @ lc_strerror cfg (errno r) @ '')'')
        else ret ()
      }
      else if strategy = log_use_syslog then do { _ \<leftarrow> sys env Sys_closelog; ret () }
      else ret ());
     modify (\<lambda>w. w\<lparr>mlog_fd := -1, log_strategy := log_use_nothing, log_initialized := False\<rparr>)
   }"

section \<open>Lemmas on levels and time stamps\<close>

lemma level_roundtrip: "dd_log_level_from_str (dd_log_level_to_str l) = Some l"
  by (cases l; simp; code_simp)

lemma nat_dec_length_one [simp]: "n < 10 \<Longrightarrow> length (nat_dec n) = 1"
  by (simp add: nat_dec.simps)

lemma nat_dec_length_step: "10 \<le> n \<Longrightarrow> length (nat_dec n) = Suc (length (nat_dec (n div 10)))"
  by (subst nat_dec.simps) simp

lemma nat_dec_length_le: "n < 10 ^ k \<Longrightarrow> 0 < k \<Longrightarrow> length (nat_dec n) \<le> k"
proof (induction k arbitrary: n)
  case (Suc k)
  then show ?case
  proof (cases "n < 10")
    case False
    with Suc.prems have "n div 10 < 10 ^ k" "0 < k" by (auto simp: less_mult_imp_div_less mult.commute intro!: Nat.gr0I)
    with Suc.IH [of "n div 10"] False show ?thesis by (simp add: nat_dec_length_step)
  qed simp
qed simp

lemma length_zero_padded: "n < 10 ^ k \<Longrightarrow> 0 < k \<Longrightarrow> length (zero_padded k n) = k"
  using nat_dec_length_le [of n k] by (simp add: zero_padded_def)

lemma year_loop_bounds:
  "year_loop y days = (y', d) \<Longrightarrow> y \<le> y' \<and> d < days_in_year y' \<and> y' \<le> y + days div 365"
proof (induction y days arbitrary: y' d rule: year_loop.induct)
  case (1 y days)
  show ?case
  proof (cases "days < days_in_year y")
    case False
    with 1(2) have "year_loop (y + 1) (days - days_in_year y) = (y', d)" by (simp add: year_loop.simps [of y])
    with 1(1) [OF False] have *: "y + 1 \<le> y' \<and> d < days_in_year y' \<and> y' \<le> y + 1 + (days - days_in_year y) div 365" by blast
    have "1 + (days - days_in_year y) div 365 \<le> days div 365"
      using False by (auto simp: days_in_year_def split: if_splits) 
    with * show ?thesis by linarith
  qed (use 1(2) in \<open>simp add: year_loop.simps [of y]\<close>)
qed

lemma month_loop_bounds:
  "month_loop ls m days = (m', d) \<Longrightarrow> days < sum_list ls \<Longrightarrow> \<forall>l \<in> set ls. l \<le> 31 \<Longrightarrow>
   m \<le> m' \<and> m' < m + length ls \<and> d < 31"
proof (induction ls arbitrary: m days)
  case (Cons l ls)
  show ?case
  proof (cases "days < l")
    case False
    with Cons.prems have "month_loop ls (m + 1) (days - l) = (m', d)" "days - l < sum_list ls" by auto
    with Cons.IH [of "m + 1" "days - l"] Cons.prems(3) show ?thesis by auto
  qed (use Cons.prems in auto)
qed simp

lemma month_lengths_sum: "sum_list (month_lengths y) = days_in_year y"
  by (simp add: month_lengths_def days_in_year_def)

lemma gmtime_bounds:
  "1970 \<le> tm_year (gmtime_r t)" "tm_mon (gmtime_r t) \<in> {1..12}" "tm_mday (gmtime_r t) \<in> {1..31}"
  "tm_hour (gmtime_r t) < 24" "tm_min (gmtime_r t) < 60" "tm_sec (gmtime_r t) < 60"
proof -
  obtain y d where y: "year_loop 1970 (t div 86400) = (y, d)" by force
  obtain m d' where m: "month_loop (month_lengths y) 1 d = (m, d')" by force
  have "1970 \<le> y" "d < days_in_year y" using year_loop_bounds [OF y] by auto
  moreover have "\<forall>l \<in> set (month_lengths y). l \<le> 31" "length (month_lengths y) = 12" by (simp_all add: month_lengths_def)
  ultimately have "1 \<le> m \<and> m < 1 + 12 \<and> d' < 31"
    using month_loop_bounds [OF m] by (simp add: month_lengths_sum)
  moreover have "t mod 86400 div 3600 < 24" by (simp add: less_mult_imp_div_less)
  ultimately show "1970 \<le> tm_year (gmtime_r t)" "tm_mon (gmtime_r t) \<in> {1..12}" "tm_mday (gmtime_r t) \<in> {1..31}"
    "tm_hour (gmtime_r t) < 24" "tm_min (gmtime_r t) < 60" "tm_sec (gmtime_r t) < 60"
    using \<open>1970 \<le> y\<close> m by (simp_all add: gmtime_r_def y Let_def)
qed

text \<open>
  In the years of four digits a time stamp has its 24 characters and fills the buffer up to the terminating NUL; in
  no year does it have more.
\<close>

lemma format_time_exact:
  assumes "0 \<le> ns" "ns < 10 ^ 9"
  shows "length (format_time (FORMAT_TIME_BUF_SIZE 3) (t, ns) 3) < FORMAT_TIME_BUF_SIZE 3"
    and "tm_year (gmtime_r (nat t)) < 10000 \<Longrightarrow>
      format_time (FORMAT_TIME_BUF_SIZE 3) (t, ns) 3 =
        date_time (gmtime_r (nat t)) @ ''.'' @ zero_padded 3 (nat ns div 10 ^ 6) @ ''Z'' \<and>
      length (format_time (FORMAT_TIME_BUF_SIZE 3) (t, ns) 3) = 24"
proof -
  let ?tm = "gmtime_r (nat t)"
  have ms: "length (zero_padded 3 (nat ns div 10 ^ 6)) = 3"
    using assms by (intro length_zero_padded) (auto simp: less_mult_imp_div_less nat_less_iff)
  show "length (format_time (FORMAT_TIME_BUF_SIZE 3) (t, ns) 3) < FORMAT_TIME_BUF_SIZE 3"
    by (auto simp: format_time_def FORMAT_TIME_BUF_SIZE_def strftime_def Let_def)
  assume y: "tm_year ?tm < 10000"
  have "length (nat_dec (tm_year ?tm)) = 4"
    using y gmtime_bounds(1) [of "nat t"] by (simp add: nat_dec_length_step)
  then have "length (date_time ?tm) = 19"
    using gmtime_bounds [of "nat t"] by (simp add: date_time_def length_zero_padded)
  then show "format_time (FORMAT_TIME_BUF_SIZE 3) (t, ns) 3 =
        date_time ?tm @ ''.'' @ zero_padded 3 (nat ns div 10 ^ 6) @ ''Z'' \<and>
      length (format_time (FORMAT_TIME_BUF_SIZE 3) (t, ns) 3) = 24"
    using ms by (simp add: format_time_def FORMAT_TIME_BUF_SIZE_def strftime_def Let_def)
qed

section \<open>Where messages go\<close>

text \<open>The user's handlers are off while the module reports, for both levels it uses, and as before afterwards.\<close>

lemma wp_mlog_php [wp_rules]:
  "wp (mlog_php env level message) Q w =
     (let c = Sys_php_verror (user_error_handler_error_reporting w AND NOT (log_E_WARNING OR log_E_NOTICE))
        (log_level_to_php_err_reporting_pri level) (PHP_MSG_PREFIX @ message)
      in Q () (w\<lparr>trace := trace w @ [(c, env (trace w) c)]\<rparr>))"
  by (cases w) (simp add: mlog_php_def wp_rules Let_def)

lemma mlog_php_masks:
  "(ueher AND NOT (log_E_WARNING OR log_E_NOTICE)) AND log_level_to_php_err_reporting_pri level = 0"
  by (rule bit_word_eqI)
    (auto simp: log_level_to_php_err_reporting_pri_def bit_and_iff bit_or_iff bit_not_iff)

text \<open>
  The states that messages and shutdowns reach from the start of the process, whatever the configuration and
  the phase of PHP at each of them.
\<close>

definition initial_log_world :: "u32 \<Rightarrow> log_world" where
  "initial_log_world ueher = \<lparr>trace = [], log_initialized = False, mlog_fd = -1, log_strategy = log_use_nothing,
     user_error_handler_error_reporting = ueher\<rparr>"

inductive log_reachable :: "sys_env \<Rightarrow> log_world \<Rightarrow> bool" for env where
  start: "log_reachable env (initial_log_world ueher)"
| message: "log_reachable env w \<Longrightarrow> log_reachable env (snd (run_state (mlog_relay env cfg level message site) w))"
| shutdown: "log_reachable env w \<Longrightarrow> log_reachable env (snd (run_state (dd_log_shutdown env cfg) w))"

text \<open>The descriptors 0 to 2 are in use, so that a file that is opened gets another one.\<close>

definition log_fds :: "sys_env \<Rightarrow> bool" where
  "log_fds env = (\<forall>tr p fl. rv (env tr (Sys_open_log p fl)) = -1 \<or> rv (env tr (Sys_open_log p fl)) > 2)"

definition log_inv :: "log_world \<Rightarrow> bool" where
  "log_inv w =
     ((log_initialized w \<or> log_strategy w = log_use_nothing) \<and>
      (mlog_fd w \<noteq> -1 \<longleftrightarrow> log_strategy w = log_use_file) \<and> mlog_fd w \<in> {-1, 1, 2} \<union> {2<..} \<and>
      open_fds (trace w) = (if mlog_fd w > 2 then {#mlog_fd w#} else {#}))"

text \<open>What a message adds to the trace: it is told to PHP, and delivered to where messages go.\<close>

definition told_to_php :: "dd_log_level_t \<Rightarrow> string \<Rightarrow> sys_trace \<Rightarrow> bool" where
  "told_to_php level message es =
     (\<exists>ue r. (Sys_php_verror ue (log_level_to_php_err_reporting_pri level) (PHP_MSG_PREFIX @ message), r) \<in> set es)"

definition delivered :: "dd_log_level_t \<Rightarrow> string \<Rightarrow> log_site \<Rightarrow> log_world \<Rightarrow> sys_trace \<Rightarrow> bool" where
  "delivered level message site w es =
     (case log_strategy w of
        log_use_file \<Rightarrow> \<exists>t pid r. (Sys_write (mlog_fd w) (log_line t pid level message site), r) \<in> set es
      | log_use_syslog \<Rightarrow> \<exists>text r. (Sys_syslog (log_level_to_syslog_pri level) (text @ message), r) \<in> set es
      | log_use_php_err_rep \<Rightarrow> told_to_php level message es
      | log_use_nothing \<Rightarrow> True)"

definition creates_at_request :: "log_config \<Rightarrow> sys_trace \<Rightarrow> bool" where
  "creates_at_request cfg es = (\<forall>p fl r. (Sys_open_log p fl, r) \<in> set es \<longrightarrow> O_CREAT \<in> set fl \<longrightarrow> at_request cfg)"

lemma ensure_init_spec:
  assumes "log_inv w" "log_fds env"
  shows "wp (ensure_init env cfg) (\<lambda>_ w'. log_inv w' \<and> (\<exists>es. trace w' = trace w @ es \<and> creates_at_request cfg es)) w"
proof (cases "log_initialized w")
  case False
  let ?r = "env (trace w) (Sys_open_log (c_str (lc_log_file cfg)) (open_flags cfg))"
  have "rv ?r = -1 \<or> rv ?r > 2" using assms(2) by (simp add: log_fds_def)
  moreover have "O_CREAT \<in> set (open_flags cfg) \<longleftrightarrow> at_request cfg" by (simp add: open_flags_def)
  ultimately show ?thesis using False assms(1)
    by (auto simp: ensure_init_def do_dd_log_init_def choose_strategy_def wp_rules Let_def log_inv_def creates_at_request_def)
qed (use assms in \<open>simp add: ensure_init_def wp_rules creates_at_request_def\<close>)

text \<open>Writing changes nothing but the trace, opens no file and closes none.\<close>

definition writes :: "sys_trace \<Rightarrow> bool" where
  "writes es = ((\<forall>p fl r. (Sys_open_log p fl, r) \<notin> set es) \<and> (\<forall>M. foldl fd_step M es = M))"

lemma trace_update_eq: "w\<lparr>trace := a\<rparr> = w\<lparr>trace := b\<rparr> \<longleftrightarrow> a = b" for w :: "'w world_scheme"
  by (cases w) simp

lemma mlog_file_spec:
  assumes "mlog_fd w \<noteq> -1"
  shows "wp (mlog_file env cfg level message site) (\<lambda>_ w'. \<exists>es. w' = w\<lparr>trace := trace w @ es\<rparr> \<and> writes es \<and>
    (\<exists>t pid r. (Sys_write (mlog_fd w) (log_line t pid level message site), r) \<in> set es)) w"
  using assms by (auto simp: mlog_file_def wp_rules Let_def writes_def trace_update_eq)

lemma mlog_switch_spec:
  assumes "log_strategy w = log_use_file \<longrightarrow> mlog_fd w \<noteq> -1"
  shows "wp (mlog_switch env cfg (log_strategy w) level message site)
    (\<lambda>_ w'. \<exists>es. w' = w\<lparr>trace := trace w @ es\<rparr> \<and> writes es \<and> delivered level message site w es) w"
proof (cases "log_strategy w")
  case log_use_nothing
  then show ?thesis by (auto simp: mlog_switch_def wp_rules delivered_def writes_def intro!: exI [of _ "[]"])
next
  case log_use_file
  with assms mlog_file_spec [of w env cfg level message site] show ?thesis by (simp add: mlog_switch_def delivered_def)
next
  case log_use_syslog
  then show ?thesis
    by (auto simp: mlog_switch_def wp_rules mlog_syslog_def delivered_def writes_def trace_update_eq intro!: exI [of _ "site_file site @ t" for t])
next
  case log_use_php_err_rep
  then show ?thesis by (auto simp: mlog_switch_def wp_rules Let_def delivered_def told_to_php_def writes_def trace_update_eq)
qed

lemma delivered_trace: "delivered level message site (w\<lparr>trace := tr\<rparr>) es = delivered level message site w es"
  by (cases "log_strategy w") (simp_all add: delivered_def)

lemma delivered_mono: "delivered level message site w es \<Longrightarrow> set es \<subseteq> set fs \<Longrightarrow> delivered level message site w fs"
  unfolding delivered_def told_to_php_def by (cases "log_strategy w"; simp; blast)

lemma log_inv_writes: "log_inv w \<Longrightarrow> writes es \<Longrightarrow> log_inv (w\<lparr>trace := trace w @ es\<rparr>)"
  by (simp add: log_inv_def writes_def)

lemma mlog_relay_spec:
  assumes "log_inv w" "log_fds env"
  shows "wp (mlog_relay env cfg level message site) (\<lambda>_ w'. log_inv w' \<and> (\<exists>es. trace w' = trace w @ es \<and>
    (if dd_log_level cfg < level then es = []
     else (level \<le> dd_log_error \<longrightarrow> told_to_php level message es) \<and> delivered level message site w' es \<and>
       creates_at_request cfg es))) w"
proof (cases "dd_log_level cfg < level")
  case False
  have tell: "wp (if b then mlog_php env level message else ret ())
      (\<lambda>_ w'. \<exists>es. w' = w1\<lparr>trace := trace w1 @ es\<rparr> \<and> writes es \<and> (b \<longrightarrow> told_to_php level message es)) w1" for b w1
    by (auto simp: wp_rules Let_def told_to_php_def writes_def trace_update_eq intro!: exI [of _ "[]"])
  have fin: "log_inv w3 \<and> (\<exists>es. trace w3 = trace w @ es \<and> (level \<le> dd_log_error \<longrightarrow> told_to_php level message es) \<and>
      delivered level message site w3 es \<and> creates_at_request cfg es)"
    if "log_inv w1" "trace w1 = trace w @ es1" "creates_at_request cfg es1"
      "w2 = w1\<lparr>trace := trace w1 @ es2\<rparr>" "writes es2"
      "log_strategy w1 \<noteq> log_use_php_err_rep \<and> level \<le> dd_log_error \<longrightarrow> told_to_php level message es2"
      "w3 = w2\<lparr>trace := trace w2 @ es3\<rparr>" "writes es3" "delivered level message site w2 es3" for w1 w2 w3 es1 es2 es3
  proof -
    have w3: "w3 = w1\<lparr>trace := trace w1 @ es2 @ es3\<rparr>" using that(4,7) by simp
    have "writes (es2 @ es3)" using that(5,8) by (auto simp: writes_def)
    then have inv: "log_inv w3" using log_inv_writes [OF that(1)] w3 by blast
    have "delivered level message site w3 es3" using that(4,9) w3 by (simp add: delivered_trace)
    then have d: "delivered level message site w3 (es1 @ es2 @ es3)" by (rule delivered_mono) auto
    have "told_to_php level message (es1 @ es2 @ es3)" if "level \<le> dd_log_error"
    proof (cases "log_strategy w1 = log_use_php_err_rep")
      case True
      with w3 d show ?thesis by (simp add: delivered_def)
    next
      case False
      with that \<open>log_strategy w1 \<noteq> log_use_php_err_rep \<and> level \<le> dd_log_error \<longrightarrow> told_to_php level message es2\<close>
      show ?thesis by (auto simp: told_to_php_def)
    qed
    moreover have "creates_at_request cfg (es1 @ es2 @ es3)"
      using that(3) \<open>writes (es2 @ es3)\<close> by (auto simp: creates_at_request_def writes_def)
    ultimately show ?thesis using inv d that(2) w3 by (intro conjI exI [of _ "es1 @ es2 @ es3"]) simp_all
  qed
  let ?post = "\<lambda>_ w3. log_inv w3 \<and> (\<exists>es. trace w3 = trace w @ es \<and>
      (level \<le> dd_log_error \<longrightarrow> told_to_php level message es) \<and> delivered level message site w3 es \<and> creates_at_request cfg es)"
  show ?thesis unfolding mlog_relay_def wp_bind wp_gets if_not_P [OF False]
  proof (rule wp_mono [OF ensure_init_spec [OF assms]], elim exE conjE, rule wp_mono [OF tell], elim exE conjE)
    fix u w1 es1 v w2 es2
    assume w1: "log_inv w1" "trace w1 = trace w @ es1" "creates_at_request cfg es1"
      and w2: "w2 = w1\<lparr>trace := trace w1 @ es2\<rparr>" "writes es2"
        "log_strategy w1 \<noteq> log_use_php_err_rep \<and> level \<le> dd_log_error \<longrightarrow> told_to_php level message es2"
    then have eq: "log_strategy w1 = log_strategy w2" and fd: "log_strategy w2 = log_use_file \<longrightarrow> mlog_fd w2 \<noteq> -1"
      by (auto simp: log_inv_def)
    show "wp (mlog_switch env cfg (log_strategy w1) level message site) ?post w2" unfolding eq
      by (rule wp_mono [OF mlog_switch_spec [OF fd]], elim exE conjE, rule fin [OF w1 w2])
  qed
qed (use assms in \<open>simp add: mlog_relay_def wp_rules\<close>)

lemma dd_log_shutdown_spec:
  assumes "log_inv w" "log_fds env"
  shows "wp (dd_log_shutdown env cfg) (\<lambda>_ w'. log_inv w' \<and> open_fds (trace w') = {#}) w"
  unfolding dd_log_shutdown_def wp_bind
  by (rule wp_mono [OF mlog_relay_spec [OF assms]]) (auto simp: wp_rules Let_def log_inv_def)

lemma log_reachable_inv: "log_reachable env w \<Longrightarrow> log_fds env \<Longrightarrow> log_inv w"
proof (induction rule: log_reachable.induct)
  case (message w cfg level message site)
  then show ?case using mlog_relay_spec [of w env cfg level message site] by (simp add: wp_fst_snd)
next
  case (shutdown w cfg)
  then show ?case using dd_log_shutdown_spec [of w env cfg] by (simp add: wp_fst_snd)
qed (simp add: initial_log_world_def log_inv_def)


text \<open>A descriptor of a standard stream that the file happens to get is not closed again.\<close>

lemma low_log_descriptor_not_closed:
  assumes "log_strategy w = log_use_file" "mlog_fd w \<le> 2" "dd_log_level cfg < dd_log_debug"
  shows "trace (snd (run_state (dd_log_shutdown env cfg) w)) = trace w"
proof -
  have "wp (dd_log_shutdown env cfg) (\<lambda>_ w'. trace w' = trace w) w"
    using assms by (simp add: dd_log_shutdown_def mlog_relay_def wp_rules)
  then show ?thesis by (simp add: wp_fst_snd)
qed

definition sample_log_config :: log_config where
  "sample_log_config = \<lparr>lc_log_file = ''/var/log/a.log'', lc_testing = False, lc_log_level = dd_log_warning,
     lc_global_log_level = dd_log_warning, lc_first_init = True, lc_modules_activated = True,
     lc_during_request_startup = False, lc_strerror = (\<lambda>_. ''error'')\<rparr>"


end
