(* ===== verification/Configuration.thy ===== *)
theory Configuration
  imports Logging Ip_Extraction User_Events
begin

text \<open>
  src/extension/configuration.c and configuration.h: the table of configuration entries, the parsers of
  the values that are not left to the library, the names of the INI entries, and the calls of the library at
  module and request start. The library (zai\_config) is a parameter.
\<close>

section \<open>Numbers\<close>

text \<open>\<open>strtoll\<close> with base 10: the number, limited to 64 bits, and what follows it. Without a digit nothing is taken.\<close>

fun leading_digits :: "string \<Rightarrow> string" where
  "leading_digits [] = []"
| "leading_digits (c # cs) =
     (if 48 \<le> (of_char c :: nat) \<and> (of_char c :: nat) \<le> 57 then c # leading_digits cs else [])"

definition LLONG_MAX :: int where "LLONG_MAX = 2 ^ 63 - 1"
definition LLONG_MIN :: int where "LLONG_MIN = - (2 ^ 63)"

definition strtoll :: "string \<Rightarrow> int \<times> string" where
  "strtoll s =
     (let t = dropWhile c_isspace s;
          neg = (t \<noteq> [] \<and> hd t = CHR ''-'');
          u = (if t \<noteq> [] \<and> (hd t = CHR ''-'' \<or> hd t = CHR ''+'') then tl t else t);
          ds = leading_digits u;
          v = (if neg then - atoi_digits 0 ds else atoi_digits 0 ds)
      in if ds = [] then (0, s) else (max LLONG_MIN (min LLONG_MAX v), drop (length ds) u))"

definition parse_uint :: "string \<Rightarrow> int \<Rightarrow> int option" where
  "parse_uint value mx =
     (let (ini_value, endptr) = strtoll (c_str value) in
      if endptr = c_str value \<or> endptr \<noteq> [] then None
      else Some (if ini_value < 0 then 0 else if ini_value > mx then mx else ini_value))"

definition parse_uint32 :: "string \<Rightarrow> int option" where
  "parse_uint32 value = parse_uint value (2 ^ 32 - 1)"

definition parse_uint64 :: "string \<Rightarrow> int option" where
  "parse_uint64 value = parse_uint value (2 ^ 63 - 1)"

text \<open>The accessors of such entries convert the stored number to their type.\<close>

definition get_uint32 :: "int \<Rightarrow> u32" where "get_uint32 lval = word_of_int lval"
definition get_uint64 :: "int \<Rightarrow> u64" where "get_uint64 lval = word_of_int lval"

section \<open>Lists\<close>

definition list_blank :: "char \<Rightarrow> bool" where
  "list_blank c = (c = space \<or> c = CHR 0x09 \<or> c = CHR 0x0A)"

text \<open>
  The inner loop, from the character after the start of a value: \<open>n\<close> is its distance from the start and
  \<open>val_end\<close> that of the last character of the value so far.
\<close>

fun list_value_loop :: "string \<Rightarrow> nat \<Rightarrow> nat \<Rightarrow> nat \<times> string" where
  "list_value_loop [] n val_end = (val_end, [])"
| "list_value_loop (c # cs) n val_end =
     (if c = CHR '','' then (val_end, c # cs)
      else list_value_loop cs (n + 1) (if list_blank c then val_end else n))"

lemma list_value_loop_shorter: "length (snd (list_value_loop cs n e)) \<le> length cs"
  by (induction cs n e rule: list_value_loop.induct) auto

function parse_list_loop :: "string \<Rightarrow> string list" where
  "parse_list_loop [] = []"
| "parse_list_loop (c # cs) =
     (if c \<noteq> CHR '','' \<and> \<not> list_blank c
      then let (val_end, data) = list_value_loop cs 1 0 in take (val_end + 1) (c # cs) # parse_list_loop data
      else parse_list_loop cs)"
  by pat_completeness auto
termination
proof (relation "measure length")
  fix c cs x val_end data
  assume "x = list_value_loop cs 1 0" "(val_end, data) = x"
  then show "(data, c # cs) \<in> measure length" using list_value_loop_shorter [of cs 1 0]
    by (metis in_measure length_Cons less_Suc_eq_le snd_conv)
qed auto

definition parse_list :: "string \<Rightarrow> string list option" where
  "parse_list value =
     (let data = c_str value in
      if data = [] then Some [] else case parse_list_loop data of [] \<Rightarrow> None | vals \<Rightarrow> Some vals)"

section \<open>Names of the INI entries\<close>

definition tolower_ascii :: "char \<Rightarrow> char" where
  "tolower_ascii c =
     (if 65 \<le> (of_char c :: nat) \<and> (of_char c :: nat) \<le> 90 then char_of ((of_char c :: nat) + 32) else c)"

fun copy_tolower :: "string \<Rightarrow> string" where
  "copy_tolower [] = []"
| "copy_tolower (c # src) = tolower_ascii c # copy_tolower src"

definition DD_TO_DATADOG_INC :: nat where "DD_TO_DATADOG_INC = 5"

text \<open>
  The name for an environment variable, a text without NUL; the size of the buffer is that of the library. Where
  an assertion fails the function, compiled without assertions, leaves the name alone or makes it empty.
\<close>

definition dd_ini_env_to_ini_name :: "nat \<Rightarrow> string \<Rightarrow> string option" where
  "dd_ini_env_to_ini_name bufsiz env_name =
     (if length env_name + DD_TO_DATADOG_INC \<ge> bufsiz then None
      else if is_prefix ''DD_'' env_name then
        let name = ''datadog.'' @ copy_tolower (drop 3 env_name);
            name = (if is_prefix ''DD_APPSEC_'' env_name then name[14 := CHR ''.''] else name);
            name = (if is_prefix ''DD_TRACE_'' env_name then name[13 := CHR ''.''] else name)
        in Some name
      else Some [])"

section \<open>The table\<close>

datatype config_parser =
    Parse_uint64 | Parse_uint32 | Parse_log_level | Parse_list | Parse_client_ip_header | Parse_user_events_tracking

datatype config_type = Cfg_BOOL | Cfg_INT | Cfg_DOUBLE | Cfg_STRING | Cfg_SET_LOWERCASE | Cfg_CUSTOM config_parser

datatype ini_change = Ini_none | Ini_system | Ini_runtime_path

record config_entry =
  entry_type :: config_type
  entry_name :: string
  entry_default :: string
  entry_ini_change :: ini_change
  entry_aliases :: "string list"

definition cfg_entry :: "config_type \<Rightarrow> string \<Rightarrow> string \<Rightarrow> ini_change \<Rightarrow> string list \<Rightarrow> config_entry" where
  "cfg_entry ty name val change aliases = \<lparr>entry_type = ty, entry_name = name, entry_default = val,
     entry_ini_change = change, entry_aliases = aliases\<rparr>"

text \<open>The macro leaves out its argument.\<close>

definition DD_BASE :: "string \<Rightarrow> string" where
  "DD_BASE path = ''/opt/datadog-php/''"

definition DEFAULT_OBFUSCATOR_KEY_REGEX :: string where
  "DEFAULT_OBFUSCATOR_KEY_REGEX =
    ''(?i)(?:p(?:ass)?w(?:or)?d|pass(?:_?phrase)?|secret|(?:api_?|private_?|public_?'' @
    '')key)|token|consumer_?(?:id|key|secret)|sign(?:ed|ature)|bearer|authorization''"

definition DEFAULT_OBFUSCATOR_VALUE_REGEX :: string where
  "DEFAULT_OBFUSCATOR_VALUE_REGEX =
    ''(?i)(?:p(?:ass)?w(?:or)?d|pass(?:_?phrase)?|secret|(?:api_?|private_?|public_?'' @
    ''|access_?|secret_?)key(?:_?id)?|token|consumer_?(?:id|key|secret)|sign(?:ed|at'' @
    ''ure)?|auth(?:entication|orization)?)(?:'' @ [CHR 0x5C] @ ''s*=[^;]|'' @ [CHR 0x22] @
    [CHR 0x5C] @ ''s*:'' @ [CHR 0x5C] @ ''s*'' @ [CHR 0x22] @ ''[^'' @ [CHR 0x22] @ '']+'' @
    [CHR 0x22] @ '')|bearer'' @ [CHR 0x5C] @ ''s+[a-z0-9'' @ [CHR 0x5C] @ ''._'' @ [CHR 0x5C] @
    ''-]+|token:[a-z0-9]{13}|gh[opsu]_[0-9a-zA-Z]{36}|ey[I-L]['' @ [CHR 0x5C] @ ''w=-]+'' @
    [CHR 0x5C] @ ''.ey[I-L]['' @ [CHR 0x5C] @ ''w=-]+(?:'' @ [CHR 0x5C] @ ''.['' @ [CHR 0x5C] @
    ''w.+'' @ [CHR 0x5C] @ ''/=-]+)?|['' @ [CHR 0x5C] @ ''-]{5}BEGIN[a-z'' @ [CHR 0x5C] @
    ''s]+PRIVATE'' @ [CHR 0x5C] @ ''sKEY['' @ [CHR 0x5C] @ ''-]{5}[^'' @ [CHR 0x5C] @ ''-]+['' @
    [CHR 0x5C] @ ''-]{5}END[a-z'' @ [CHR 0x5C] @ ''s]+PRIVATE'' @ [CHR 0x5C] @ ''sKEY|ssh-rsa'' @
    [CHR 0x5C] @ ''s*[a-z0-9'' @ [CHR 0x5C] @ ''/'' @ [CHR 0x5C] @ ''.+]{100,}''"

definition config_entries :: "config_entry list" where
  "config_entries =
    [cfg_entry Cfg_BOOL ''DD_APPSEC_ENABLED'' ''false'' Ini_none [],
     cfg_entry Cfg_STRING ''DD_APPSEC_RULES'' [] Ini_system [],
     cfg_entry (Cfg_CUSTOM Parse_uint64) ''DD_APPSEC_WAF_TIMEOUT'' ''10000'' Ini_system [],
     cfg_entry (Cfg_CUSTOM Parse_uint32) ''DD_APPSEC_TRACE_RATE_LIMIT'' ''100'' Ini_system [],
     cfg_entry Cfg_SET_LOWERCASE ''DD_APPSEC_EXTRA_HEADERS'' [] Ini_system [],
     cfg_entry Cfg_STRING ''DD_APPSEC_OBFUSCATION_PARAMETER_KEY_REGEXP'' DEFAULT_OBFUSCATOR_KEY_REGEX Ini_system [],
     cfg_entry Cfg_STRING ''DD_APPSEC_OBFUSCATION_PARAMETER_VALUE_REGEXP'' DEFAULT_OBFUSCATOR_VALUE_REGEX Ini_system [],
     cfg_entry Cfg_BOOL ''DD_APPSEC_TESTING'' ''false'' Ini_system [],
     cfg_entry Cfg_BOOL ''DD_APPSEC_TESTING_ABORT_RINIT'' ''false'' Ini_system [],
     cfg_entry Cfg_BOOL ''DD_APPSEC_TESTING_RAW_BODY'' ''false'' Ini_system [],
     cfg_entry (Cfg_CUSTOM Parse_log_level) ''DD_APPSEC_LOG_LEVEL'' ''warn'' Ini_none [],
     cfg_entry Cfg_STRING ''DD_APPSEC_LOG_FILE'' ''php_error_reporting'' Ini_system [],
     cfg_entry Cfg_BOOL ''DD_APPSEC_HELPER_LAUNCH'' ''true'' Ini_system [],
     cfg_entry Cfg_STRING ''DD_APPSEC_HELPER_PATH'' (DD_BASE ''bin/ddappsec-helper'') Ini_none [],
     cfg_entry Cfg_STRING ''DD_APPSEC_HELPER_RUNTIME_PATH'' ''/tmp'' Ini_runtime_path [],
     cfg_entry Cfg_STRING ''DD_APPSEC_HELPER_LOG_FILE'' ''/dev/null'' Ini_system [],
     cfg_entry (Cfg_CUSTOM Parse_list) ''DD_EXTRA_SERVICES'' [] Ini_none [],
     cfg_entry Cfg_STRING ''DD_APPSEC_HELPER_EXTRA_ARGS'' [] Ini_none [],
     cfg_entry Cfg_STRING ''DD_SERVICE'' [] Ini_none [''DD_SERVICE_NAME''],
     cfg_entry Cfg_STRING ''DD_ENV'' [] Ini_none [],
     cfg_entry Cfg_STRING ''DD_VERSION'' [] Ini_none [],
     cfg_entry (Cfg_CUSTOM Parse_client_ip_header) ''DD_TRACE_CLIENT_IP_HEADER'' [] Ini_none [],
     cfg_entry Cfg_BOOL ''DD_REMOTE_CONFIG_ENABLED'' ''true'' Ini_none [],
     cfg_entry (Cfg_CUSTOM Parse_uint32) ''DD_REMOTE_CONFIG_POLL_INTERVAL'' ''1000'' Ini_none [],
     cfg_entry Cfg_STRING ''DD_AGENT_HOST'' [] Ini_none [],
     cfg_entry Cfg_INT ''DD_TRACE_AGENT_PORT'' ''0'' Ini_none [],
     cfg_entry Cfg_STRING ''DD_TRACE_AGENT_URL'' [] Ini_none [],
     cfg_entry Cfg_BOOL ''DD_TRACE_ENABLED'' ''true'' Ini_none [],
     cfg_entry (Cfg_CUSTOM Parse_user_events_tracking) ''DD_APPSEC_AUTOMATED_USER_EVENTS_TRACKING'' ''safe'' Ini_none [],
     cfg_entry Cfg_STRING ''DD_APPSEC_HTTP_BLOCKED_TEMPLATE_HTML'' [] Ini_none [],
     cfg_entry Cfg_STRING ''DD_APPSEC_HTTP_BLOCKED_TEMPLATE_JSON'' [] Ini_none [],
     cfg_entry Cfg_BOOL ''DD_EXPERIMENTAL_API_SECURITY_ENABLED'' ''false'' Ini_none [],
     cfg_entry Cfg_DOUBLE ''DD_API_SECURITY_REQUEST_SAMPLE_RATE'' ''0.1'' Ini_none []]"

text \<open>The parser of an entry of a type of its own; it says whether the value is accepted.\<close>

fun parse_accepts :: "config_parser \<Rightarrow> string \<Rightarrow> 'a tags_state_scheme \<Rightarrow> bool" where
  "parse_accepts Parse_uint64 value s = (parse_uint64 value \<noteq> None)"
| "parse_accepts Parse_uint32 value s = (parse_uint32 value \<noteq> None)"
| "parse_accepts Parse_log_level value s = (dd_parse_log_level value \<noteq> None)"
| "parse_accepts Parse_list value s = (parse_list value \<noteq> None)"
| "parse_accepts Parse_client_ip_header value s = True"
| "parse_accepts Parse_user_events_tracking value s = (fst (dd_parse_automated_user_events_tracking value s) \<noteq> None)"

section \<open>Start of the module and of a request\<close>

datatype zai_call =
    Zai_minit "config_entry list" int
  | Zai_first_time_rinit
  | Zai_rinit

record config_module_state =
  zai_calls :: "zai_call list"
  runtime_config_first_init :: bool

definition zai :: "zai_call \<Rightarrow> config_module_state \<Rightarrow> config_module_state" where
  "zai c s = s\<lparr>zai_calls := zai_calls s @ [c]\<rparr>"

text \<open>\<open>zai_config_minit\<close> says whether it succeeded; the message about a failure goes to the log.\<close>

definition dd_config_minit :: "(config_entry list \<Rightarrow> bool) \<Rightarrow> int \<Rightarrow> config_module_state \<Rightarrow> bool \<times> config_module_state" where
  "dd_config_minit minit module_number s =
     (let s1 = zai (Zai_minit config_entries module_number) s in
      if \<not> minit config_entries then (False, s1) else (True, zai Zai_first_time_rinit s1))"

definition dd_config_first_rinit :: "config_module_state \<Rightarrow> config_module_state" where
  "dd_config_first_rinit s = (zai Zai_rinit (zai Zai_first_time_rinit s))\<lparr>runtime_config_first_init := True\<rparr>"

definition dd_is_config_using_default :: "int \<Rightarrow> bool" where
  "dd_is_config_using_default name_index = (name_index = -1)"

section \<open>Lists: the loops against splitting and trimming\<close>

definition trim_end :: "string \<Rightarrow> string" where
  "trim_end s = rev (dropWhile list_blank (rev s))"

definition trim_blanks :: "string \<Rightarrow> string" where
  "trim_blanks s = trim_end (dropWhile list_blank s)"

lemma trim_end_Nil [simp]: "trim_end [] = []"
  by (simp add: trim_end_def)

lemma trim_end_Cons: "trim_end (c # cs) = (if trim_end cs = [] \<and> list_blank c then [] else c # trim_end cs)"
  by (auto simp: trim_end_def dropWhile_append)

lemma trim_end_prefix: "\<exists>r. s = trim_end s @ r"
  by (induction s) (auto simp: trim_end_Cons)

lemma list_value_loop_eq:
  "list_value_loop cs n e =
     (let v = trim_end (takeWhile (\<lambda>c. c \<noteq> CHR '','') cs) in
      (if v = [] then e else n + length v - 1, dropWhile (\<lambda>c. c \<noteq> CHR '','') cs))"
  by (induction cs n e rule: list_value_loop.induct) (auto simp: trim_end_Cons Let_def)

lemma split_on_takeWhile:
  "split_on c s = takeWhile (\<lambda>x. x \<noteq> c) s # (case dropWhile (\<lambda>x. x \<noteq> c) s of [] \<Rightarrow> [] | _ # r \<Rightarrow> split_on c r)"
  by (induction s) auto

lemma take_list_value:
  assumes "c \<noteq> CHR '',''" "\<not> list_blank c" "list_value_loop cs 1 0 = (val_end, data)"
  shows "take (val_end + 1) (c # cs) = trim_blanks (takeWhile (\<lambda>x. x \<noteq> CHR '','') (c # cs))"
proof -
  let ?v = "trim_end (takeWhile (\<lambda>x. x \<noteq> CHR '','') cs)"
  have "val_end = length ?v" using assms(3) by (auto simp: list_value_loop_eq Let_def)
  moreover obtain r where "cs = ?v @ r" by (metis append.assoc takeWhile_dropWhile_id trim_end_prefix)
  ultimately have "take val_end cs = ?v" by (metis append_eq_conv_conj)
  then show ?thesis using assms by (simp add: trim_blanks_def trim_end_Cons)
qed

lemma parse_list_loop_eq: "parse_list_loop s = filter (\<lambda>v. v \<noteq> []) (map trim_blanks (split_on CHR '','' s))"
proof (induction s rule: parse_list_loop.induct)
  case (2 c cs)
  show ?case
  proof (cases "c \<noteq> CHR '','' \<and> \<not> list_blank c")
    case True
    obtain val_end data where l: "list_value_loop cs 1 0 = (val_end, data)" by force
    then have data: "data = dropWhile (\<lambda>x. x \<noteq> CHR '','') cs" by (simp add: list_value_loop_eq Let_def)
    have "split_on CHR '','' (c # cs) = takeWhile (\<lambda>x. x \<noteq> CHR '','') (c # cs) # (case data of [] \<Rightarrow> [] | _ # r \<Rightarrow> split_on CHR '','' r)"
      using True data split_on_takeWhile [of "CHR '',''" "c # cs"] by simp
    moreover have "trim_blanks (takeWhile (\<lambda>x. x \<noteq> CHR '','') (c # cs)) = take (val_end + 1) (c # cs)"
      using take_list_value [OF _ _ l] True by metis
    moreover have "filter (\<lambda>v. v \<noteq> []) (map trim_blanks (split_on CHR '','' data)) =
        filter (\<lambda>v. v \<noteq> []) (map trim_blanks (case data of [] \<Rightarrow> [] | _ # r \<Rightarrow> split_on CHR '','' r))"
    proof (cases data)
      case Nil
      then show ?thesis by (simp add: trim_blanks_def)
    next
      case (Cons d r)
      then have "d = CHR '',''" using data hd_dropWhile [of "\<lambda>x. x \<noteq> CHR '',''" cs] by simp
      with Cons show ?thesis by (simp add: trim_blanks_def)
    qed
    moreover have "parse_list_loop (c # cs) = take (val_end + 1) (c # cs) # parse_list_loop data"
      using True l by simp
    moreover note 2(1) [OF True l [symmetric] refl]
    ultimately show ?thesis by simp
  next
    case False
    have "map trim_blanks (split_on CHR '','' (c # cs)) =
        (if c = CHR '','' then [[]] @ map trim_blanks (split_on CHR '','' cs) else map trim_blanks (split_on CHR '','' cs))"
      using False by (cases "split_on CHR '','' cs") (auto simp: trim_blanks_def list_blank_def)
    moreover have "parse_list_loop (c # cs) = parse_list_loop cs" using False by auto
    ultimately show ?thesis using 2(2) [OF False] by simp
  qed
qed (simp add: trim_blanks_def)

text \<open>
  A list is what is between its commas, without blanks around it and without empty parts; a text that has no part
  is refused unless it is empty.
\<close>

theorem parse_list_reference:
  "parse_list value =
     (let vals = filter (\<lambda>v. v \<noteq> []) (map trim_blanks (split_on CHR '','' (c_str value))) in
      if vals = [] \<and> c_str value \<noteq> [] then None else Some vals)"
  by (auto simp: parse_list_def Let_def parse_list_loop_eq trim_blanks_def split: list.splits)

section \<open>Numbers: what is read fits\<close>

lemma parse_uint_bounds: "parse_uint v mx = Some n \<Longrightarrow> 0 \<le> mx \<Longrightarrow> 0 \<le> n \<and> n \<le> mx"
  by (auto simp: parse_uint_def split: prod.splits if_splits)

text \<open>The conversion in the accessor of a setting loses nothing of what its parser accepts.\<close>

lemma uint_settings_exact:
  "parse_uint32 v = Some n \<Longrightarrow> uint (get_uint32 n) = n"
  "parse_uint64 v = Some n \<Longrightarrow> uint (get_uint64 n) = n"
  using parse_uint_bounds [of v "2 ^ 32 - 1" n] parse_uint_bounds [of v "2 ^ 63 - 1" n]
  by (auto simp: parse_uint32_def parse_uint64_def get_uint32_def get_uint64_def uint_word_of_int mod_pos_pos_trivial)

section \<open>The table\<close>

lemma copy_tolower_map: "copy_tolower s = map ascii_lower s"
  by (induction s) (auto simp: tolower_ascii_def ascii_lower_def)

text \<open>Variables of the product and of the tracer get the names of their sections.\<close>

lemma ini_names:
  assumes "length v + 20 < bufsiz"
  shows "dd_ini_env_to_ini_name bufsiz (''DD_APPSEC_'' @ v) = Some (''datadog.appsec.'' @ map ascii_lower v)"
    "dd_ini_env_to_ini_name bufsiz (''DD_TRACE_'' @ v) = Some (''datadog.trace.'' @ map ascii_lower v)"
proof -
  have "map ascii_lower ''APPSEC'' = ''appsec''" "map ascii_lower ''TRACE'' = ''trace''" by code_simp+
  then show "dd_ini_env_to_ini_name bufsiz (''DD_APPSEC_'' @ v) = Some (''datadog.appsec.'' @ map ascii_lower v)"
    "dd_ini_env_to_ini_name bufsiz (''DD_TRACE_'' @ v) = Some (''datadog.trace.'' @ map ascii_lower v)"
    using assms by (simp_all add: dd_ini_env_to_ini_name_def DD_TO_DATADOG_INC_def Let_def copy_tolower_map)
qed

text \<open>
  The names of the table are different from each other and from the aliases, and short enough; so are the names of their INI
  entries. Every default is accepted by the parser of its entry.
\<close>

lemma config_names:
  "distinct (map entry_name config_entries @ concat (map entry_aliases config_entries))"
  "distinct (map (dd_ini_env_to_ini_name 60 \<circ> entry_name) config_entries)"
  "list_all (\<lambda>e. dd_ini_env_to_ini_name 60 (entry_name e) \<noteq> None \<and> dd_ini_env_to_ini_name 60 (entry_name e) \<noteq> Some [])
     config_entries"
  by (simp_all add: config_entries_def cfg_entry_def dd_ini_env_to_ini_name_def DD_TO_DATADOG_INC_def tolower_ascii_def Let_def)

lemma config_defaults_accepted:
  "list_all (\<lambda>e. case entry_type e of Cfg_CUSTOM p \<Rightarrow> parse_accepts p (entry_default e) s | _ \<Rightarrow> True) config_entries"
proof -
  have "parse_uint64 ''10000'' \<noteq> None" "parse_uint32 ''100'' \<noteq> None" "parse_uint32 ''1000'' \<noteq> None"
    "dd_parse_log_level ''warn'' \<noteq> None" "parse_list [] \<noteq> None" "dd_string_equals_lc (c_str ''safe'') ''safe''" by code_simp+
  then show ?thesis
    by (simp add: config_entries_def cfg_entry_def dd_parse_automated_user_events_tracking_def Let_def)
qed

end
