(* ===== verification/Json.thy ===== *)
theory Json
  imports Prelude
begin

text \<open>
  JSON documents and WAF parameters in the helper: src/helper/json\_helper.cpp, parameter.cpp and
  network/msgpack\_helpers.cpp.

  A document of rapidjson is a \<open>json\<close> value: one constructor per type of the library, numbers as
  integers or as the bits of a \<open>double\<close>; the members of an object are in order and keys may repeat. A
  \<open>ddwaf_object\<close> is a \<open>param\<close>; the name it has inside a map is the key there. Reading and writing the
  text of a document is the library's. \<open>GetString\<close> gives a pointer, so that the code sees a string up to
  its first NUL. Adding an element to a container of libddwaf is taken to succeed.
\<close>

section \<open>Documents\<close>

datatype json =
    JNull
  | JFalse
  | JTrue
  | JObject "(string \<times> json) list"
  | JArray "json list"
  | JString string
  | JInt int
  | JDouble u64

datatype json_type = kNullType | kFalseType | kTrueType | kObjectType | kArrayType | kStringType | kNumberType

fun json_get_type :: "json \<Rightarrow> json_type" where
  "json_get_type JNull = kNullType"
| "json_get_type JFalse = kFalseType"
| "json_get_type JTrue = kTrueType"
| "json_get_type (JObject _) = kObjectType"
| "json_get_type (JArray _) = kArrayType"
| "json_get_type (JString _) = kStringType"
| "json_get_type (JInt _) = kNumberType"
| "json_get_type (JDouble _) = kNumberType"

text \<open>\<open>FindMember\<close>: the first member of that name. Only objects may be asked.\<close>

fun find_member :: "json \<Rightarrow> string \<Rightarrow> json option outcome" where
  "find_member (JObject ms) key = Defined (map_of ms key)"
| "find_member _ key = Undefined"

text \<open>\<open>get_field_of_type\<close>: the value of a field that is present with the expected type.\<close>

definition get_field_of_type :: "json \<Rightarrow> string \<Rightarrow> json_type \<Rightarrow> json option outcome" where
  "get_field_of_type parent_field key ty =
     (case find_member parent_field key of
        Undefined \<Rightarrow> Undefined
      | Defined None \<Rightarrow> Defined None
      | Defined (Some v) \<Rightarrow> if ty \<noteq> json_get_type v then Defined None else Defined (Some v))"

datatype merge_error = Invalid_type string

definition merge_arrays :: "json \<Rightarrow> json \<Rightarrow> merge_error + json" where
  "merge_arrays destination source =
     (case destination of
        JArray ds \<Rightarrow> (case source of JArray ss \<Rightarrow> Inr (JArray (ds @ ss))
          | _ \<Rightarrow> Inl (Invalid_type ''source value not an array''))
      | _ \<Rightarrow> Inl (Invalid_type ''destination value not an array''))"

definition merge_objects :: "json \<Rightarrow> json \<Rightarrow> merge_error + json" where
  "merge_objects destination source =
     (case destination of
        JObject ds \<Rightarrow> (case source of JObject ss \<Rightarrow> Inr (JObject (ds @ ss))
          | _ \<Rightarrow> Inl (Invalid_type ''source value not an object''))
      | _ \<Rightarrow> Inl (Invalid_type ''destination value not an object''))"

section \<open>Parameters\<close>

datatype param =
    P_invalid
  | P_signed int
  | P_unsigned int
  | P_string string
  | P_bool bool
  | P_array "param list"
  | P_map "(string \<times> param) list"
  | P_float u64
  | P_null

definition is_int64 :: "int \<Rightarrow> bool" where
  "is_int64 i \<longleftrightarrow> - (2 ^ 63) \<le> i \<and> i < 2 ^ 63"

definition is_uint64 :: "int \<Rightarrow> bool" where
  "is_uint64 i \<longleftrightarrow> 0 \<le> i \<and> i < 2 ^ 64"

text \<open>The values of a list of conversions, undefined when one of them is.\<close>

fun sequence_outcomes :: "'a outcome list \<Rightarrow> 'a list outcome" where
  "sequence_outcomes [] = Defined []"
| "sequence_outcomes (x # xs) =
     (case x of Undefined \<Rightarrow> Undefined
      | Defined a \<Rightarrow> (case sequence_outcomes xs of Undefined \<Rightarrow> Undefined | Defined as \<Rightarrow> Defined (a # as)))"

text \<open>
  \<open>json_to_object\<close> writes through a pointer: the first argument is what is there before. An element of
  a container is a local variable without a value.
\<close>

fun json_to_object :: "param outcome \<Rightarrow> json \<Rightarrow> param outcome" where
  "json_to_object old JFalse = Defined (P_string ''false'')"
| "json_to_object old JTrue = Defined (P_string ''true'')"
| "json_to_object old (JObject ms) =
     (case sequence_outcomes (map (\<lambda>(k, v). json_to_object Undefined v) ms) of
        Undefined \<Rightarrow> Undefined
      | Defined ps \<Rightarrow> Defined (P_map (zip (map (c_str \<circ> fst) ms) ps)))"
| "json_to_object old (JArray vs) =
     (case sequence_outcomes (map (json_to_object Undefined) vs) of
        Undefined \<Rightarrow> Undefined
      | Defined ps \<Rightarrow> Defined (P_array ps))"
| "json_to_object old (JString s) = Defined (P_string (c_str s))"
| "json_to_object old (JInt i) =
     (if is_int64 i then Defined (P_string (int_dec i))
      else if is_uint64 i then Defined (P_string (nat_dec (nat i)))
      else old)"
| "json_to_object old (JDouble d) = old"
| "json_to_object old JNull = Defined P_invalid"

definition json_to_parameter :: "json \<Rightarrow> param outcome" where
  "json_to_parameter doc = json_to_object (Defined P_invalid) doc"

text \<open>
  \<open>parameter_to_json_helper\<close>, \<open>None\<close> where it throws. A float or a null has no case in the switch and
  leaves the new value as it is created, a null.
\<close>

fun sequence_options :: "'a option list \<Rightarrow> 'a list option" where
  "sequence_options [] = Some []"
| "sequence_options (x # xs) =
     (case x of None \<Rightarrow> None
      | Some a \<Rightarrow> (case sequence_options xs of None \<Rightarrow> None | Some as \<Rightarrow> Some (a # as)))"

fun parameter_to_json_helper :: "param \<Rightarrow> json option" where
  "parameter_to_json_helper (P_signed i) = Some (JInt i)"
| "parameter_to_json_helper (P_unsigned i) = Some (JInt i)"
| "parameter_to_json_helper (P_string s) = Some (JString s)"
| "parameter_to_json_helper (P_bool b) = Some (if b then JTrue else JFalse)"
| "parameter_to_json_helper (P_map ms) =
     map_option (\<lambda>vs. JObject (zip (map fst ms) vs))
       (sequence_options (map (\<lambda>(k, v). parameter_to_json_helper v) ms))"
| "parameter_to_json_helper (P_array ps) =
     map_option JArray (sequence_options (map parameter_to_json_helper ps))"
| "parameter_to_json_helper P_invalid = None"
| "parameter_to_json_helper (P_float d) = Some JNull"
| "parameter_to_json_helper P_null = Some JNull"

text \<open>\<open>write\<close> is the writer of the library, or nothing when it refuses the document.\<close>

definition parameter_to_json :: "(json \<Rightarrow> string option) \<Rightarrow> param \<Rightarrow> string" where
  "parameter_to_json write pv =
     (case parameter_to_json_helper pv of
        None \<Rightarrow> []
      | Some doc \<Rightarrow> (case write doc of Some s \<Rightarrow> s | None \<Rightarrow> []))"

section \<open>Messages\<close>

text \<open>
  An object of msgpack. Text is a \<open>string_view\<close> for a string; the conversion of a key that is not a
  string throws, which is \<open>None\<close>. A floating point number goes through a \<open>float\<close>, the parameter
  \<open>to_float\<close>.
\<close>

datatype msgpack_object =
    M_nil
  | M_boolean bool
  | M_positive nat
  | M_negative int
  | M_float32 u32
  | M_float64 u64
  | M_str string
  | M_bin string
  | M_ext string
  | M_array "msgpack_object list"
  | M_map "(msgpack_object \<times> msgpack_object) list"

definition msgpack_max_depth :: nat where
  "msgpack_max_depth = 20"

definition msgpack_key :: "msgpack_object \<Rightarrow> string option" where
  "msgpack_key k = (case k of M_str s \<Rightarrow> Some s | M_bin s \<Rightarrow> Some s | _ \<Rightarrow> None)"

fun msgpack_to_param :: "(u64 \<Rightarrow> u64) \<Rightarrow> nat \<Rightarrow> msgpack_object \<Rightarrow> param option" where
  "msgpack_to_param to_float depth (M_array os) =
     (if depth \<ge> msgpack_max_depth then Some P_invalid
      else map_option P_array (sequence_options (map (msgpack_to_param to_float (Suc depth)) os)))"
| "msgpack_to_param to_float depth (M_map kvs) =
     (if depth \<ge> msgpack_max_depth then Some P_invalid
      else case sequence_options (map (\<lambda>(k, v). msgpack_key k) kvs) of
        None \<Rightarrow> None
      | Some ks \<Rightarrow>
          map_option (\<lambda>ps. P_map (zip ks ps))
            (sequence_options (map (\<lambda>(k, v). msgpack_to_param to_float (Suc depth) v) kvs)))"
| "msgpack_to_param to_float depth obj =
     (if depth \<ge> msgpack_max_depth then Some P_invalid
      else case obj of
        M_str s \<Rightarrow> Some (P_string s)
      | M_boolean b \<Rightarrow> Some (P_bool b)
      | M_float64 d \<Rightarrow> Some (P_float (to_float d))
      | M_positive n \<Rightarrow> Some (P_unsigned (int n))
      | M_negative i \<Rightarrow> Some (P_signed i)
      | M_nil \<Rightarrow> Some P_null
      | _ \<Rightarrow> Some P_invalid)"

section \<open>Laws of the conversions\<close>

lemma sequence_outcomes_Undefined: "sequence_outcomes xs = Undefined \<longleftrightarrow> Undefined \<in> set xs"
  by (induction xs) (auto split: outcome.splits)

lemma sequence_outcomes_Defined [simp]: "sequence_outcomes (map (\<lambda>x. Defined (f x)) xs) = Defined (map f xs)"
  by (induction xs) auto

lemma sequence_options_None: "sequence_options xs = None \<longleftrightarrow> None \<in> set xs"
  by (induction xs) (auto split: option.splits)

lemma sequence_options_Some: "sequence_options xs = Some ys \<longleftrightarrow> xs = map Some ys"
proof
  show "sequence_options xs = Some ys \<Longrightarrow> xs = map Some ys"
    by (induction xs arbitrary: ys) (auto split: option.splits)
  have "sequence_options (map Some ys) = Some ys" by (induction ys) auto
  then show "xs = map Some ys \<Longrightarrow> sequence_options xs = Some ys" by simp
qed

lemma sequence_options_map [simp]: "sequence_options (map (\<lambda>x. Some (f x)) xs) = Some (map f xs)"
  by (simp add: sequence_options_Some)

text \<open>The numbers for which the conversion writes nothing.\<close>

fun unwritten :: "json \<Rightarrow> bool" where
  "unwritten (JDouble d) = True"
| "unwritten (JInt i) = (\<not> is_int64 i \<and> \<not> is_uint64 i)"
| "unwritten _ = False"

fun unwritten_inside :: "json \<Rightarrow> bool" where
  "unwritten_inside (JObject ms) = list_ex (\<lambda>(k, v). unwritten v \<or> unwritten_inside v) ms"
| "unwritten_inside (JArray vs) = list_ex (\<lambda>v. unwritten v \<or> unwritten_inside v) vs"
| "unwritten_inside _ = False"

text \<open>A document with its leaves turned into strings; \<open>None\<close> when it has a null.\<close>

fun leaf_strings :: "json \<Rightarrow> json option" where
  "leaf_strings JNull = None"
| "leaf_strings JFalse = Some (JString ''false'')"
| "leaf_strings JTrue = Some (JString ''true'')"
| "leaf_strings (JObject ms) =
     map_option (\<lambda>vs. JObject (zip (map (c_str \<circ> fst) ms) vs))
       (sequence_options (map (\<lambda>(k, v). leaf_strings v) ms))"
| "leaf_strings (JArray vs) = map_option JArray (sequence_options (map leaf_strings vs))"
| "leaf_strings (JString s) = Some (JString (c_str s))"
| "leaf_strings (JInt i) = Some (JString (int_dec i))"
| "leaf_strings (JDouble d) = None"

lemma sequence_outcomes_case: "(case sequence_outcomes xs of Undefined \<Rightarrow> Undefined | Defined ps \<Rightarrow> Defined (f ps)) = Undefined
    \<longleftrightarrow> Undefined \<in> set xs"
  by (auto simp: sequence_outcomes_Undefined [symmetric] split: outcome.splits)

lemma json_to_object_undefined:
  "json_to_object old j = Undefined \<longleftrightarrow> (unwritten j \<and> old = Undefined) \<or> unwritten_inside j"
proof (induction old j rule: json_to_object.induct)
  case (3 old ms)
  have e: "Undefined = json_to_object Undefined v \<longleftrightarrow> unwritten v \<or> unwritten_inside v" if "(k, v) \<in> set ms" for k v
    using 3 [OF that refl] by (simp add: eq_commute [of Undefined])
  show ?case unfolding json_to_object.simps sequence_outcomes_case
    by (auto simp: list_ex_iff image_iff e intro: bexI [rotated])
next
  case (4 old vs)
  have e: "Undefined = json_to_object Undefined v \<longleftrightarrow> unwritten v \<or> unwritten_inside v" if "v \<in> set vs" for v
    using 4 [OF that] by (simp add: eq_commute [of Undefined])
  show ?case unfolding json_to_object.simps sequence_outcomes_case
    by (auto simp: list_ex_iff image_iff e)
qed auto

lemma sequence_outcomes_Defined_iff: "sequence_outcomes xs = Defined ys \<longleftrightarrow> xs = map Defined ys"
proof
  show "sequence_outcomes xs = Defined ys \<Longrightarrow> xs = map Defined ys"
    by (induction xs arbitrary: ys) (auto split: outcome.splits)
  have "sequence_outcomes (map Defined ys) = Defined ys" by (induction ys) auto
  then show "xs = map Defined ys \<Longrightarrow> sequence_outcomes xs = Defined ys" by simp
qed

lemma map_pointwise:
  "map f ms = map Defined ps \<Longrightarrow> (\<And>m p. m \<in> set ms \<Longrightarrow> f m = Defined p \<Longrightarrow> g p = h m) \<Longrightarrow> map g ps = map h ms"
proof (induction ms arbitrary: ps)
  case (Cons m ms)
  then obtain p ps' where "ps = p # ps'" "f m = Defined p" "map f ms = map Defined ps'" by (cases ps) auto
  with Cons show ?case by simp
qed simp

lemma map_snd_zip_pairs: "length ks = length ps \<Longrightarrow> map (\<lambda>(k, v). g v) (zip ks ps) = map g ps"
  by (induction ks ps rule: list_induct2) auto

lemma child_written: "json_to_object Undefined v = Defined p \<Longrightarrow> \<not> unwritten v"
  using json_to_object_undefined [of Undefined v] by auto

lemma parameter_roundtrip:
  "json_to_object old j = Defined p \<Longrightarrow> \<not> unwritten j \<Longrightarrow> parameter_to_json_helper p = leaf_strings j"
proof (induction old j arbitrary: p rule: json_to_object.induct)
  case (3 old ms)
  then obtain ps where ps: "map (\<lambda>(k, v). json_to_object Undefined v) ms = map Defined ps"
      "p = P_map (zip (map (c_str \<circ> fst) ms) ps)"
    by (auto simp: sequence_outcomes_Defined_iff split: outcome.splits)
  have "length ps = length ms" using arg_cong [OF ps(1), of length] by simp
  moreover have "map parameter_to_json_helper ps = map (\<lambda>(k, v). leaf_strings v) ms"
    by (rule map_pointwise [OF ps(1)]) (use 3(1) child_written in fastforce)
  ultimately show ?case by (simp add: ps(2) map_snd_zip_pairs)
next
  case (4 old vs)
  then obtain ps where ps: "map (json_to_object Undefined) vs = map Defined ps" "p = P_array ps"
    by (auto simp: sequence_outcomes_Defined_iff split: outcome.splits)
  have "map parameter_to_json_helper ps = map leaf_strings vs"
    by (rule map_pointwise [OF ps(1)]) (use 4(1) child_written in fastforce)
  then show ?case by (simp add: ps(2))
next
  case (6 old i)
  then show ?case by (auto simp: is_uint64_def int_dec_def split: if_splits)
qed auto

text \<open>
  Property C27: a ruleset (an object) is converted to a parameter without reading an uninitialised value exactly
  when there is no number inside it that is neither a signed nor an unsigned 64-bit integer, such as
  a fraction; and then converting back gives the document with its leaves turned into strings (or fails
  where the document has a null).
\<close>

theorem ruleset_conversion:
  "(json_to_parameter (JObject ms) = Undefined \<longleftrightarrow> unwritten_inside (JObject ms)) \<and>
   (\<forall>p. json_to_parameter (JObject ms) = Defined p \<longrightarrow>
      parameter_to_json_helper p = leaf_strings (JObject ms))"
proof (intro conjI allI impI)
  show "json_to_parameter (JObject ms) = Undefined \<longleftrightarrow> unwritten_inside (JObject ms)"
    unfolding json_to_parameter_def json_to_object_undefined by simp
  fix p assume "json_to_parameter (JObject ms) = Defined p"
  then show "parameter_to_json_helper p = leaf_strings (JObject ms)"
    unfolding json_to_parameter_def by (rule parameter_roundtrip) simp
qed

lemma ruleset_conversion_witness:
  "json_to_parameter (JObject [(''rules'', JArray [JFalse, JTrue])]) =
     Defined (P_map [(''rules'', P_array [P_string ''false'', P_string ''true''])]) \<and>
   parameter_to_json_helper (P_map [(''rules'', P_array [P_string ''false'', P_string ''true''])]) =
     leaf_strings (JObject [(''rules'', JArray [JFalse, JTrue])])"
proof -
  have "json_to_parameter (JObject [(''rules'', JArray [JFalse, JTrue])]) =
     Defined (P_map [(''rules'', P_array [P_string ''false'', P_string ''true''])])"
    by (simp add: json_to_parameter_def)
  with ruleset_conversion [of "[(''rules'', JArray [JFalse, JTrue])]"] show ?thesis by simp
qed

section \<open>The depth of parameters\<close>

fun param_depth :: "param \<Rightarrow> nat" where
  "param_depth (P_array ps) = Suc (Max (insert 0 (set (map param_depth ps))))"
| "param_depth (P_map ms) = Suc (Max (insert 0 (set (map (\<lambda>(k, v). param_depth v) ms))))"
| "param_depth _ = 0"

fun msgpack_depth :: "msgpack_object \<Rightarrow> nat" where
  "msgpack_depth (M_array os) = Suc (Max (insert 0 (set (map msgpack_depth os))))"
| "msgpack_depth (M_map kvs) = Suc (Max (insert 0 (set (map (\<lambda>(k, v). msgpack_depth v) kvs))))"
| "msgpack_depth _ = 0"

text \<open>The conversion without a limit.\<close>

fun to_param :: "(u64 \<Rightarrow> u64) \<Rightarrow> msgpack_object \<Rightarrow> param option" where
  "to_param to_float (M_array os) = map_option P_array (sequence_options (map (to_param to_float) os))"
| "to_param to_float (M_map kvs) =
     (case sequence_options (map (\<lambda>(k, v). msgpack_key k) kvs) of
        None \<Rightarrow> None
      | Some ks \<Rightarrow>
          map_option (\<lambda>ps. P_map (zip ks ps)) (sequence_options (map (\<lambda>(k, v). to_param to_float v) kvs)))"
| "to_param to_float (M_str s) = Some (P_string s)"
| "to_param to_float (M_boolean b) = Some (P_bool b)"
| "to_param to_float (M_float64 d) = Some (P_float (to_float d))"
| "to_param to_float (M_positive n) = Some (P_unsigned (int n))"
| "to_param to_float (M_negative i) = Some (P_signed i)"
| "to_param to_float M_nil = Some P_null"
| "to_param to_float _ = Some P_invalid"

lemma Suc_Max_le: "finite A \<Longrightarrow> Suc (Max (insert 0 A)) \<le> n \<longleftrightarrow> 0 < n \<and> (\<forall>d \<in> A. d < n)"
  by (auto simp: Suc_le_eq Max_less_iff)

lemma map_Some_mem: "map f xs = map Some ys \<Longrightarrow> y \<in> set ys \<Longrightarrow> \<exists>x \<in> set xs. f x = Some y"
  by (induction xs arbitrary: ys) (auto simp: Cons_eq_map_conv)

lemma msgpack_to_param_depth:
  "msgpack_to_param f depth obj = Some p \<Longrightarrow> param_depth p \<le> msgpack_max_depth - depth"
proof (induction f depth obj arbitrary: p rule: msgpack_to_param.induct)
  case (1 f depth os)
  show ?case
  proof (cases "depth \<ge> msgpack_max_depth")
    case False
    with 1(2) obtain ps where ps: "p = P_array ps" "map (msgpack_to_param f (Suc depth)) os = map Some ps"
      by (auto simp: sequence_options_Some)
    have "param_depth q < msgpack_max_depth - depth" if "q \<in> set ps" for q
      using map_Some_mem [OF ps(2) that] 1(1) False by fastforce
    then show ?thesis using False by (auto simp: ps(1) Suc_Max_le)
  qed (use 1 in simp)
next
  case (2 f depth kvs)
  show ?case
  proof (cases "depth \<ge> msgpack_max_depth")
    case False
    with 2(2) obtain ks ps where ps: "p = P_map (zip ks ps)"
        "map (\<lambda>(k, v). msgpack_to_param f (Suc depth) v) kvs = map Some ps"
        "sequence_options (map (\<lambda>(k, v). msgpack_key k) kvs) = Some ks"
      by (auto simp: sequence_options_Some [of _ "ps" for ps] split: option.splits)
    have "param_depth q < msgpack_max_depth - depth" if q: "q \<in> set ps" for q
    proof -
      obtain k v where "(k, v) \<in> set kvs" "msgpack_to_param f (Suc depth) v = Some q"
        using map_Some_mem [OF ps(2) q] by auto
      then show ?thesis using 2(1) [OF False ps(3) _ refl] False by fastforce
    qed
    then show ?thesis using False by (auto simp: ps(1) Suc_Max_le dest: set_zip_rightD)
  qed (use 2 in simp)
qed (auto split: if_splits)

lemma msgpack_to_param_faithful:
  "msgpack_depth obj + depth < msgpack_max_depth \<Longrightarrow> msgpack_to_param f depth obj = to_param f obj"
proof (induction f depth obj rule: msgpack_to_param.induct)
  case (1 f depth os)
  have "msgpack_depth v + Suc depth < msgpack_max_depth" if "v \<in> set os" for v
  proof -
    have "msgpack_depth v \<le> Max (insert 0 (msgpack_depth ` set os))" using that by (intro Max_ge) auto
    then show ?thesis using 1(2) by simp
  qed
  then have "map (msgpack_to_param f (Suc depth)) os = map (to_param f) os" using 1(1,2) by simp
  then show ?case using 1(2) by (simp del: map_eq_conv)
next
  case (2 f depth kvs)
  have "msgpack_depth v + Suc depth < msgpack_max_depth" if "(k, v) \<in> set kvs" for k v
  proof -
    have "msgpack_depth v \<le> Max (insert 0 ((\<lambda>(k, v). msgpack_depth v) ` set kvs))" using that by (intro Max_ge) force+
    then show ?thesis using 2(2) by simp
  qed
  then have "sequence_options (map (\<lambda>(k, v). msgpack_key k) kvs) = Some ks \<Longrightarrow>
      map (\<lambda>(k, v). msgpack_to_param f (Suc depth) v) kvs = map (\<lambda>(k, v). to_param f v) kvs" for ks
    using 2 by (auto simp: not_le)
  then show ?case using 2(2) by (simp del: map_eq_conv split: option.split)
qed simp_all

text \<open>
  The parameter made of a message is nested at most twenty containers deep, whatever the
  message, and a message that is nested less deep is converted as a whole.
\<close>

theorem message_depth_bounded:
  "(\<forall>p. msgpack_to_param f 0 obj = Some p \<longrightarrow> param_depth p \<le> msgpack_max_depth) \<and>
   (msgpack_depth obj < msgpack_max_depth \<longrightarrow> msgpack_to_param f 0 obj = to_param f obj)"
  using msgpack_to_param_depth [of f 0 obj] msgpack_to_param_faithful [of obj 0 f] by simp

lemma message_depth_bounded_witness:
  "msgpack_to_param id 0 (M_map [(M_str ''a'', M_array [M_nil])]) = Some (P_map [(''a'', P_array [P_null])])"
  using message_depth_bounded [of id "M_map [(M_str ''a'', M_array [M_nil])]"]
  by (simp add: msgpack_max_depth_def msgpack_key_def)

end
