(* ===== verification/Tuf_Parser.thy ===== *)
theory Tuf_Parser
  imports Json
begin

text \<open>
  src/helper/remote\_config/protocol/tuf/parser.cpp and the structures of remote\_config/protocol: reading the
  answers of the agent to requests for remote configuration.

  Parsing text into a document is the library's, as is the decoding of base64; they are the parameters
  \<open>parse_doc\<close> and \<open>base64_decode\<close>, with \<open>None\<close> for an error. A parser throws one of the results
  \<open>remote_config_parser_result\<close> (\<open>Inl\<close>) or gives a value (\<open>Inr\<close>). It is \<open>Undefined\<close> when it asks the library
  for a member of a value that is not an object, or for the integer of a number that is none.
\<close>

section \<open>Data\<close>

datatype remote_config_parser_result =
    success
  | allow_missing
  | invalid_json
  | targets_field_empty
  | targets_field_invalid_base64
  | targets_field_invalid_json
  | targets_field_invalid_type
  | signed_targets_field_invalid
  | signed_targets_field_missing
  | type_signed_targets_field_invalid
  | type_signed_targets_field_invalid_type
  | type_signed_targets_field_missing
  | version_signed_targets_field_invalid
  | version_signed_targets_field_missing
  | custom_signed_targets_field_invalid
  | custom_signed_targets_field_missing
  | obs_custom_signed_targets_field_invalid
  | obs_custom_signed_targets_field_missing
  | target_files_object_invalid
  | target_files_field_invalid_type
  | target_files_path_field_missing
  | target_files_path_field_invalid_type
  | target_files_raw_field_missing
  | target_files_raw_field_invalid_type
  | client_config_field_invalid_type
  | client_config_field_invalid_entry
  | targets_signed_targets_field_invalid
  | targets_signed_targets_field_missing
  | custom_path_targets_field_invalid
  | custom_path_targets_field_missing
  | v_path_targets_field_invalid
  | v_path_targets_field_missing
  | hashes_path_targets_field_invalid
  | hashes_path_targets_field_missing
  | hashes_path_targets_field_empty
  | hash_hashes_path_targets_field_invalid
  | length_path_targets_field_invalid
  | length_path_targets_field_missing
  | invalid_response
  | endpoints_field_missing
  | endpoints_field_invalid
  | invalid_endpoint
  | num_of_values

primrec remote_config_parser_result_to_str :: "remote_config_parser_result \<Rightarrow> string" where
  "remote_config_parser_result_to_str success = ''success''"
| "remote_config_parser_result_to_str allow_missing = ''allow_missing''"
| "remote_config_parser_result_to_str invalid_json = ''invalid_json''"
| "remote_config_parser_result_to_str targets_field_empty = ''targets_field_empty''"
| "remote_config_parser_result_to_str targets_field_invalid_base64 = ''targets_field_invalid_base64''"
| "remote_config_parser_result_to_str targets_field_invalid_json = ''targets_field_invalid_json''"
| "remote_config_parser_result_to_str targets_field_invalid_type = ''targets_field_invalid_type''"
| "remote_config_parser_result_to_str signed_targets_field_invalid = ''signed_targets_field_invalid''"
| "remote_config_parser_result_to_str signed_targets_field_missing = ''signed_targets_field_missing''"
| "remote_config_parser_result_to_str type_signed_targets_field_invalid = ''type_signed_targets_field_invalid''"
| "remote_config_parser_result_to_str type_signed_targets_field_invalid_type = ''type_signed_targets_field_invalid_type''"
| "remote_config_parser_result_to_str type_signed_targets_field_missing = ''type_signed_targets_field_missing''"
| "remote_config_parser_result_to_str version_signed_targets_field_invalid = ''version_signed_targets_field_invalid''"
| "remote_config_parser_result_to_str version_signed_targets_field_missing = ''version_signed_targets_field_missing''"
| "remote_config_parser_result_to_str custom_signed_targets_field_invalid = ''custom_signed_targets_field_invalid''"
| "remote_config_parser_result_to_str custom_signed_targets_field_missing = ''custom_signed_targets_field_missing''"
| "remote_config_parser_result_to_str obs_custom_signed_targets_field_invalid = ''obs_custom_signed_targets_field_invalid''"
| "remote_config_parser_result_to_str obs_custom_signed_targets_field_missing = ''obs_custom_signed_targets_field_missing''"
| "remote_config_parser_result_to_str target_files_object_invalid = ''target_files_object_invalid''"
| "remote_config_parser_result_to_str target_files_field_invalid_type = ''target_files_field_invalid_type''"
| "remote_config_parser_result_to_str target_files_path_field_missing = ''target_files_path_field_missing''"
| "remote_config_parser_result_to_str target_files_path_field_invalid_type = ''target_files_path_field_invalid_type''"
| "remote_config_parser_result_to_str target_files_raw_field_missing = ''target_files_raw_field_missing''"
| "remote_config_parser_result_to_str target_files_raw_field_invalid_type = ''target_files_raw_field_invalid_type''"
| "remote_config_parser_result_to_str client_config_field_invalid_type = ''client_config_field_invalid_type''"
| "remote_config_parser_result_to_str client_config_field_invalid_entry = ''client_config_field_invalid_entry''"
| "remote_config_parser_result_to_str targets_signed_targets_field_invalid = ''targets_signed_targets_field_invalid''"
| "remote_config_parser_result_to_str targets_signed_targets_field_missing = ''targets_signed_targets_field_missing''"
| "remote_config_parser_result_to_str custom_path_targets_field_invalid = ''custom_path_targets_field_invalid''"
| "remote_config_parser_result_to_str custom_path_targets_field_missing = ''custom_path_targets_field_missing''"
| "remote_config_parser_result_to_str v_path_targets_field_invalid = ''v_path_targets_field_invalid''"
| "remote_config_parser_result_to_str v_path_targets_field_missing = ''v_path_targets_field_missing''"
| "remote_config_parser_result_to_str hashes_path_targets_field_invalid = ''hashes_path_targets_field_invalid''"
| "remote_config_parser_result_to_str hashes_path_targets_field_missing = ''hashes_path_targets_field_missing''"
| "remote_config_parser_result_to_str hashes_path_targets_field_empty = ''hashes_path_targets_field_empty''"
| "remote_config_parser_result_to_str hash_hashes_path_targets_field_invalid = ''hash_hashes_path_targets_field_invalid''"
| "remote_config_parser_result_to_str length_path_targets_field_invalid = ''length_path_targets_field_invalid''"
| "remote_config_parser_result_to_str length_path_targets_field_missing = ''length_path_targets_field_missing''"
| "remote_config_parser_result_to_str invalid_response = ''invalid_response''"
| "remote_config_parser_result_to_str endpoints_field_missing = ''endpoints_field_missing''"
| "remote_config_parser_result_to_str endpoints_field_invalid = ''endpoints_field_invalid''"
| "remote_config_parser_result_to_str invalid_endpoint = ''invalid_endpoint''"
| "remote_config_parser_result_to_str num_of_values = ''''"

record path =
  custom_v :: int
  path_hashes :: "string \<rightharpoonup> string"
  path_length :: int

record targets =
  targets_version :: int
  opaque_backend_state :: string
  targets_paths :: "string \<rightharpoonup> path"

record target_file =
  tf_path :: string
  tf_raw :: string

record get_configs_response =
  target_files :: "string \<rightharpoonup> target_file"
  client_configs :: "string list"
  response_targets :: "targets option"

type_synonym 'a parsed = "(remote_config_parser_result + 'a) outcome"

definition throw_parser :: "remote_config_parser_result \<Rightarrow> 'a parsed" where
  "throw_parser e = Defined (Inl e)"

definition parsed :: "'a \<Rightarrow> 'a parsed" where
  "parsed a = Defined (Inr a)"

definition and_then :: "'a parsed \<Rightarrow> ('a \<Rightarrow> 'b parsed) \<Rightarrow> 'b parsed" where
  "and_then m f = (case m of Undefined \<Rightarrow> Undefined | Defined (Inl e) \<Rightarrow> Defined (Inl e) | Defined (Inr a) \<Rightarrow> f a)"

text \<open>\<open>insert\<close> and \<open>emplace\<close> of an unordered map keep a value that is there.\<close>

definition map_emplace :: "'k \<Rightarrow> 'v \<Rightarrow> ('k \<rightharpoonup> 'v) \<Rightarrow> ('k \<rightharpoonup> 'v)" where
  "map_emplace k v m = (if m k = None then m(k \<mapsto> v) else m)"

section \<open>Parsing\<close>

text \<open>The two versions of \<open>validate_field_is_present\<close>; the first may allow a field to be missing.\<close>

definition validate_optional_field ::
  "json \<Rightarrow> string \<Rightarrow> json_type \<Rightarrow> remote_config_parser_result \<Rightarrow> remote_config_parser_result \<Rightarrow> json option parsed" where
  "validate_optional_field parent_field key ty missing invalid =
     (case find_member parent_field key of
        Undefined \<Rightarrow> Undefined
      | Defined None \<Rightarrow> if missing = allow_missing then parsed None else throw_parser missing
      | Defined (Some v) \<Rightarrow> if ty = json_get_type v then parsed (Some v) else throw_parser invalid)"

definition validate_field ::
  "json \<Rightarrow> string \<Rightarrow> json_type \<Rightarrow> remote_config_parser_result \<Rightarrow> remote_config_parser_result \<Rightarrow> json parsed" where
  "validate_field parent_field key ty missing invalid =
     (case find_member parent_field key of
        Undefined \<Rightarrow> Undefined
      | Defined None \<Rightarrow> throw_parser missing
      | Defined (Some v) \<Rightarrow> if ty = json_get_type v then parsed v else throw_parser invalid)"

fun get_string :: "json \<Rightarrow> string outcome" where
  "get_string (JString s) = Defined (c_str s)"
| "get_string _ = Undefined"

text \<open>\<open>GetInt\<close>: the number has to be one that fits an \<open>int\<close>.\<close>

fun get_int :: "json \<Rightarrow> int outcome" where
  "get_int (JInt i) = (if - (2 ^ 31) \<le> i \<and> i < 2 ^ 31 then Defined i else Undefined)"
| "get_int _ = Undefined"

definition with_value :: "'a outcome \<Rightarrow> ('a \<Rightarrow> 'b parsed) \<Rightarrow> 'b parsed" where
  "with_value x f = (case x of Undefined \<Rightarrow> Undefined | Defined a \<Rightarrow> f a)"

fun json_elements :: "json \<Rightarrow> json list" where
  "json_elements (JArray vs) = vs"
| "json_elements _ = []"

fun json_members :: "json \<Rightarrow> (string \<times> json) list" where
  "json_members (JObject ms) = ms"
| "json_members _ = []"

fun parse_target_file :: "json \<Rightarrow> target_file parsed" where
  "parse_target_file (JObject ms) =
     (case map_of ms ''path'' of
        None \<Rightarrow> throw_parser target_files_path_field_missing
      | Some (JString p) \<Rightarrow>
          (case map_of ms ''raw'' of
             None \<Rightarrow> throw_parser target_files_raw_field_missing
           | Some (JString r) \<Rightarrow> parsed \<lparr>tf_path = c_str p, tf_raw = c_str r\<rparr>
           | Some _ \<Rightarrow> throw_parser target_files_raw_field_invalid_type)
      | Some _ \<Rightarrow> throw_parser target_files_path_field_invalid_type)"
| "parse_target_file _ = throw_parser target_files_object_invalid"

fun parse_target_files_loop :: "(string \<rightharpoonup> target_file) \<Rightarrow> json list \<Rightarrow> (string \<rightharpoonup> target_file) parsed" where
  "parse_target_files_loop result [] = parsed result"
| "parse_target_files_loop result (v # vs) =
     and_then (parse_target_file v)
       (\<lambda>tf. parse_target_files_loop (map_emplace (tf_path tf) tf result) vs)"

definition parse_target_files :: "json \<Rightarrow> (string \<rightharpoonup> target_file) parsed" where
  "parse_target_files v = parse_target_files_loop Map.empty (json_elements v)"

fun parse_strings :: "remote_config_parser_result \<Rightarrow> json list \<Rightarrow> string list parsed" where
  "parse_strings invalid [] = parsed []"
| "parse_strings invalid (v # vs) =
     (case v of
        JString s \<Rightarrow> and_then (parse_strings invalid vs) (\<lambda>ss. parsed (c_str s # ss))
      | _ \<Rightarrow> throw_parser invalid)"

definition parse_client_configs :: "json \<Rightarrow> string list parsed" where
  "parse_client_configs v = parse_strings client_config_field_invalid_entry (json_elements v)"

fun parse_hashes :: "(string \<rightharpoonup> string) \<Rightarrow> (string \<times> json) list \<Rightarrow> (string \<rightharpoonup> string) parsed" where
  "parse_hashes hashes_mapped [] = parsed hashes_mapped"
| "parse_hashes hashes_mapped ((name, v) # ms) =
     (case v of
        JString s \<Rightarrow> parse_hashes (map_emplace (c_str name) (c_str s) hashes_mapped) ms
      | _ \<Rightarrow> throw_parser hash_hashes_path_targets_field_invalid)"

text \<open>The map of hashes is empty exactly when the object has no members.\<close>

definition parse_target :: "string \<times> json \<Rightarrow> (string \<times> path) parsed" where
  "parse_target = (\<lambda>(name, target).
     and_then (validate_field target ''custom'' kObjectType
         custom_path_targets_field_missing custom_path_targets_field_invalid) (\<lambda>custom.
     and_then (validate_field custom ''v'' kNumberType
         v_path_targets_field_missing v_path_targets_field_invalid) (\<lambda>v.
     and_then (validate_field target ''hashes'' kObjectType
         hashes_path_targets_field_missing hashes_path_targets_field_invalid) (\<lambda>hashes.
     and_then (parse_hashes Map.empty (json_members hashes)) (\<lambda>hashes_mapped.
     if json_members hashes = [] then throw_parser hashes_path_targets_field_empty
     else
     and_then (validate_field target ''length'' kNumberType
         length_path_targets_field_missing length_path_targets_field_invalid) (\<lambda>len.
     with_value (get_int v) (\<lambda>custom_v.
     with_value (get_int len) (\<lambda>length.
     parsed (c_str name, \<lparr>custom_v = custom_v, path_hashes = hashes_mapped, path_length = length\<rparr>)))))))))"

fun parse_target_list :: "(string \<times> json) list \<Rightarrow> (string \<times> path) list parsed" where
  "parse_target_list [] = parsed []"
| "parse_target_list (t # ts) =
     and_then (parse_target t) (\<lambda>p. and_then (parse_target_list ts) (\<lambda>ps. parsed (p # ps)))"

definition parse_targets_signed :: "json \<Rightarrow> targets parsed" where
  "parse_targets_signed targets_signed =
     and_then (validate_field targets_signed ''version'' kNumberType
         version_signed_targets_field_missing version_signed_targets_field_invalid) (\<lambda>version.
     and_then (validate_field targets_signed ''targets'' kObjectType
         targets_signed_targets_field_missing targets_signed_targets_field_invalid) (\<lambda>targets.
     and_then (parse_target_list (json_members targets)) (\<lambda>paths.
     and_then (validate_field targets_signed ''_type'' kStringType
         type_signed_targets_field_missing type_signed_targets_field_invalid) (\<lambda>ty.
     with_value (get_string ty) (\<lambda>type_str.
     if type_str \<noteq> ''targets'' then throw_parser type_signed_targets_field_invalid_type
     else
     and_then (validate_field targets_signed ''custom'' kObjectType
         custom_signed_targets_field_missing custom_signed_targets_field_invalid) (\<lambda>custom.
     and_then (validate_field custom ''opaque_backend_state'' kStringType
         obs_custom_signed_targets_field_missing obs_custom_signed_targets_field_invalid) (\<lambda>obs.
     with_value (get_int version) (\<lambda>v.
     with_value (get_string obs) (\<lambda>state.
     parsed \<lparr>targets_version = v, opaque_backend_state = state,
       targets_paths = foldl (\<lambda>m (k, p). map_emplace k p m) Map.empty paths\<rparr>)))))))))"

definition parse_targets ::
  "(string \<Rightarrow> json option) \<Rightarrow> (string \<Rightarrow> string option) \<Rightarrow> json \<Rightarrow> targets parsed" where
  "parse_targets parse_doc base64_decode targets_itr =
     with_value (get_string targets_itr) (\<lambda>targets_encoded_content.
       if targets_encoded_content = [] then throw_parser targets_field_empty
       else case base64_decode targets_encoded_content of
         None \<Rightarrow> throw_parser targets_field_invalid_base64
       | Some base64_decoded \<Rightarrow>
           (case parse_doc base64_decoded of
              None \<Rightarrow> throw_parser targets_field_invalid_json
            | Some serialized_doc \<Rightarrow>
                and_then (validate_field serialized_doc ''signed'' kObjectType
                    signed_targets_field_missing signed_targets_field_invalid)
                  parse_targets_signed))"

definition parse_optional :: "json option \<Rightarrow> 'a \<Rightarrow> (json \<Rightarrow> 'a parsed) \<Rightarrow> 'a parsed" where
  "parse_optional field absent f = (case field of None \<Rightarrow> parsed absent | Some v \<Rightarrow> f v)"

definition parse_response ::
  "(string \<Rightarrow> json option) \<Rightarrow> (string \<Rightarrow> string option) \<Rightarrow> string \<Rightarrow> get_configs_response parsed" where
  "parse_response parse_doc base64_decode body =
     (case parse_doc body of
        None \<Rightarrow> throw_parser invalid_json
      | Some (JObject ms) \<Rightarrow>
          and_then (validate_optional_field (JObject ms) ''target_files'' kArrayType
              allow_missing target_files_field_invalid_type) (\<lambda>tf_field.
          and_then (validate_optional_field (JObject ms) ''client_configs'' kArrayType
              allow_missing client_config_field_invalid_type) (\<lambda>cc_field.
          and_then (validate_optional_field (JObject ms) ''targets'' kStringType
              allow_missing targets_field_invalid_type) (\<lambda>targets_field.
          and_then (parse_optional tf_field Map.empty parse_target_files) (\<lambda>tfs.
          and_then (parse_optional cc_field [] parse_client_configs) (\<lambda>ccs.
          and_then (parse_optional targets_field None
              (\<lambda>v. and_then (parse_targets parse_doc base64_decode v) (\<lambda>t. parsed (Some t)))) (\<lambda>tgs.
          parsed \<lparr>target_files = tfs, client_configs = ccs, response_targets = tgs\<rparr>))))))
      | Some _ \<Rightarrow> throw_parser invalid_response)"

definition parse_info :: "(string \<Rightarrow> json option) \<Rightarrow> string \<Rightarrow> string list parsed" where
  "parse_info parse_doc body =
     (case parse_doc body of
        None \<Rightarrow> throw_parser invalid_json
      | Some (JObject ms) \<Rightarrow>
          and_then (validate_field (JObject ms) ''endpoints'' kArrayType
              endpoints_field_missing endpoints_field_invalid) (\<lambda>endpoints.
            parse_strings invalid_endpoint (json_elements endpoints))
      | Some _ \<Rightarrow> throw_parser invalid_response)"

section \<open>Laws of the parser\<close>

lemma and_then_simps [simp]:
  "and_then (parsed a) f = f a"
  "and_then (throw_parser e) f = throw_parser e"
  "and_then Undefined f = Undefined"
  by (simp_all add: and_then_def parsed_def throw_parser_def)

lemma with_value_simps [simp]:
  "with_value (Defined a) f = f a"
  "with_value Undefined f = Undefined"
  by (simp_all add: with_value_def)

lemma parsed_defined [simp]: "parsed a \<noteq> Undefined" "throw_parser e \<noteq> Undefined"
  by (simp_all add: parsed_def throw_parser_def)

lemma parsed_inject [simp]: "parsed a = parsed b \<longleftrightarrow> a = b" "parsed a \<noteq> throw_parser e" "throw_parser e \<noteq> parsed a"
  by (simp_all add: parsed_def throw_parser_def)

lemma parsed_cases:
  obtains (Value) a where "m = parsed a" | (Thrown) e where "m = throw_parser e" | (Undef) "m = Undefined"
proof (cases m)
  case (Defined r)
  then show thesis using Value Thrown by (cases r) (simp_all add: parsed_def throw_parser_def)
qed (rule Undef)

lemma and_then_Undefined:
  "and_then m f = Undefined \<longleftrightarrow> m = Undefined \<or> (\<exists>a. m = parsed a \<and> f a = Undefined)"
  by (cases m rule: parsed_cases) auto

lemma and_then_defined:
  "m \<noteq> Undefined \<Longrightarrow> (\<And>a. m = parsed a \<Longrightarrow> f a \<noteq> Undefined) \<Longrightarrow> and_then m f \<noteq> Undefined"
  by (auto simp: and_then_Undefined)

lemma with_value_defined: "x \<noteq> Undefined \<Longrightarrow> (\<And>a. f a \<noteq> Undefined) \<Longrightarrow> with_value x f \<noteq> Undefined"
  by (cases x) auto

lemma if_defined: "(b \<Longrightarrow> m \<noteq> Undefined) \<Longrightarrow> (\<not> b \<Longrightarrow> n \<noteq> Undefined) \<Longrightarrow> (if b then m else n) \<noteq> Undefined"
  by simp

lemmas defined_intros = and_then_defined with_value_defined if_defined

lemma validate_field_object:
  "validate_field (JObject ms) key ty missing invalid =
     (case map_of ms key of None \<Rightarrow> throw_parser missing
      | Some v \<Rightarrow> if ty = json_get_type v then parsed v else throw_parser invalid)"
  by (simp add: validate_field_def)

lemma validate_field_parsed: "validate_field p key ty missing invalid = parsed v \<Longrightarrow> json_get_type v = ty"
  by (cases p) (auto simp: validate_field_def parsed_def throw_parser_def split: option.splits if_splits)

lemma validate_field_Undefined: "validate_field p key ty missing invalid = Undefined \<longleftrightarrow> (\<forall>ms. p \<noteq> JObject ms)"
  by (cases p) (auto simp: validate_field_def split: option.splits)

lemma validate_optional_field_defined: "validate_optional_field (JObject ms) key ty missing invalid \<noteq> Undefined"
  by (auto simp: validate_optional_field_def split: option.splits)

lemma validate_optional_field_type:
  "validate_optional_field (JObject ms) key ty missing invalid = parsed (Some v) \<Longrightarrow> json_get_type v = ty"
  by (auto simp: validate_optional_field_def parsed_def throw_parser_def split: option.splits if_splits)

lemma object_type: "json_get_type v = kObjectType \<longleftrightarrow> (\<exists>ms. v = JObject ms)"
  by (cases v) auto

lemma string_type: "json_get_type v = kStringType \<longleftrightarrow> (\<exists>s. v = JString s)"
  by (cases v) auto

lemma parse_target_file_defined: "parse_target_file v \<noteq> Undefined"
  by (cases v) (auto split: option.splits json.splits)

lemma parse_target_files_loop_defined: "parse_target_files_loop m vs \<noteq> Undefined"
  by (induction vs arbitrary: m) (auto simp: and_then_Undefined parse_target_file_defined)

lemma parse_strings_defined: "parse_strings e vs \<noteq> Undefined"
  by (induction vs) (auto simp: and_then_Undefined split: json.splits)

lemma parse_hashes_defined: "parse_hashes m ms \<noteq> Undefined"
  by (induction m ms rule: parse_hashes.induct) (auto split: json.splits)

text \<open>
  What the parser takes for granted of the decoded targets: they are an object, the targets inside are
  objects, and the three kinds of numbers are integers that fit an \<open>int\<close>.
\<close>

definition int_number :: "json option \<Rightarrow> bool" where
  "int_number v = (case v of Some n \<Rightarrow> json_get_type n = kNumberType \<longrightarrow> get_int n \<noteq> Undefined | None \<Rightarrow> True)"

fun readable_target :: "json \<Rightarrow> bool" where
  "readable_target (JObject ms) =
     (int_number (map_of ms ''length'') \<and>
      (case map_of ms ''custom'' of Some (JObject cs) \<Rightarrow> int_number (map_of cs ''v'') | _ \<Rightarrow> True))"
| "readable_target _ = False"

fun readable_signed :: "json \<Rightarrow> bool" where
  "readable_signed (JObject ms) =
     (int_number (map_of ms ''version'') \<and>
      (case map_of ms ''targets'' of
         Some (JObject ts) \<Rightarrow> list_all (\<lambda>(k, v). readable_target v) ts | _ \<Rightarrow> True))"
| "readable_signed _ = True"

fun readable_targets :: "json \<Rightarrow> bool" where
  "readable_targets (JObject ms) = (case map_of ms ''signed'' of Some v \<Rightarrow> readable_signed v | None \<Rightarrow> True)"
| "readable_targets _ = False"

lemma validate_field_parsedD:
  "validate_field (JObject ms) key ty missing invalid = parsed v \<Longrightarrow> map_of ms key = Some v \<and> json_get_type v = ty"
  by (auto simp: validate_field_object split: option.splits if_splits)

lemma validate_field_defined: "validate_field (JObject ms) key ty missing invalid \<noteq> Undefined"
  by (simp add: validate_field_Undefined)

lemma int_numberD:
  "int_number (map_of ms key) \<Longrightarrow> validate_field (JObject ms) key kNumberType missing invalid = parsed v \<Longrightarrow>
   get_int v \<noteq> Undefined"
  by (drule validate_field_parsedD) (simp add: int_number_def)

lemma parse_target_defined:
  assumes "readable_target v"
  shows "parse_target (name, v) \<noteq> Undefined"
proof -
  from assms obtain ms where v: "v = JObject ms" "int_number (map_of ms ''length'')" by (cases v) auto
  have custom: "\<exists>cs. c = JObject cs \<and> int_number (map_of cs ''v'')"
    if "validate_field v ''custom'' kObjectType e e' = parsed c" for c e e'
    using that assms v by (auto dest!: validate_field_parsedD simp: object_type)
  have v_field: "validate_field c ''v'' kNumberType d d' \<noteq> Undefined"
    if "validate_field v ''custom'' kObjectType e e' = parsed c" for c d d' e e'
    using custom [OF that] by (auto simp: validate_field_Undefined)
  have v_int: "get_int n \<noteq> Undefined"
    if "validate_field v ''custom'' kObjectType e e' = parsed c"
      "validate_field c ''v'' kNumberType d d' = parsed n" for c n d d' e e'
    using custom [OF that(1)] that(2) by (auto dest: int_numberD)
  have length_int: "get_int n \<noteq> Undefined"
    if "validate_field v ''length'' kNumberType d d' = parsed n" for n d d'
    using that v by (auto dest: int_numberD)
  have object: "validate_field v key ty d d' \<noteq> Undefined" for key ty d d'
    by (simp add: v(1) validate_field_defined)
  show ?thesis unfolding parse_target_def prod.case
    by (intro defined_intros parsed_defined parse_hashes_defined object)
      ((erule v_field) | (erule v_int, assumption) | (erule length_int))+
qed

lemma parse_target_list_defined: "list_all (\<lambda>(k, v). readable_target v) ts \<Longrightarrow> parse_target_list ts \<noteq> Undefined"
proof (induction ts)
  case (Cons t ts)
  then obtain name v where t: "t = (name, v)" "readable_target v" by (cases t) auto
  have "parse_target t \<noteq> Undefined" unfolding t(1) by (rule parse_target_defined [OF t(2)])
  with Cons show ?case by (simp add: and_then_Undefined)
qed simp

lemma parse_targets_signed_defined:
  assumes "readable_signed (JObject ms)"
  shows "parse_targets_signed (JObject ms) \<noteq> Undefined"
proof -
  have version: "get_int v \<noteq> Undefined"
    if "validate_field (JObject ms) ''version'' kNumberType e e' = parsed v" for v e e'
    using assms that by (intro int_numberD) auto
  have targets: "parse_target_list (json_members t) \<noteq> Undefined"
    if t: "validate_field (JObject ms) ''targets'' kObjectType e e' = parsed t" for t e e'
  proof -
    obtain ts where "t = JObject ts" "list_all (\<lambda>(k, v). readable_target v) ts"
      using t assms by (auto dest!: validate_field_parsedD simp: object_type)
    then show ?thesis by (simp add: parse_target_list_defined)
  qed
  have str: "get_string v \<noteq> Undefined"
    if "validate_field p key kStringType e e' = parsed v" for p key v e e'
    using validate_field_parsed [OF that] by (auto simp: string_type)
  have custom: "validate_field c ''opaque_backend_state'' kStringType e e' \<noteq> Undefined"
    if "validate_field (JObject ms) ''custom'' kObjectType d d' = parsed c" for c d d' e e'
    using validate_field_parsed [OF that] by (auto simp: object_type validate_field_Undefined)
  show ?thesis unfolding parse_targets_signed_def
    by (intro defined_intros parsed_defined validate_field_defined) ((erule version) | (erule targets) | (erule str) | (erule custom))+
qed

lemma parse_targets_defined:
  assumes "\<And>dec doc. base64_decode (c_str enc) = Some dec \<Longrightarrow> parse_doc dec = Some doc \<Longrightarrow> readable_targets doc"
  shows "parse_targets parse_doc base64_decode (JString enc) \<noteq> Undefined"
proof (cases "base64_decode (c_str enc)")
  case (Some dec)
  show ?thesis
  proof (cases "parse_doc dec")
    case (Some doc)
    have "readable_targets doc" using assms \<open>base64_decode (c_str enc) = Some dec\<close> Some .
    then obtain ms where doc: "doc = JObject ms" "readable_targets (JObject ms)" by (cases doc) auto
    have "parse_targets_signed v \<noteq> Undefined"
      if "validate_field (JObject ms) ''signed'' kObjectType e e' = parsed v" for v e e'
      using that doc(2) by (auto dest!: validate_field_parsedD parse_targets_signed_defined simp: object_type
        simp del: readable_signed.simps)
    then show ?thesis using Some \<open>base64_decode (c_str enc) = Some dec\<close>
      by (auto simp: parse_targets_def doc(1) validate_field_defined and_then_Undefined)
  qed (use Some in \<open>simp add: parse_targets_def\<close>)
qed (simp add: parse_targets_def)

lemma parse_optional_defined: "(\<And>v. x = Some v \<Longrightarrow> f v \<noteq> Undefined) \<Longrightarrow> parse_optional x d f \<noteq> Undefined"
  by (cases x) (simp_all add: parse_optional_def)


text \<open>
  Targets that are not an object once decoded make the parser ask for a member of a value that
  is not an object, and so does a target that is not an object.
\<close>

theorem parser_assumes_objects:
  assumes "parse_doc body = Some (JObject [(''targets'', JString enc)])" "c_str enc = enc" "enc \<noteq> []"
    and "base64_decode enc = Some dec"
    and "parse_doc dec = Some (JArray []) \<or>
      parse_doc dec = Some (JObject [(''signed'', JObject [(''version'', JInt 1), (''targets'', JObject [(name, JTrue)])])])"
  shows "parse_response parse_doc base64_decode body = Undefined"
  using assms
  by (auto simp: parse_response_def parse_targets_def validate_optional_field_def validate_field_def
    parse_optional_def parse_targets_signed_def parse_target_def)

section \<open>Reading what the agent writes\<close>

text \<open>
  The document of a response, with its maps as lists of entries.
\<close>

definition path_json :: "int \<Rightarrow> (string \<times> string) list \<Rightarrow> int \<Rightarrow> json" where
  "path_json v hashes len =
     JObject [(''custom'', JObject [(''v'', JInt v)]),
       (''hashes'', JObject (map (\<lambda>(k, h). (k, JString h)) hashes)), (''length'', JInt len)]"

definition targets_json :: "int \<Rightarrow> string \<Rightarrow> (string \<times> int \<times> (string \<times> string) list \<times> int) list \<Rightarrow> json" where
  "targets_json version state paths =
     JObject [(''signed'', JObject [(''_type'', JString ''targets''),
       (''custom'', JObject [(''opaque_backend_state'', JString state)]),
       (''targets'', JObject (map (\<lambda>(k, v, hashes, len). (k, path_json v hashes len)) paths)),
       (''version'', JInt version)])]"

definition response_json :: "(string \<times> string) list \<Rightarrow> string list \<Rightarrow> string \<Rightarrow> json" where
  "response_json files configs encoded =
     JObject [(''targets'', JString encoded),
       (''target_files'', JArray (map (\<lambda>(p, raw). JObject [(''path'', JString p), (''raw'', JString raw)]) files)),
       (''client_configs'', JArray (map JString configs))]"

text \<open>Text without NUL, numbers that fit, and hashes that are present.\<close>

definition plain :: "string \<Rightarrow> bool" where
  "plain s \<longleftrightarrow> nul \<notin> set s"

definition fits_int :: "int \<Rightarrow> bool" where
  "fits_int i \<longleftrightarrow> - (2 ^ 31) \<le> i \<and> i < 2 ^ 31"

definition sound_path :: "string \<times> int \<times> (string \<times> string) list \<times> int \<Rightarrow> bool" where
  "sound_path = (\<lambda>(k, v, hashes, len). plain k \<and> fits_int v \<and> fits_int len \<and> hashes \<noteq> [] \<and>
     list_all (\<lambda>(a, h). plain a \<and> plain h) hashes)"

definition path_of :: "string \<times> int \<times> (string \<times> string) list \<times> int \<Rightarrow> string \<times> path" where
  "path_of = (\<lambda>(k, v, hashes, len). (k, \<lparr>custom_v = v, path_hashes = map_of hashes, path_length = len\<rparr>))"

lemma c_str_plain [simp]: "plain s \<Longrightarrow> c_str s = s"
  by (simp add: plain_def)

lemma get_int_fits [simp]: "fits_int i \<Longrightarrow> get_int (JInt i) = Defined i"
  by (simp add: fits_int_def)

lemma foldl_emplace: "foldl (\<lambda>m (k, v). map_emplace k v m) m0 kvs = map_of kvs ++ m0"
proof (induction kvs arbitrary: m0)
  case (Cons kv kvs)
  obtain k v where kv: "kv = (k, v)" by fastforce
  have "map_of kvs ++ map_emplace k v m0 = ((map_of kvs)(k \<mapsto> v)) ++ m0"
    by (rule ext) (auto simp: map_emplace_def map_add_def split: option.splits)
  with Cons kv show ?case by (simp add: fun_upd_def)
qed simp

lemma parse_hashes_rendered:
  "list_all (\<lambda>(a, h). plain a \<and> plain h) hs \<Longrightarrow>
   parse_hashes m (map (\<lambda>(k, h). (k, JString h)) hs) = parsed (foldl (\<lambda>m (k, v). map_emplace k v m) m hs)"
  by (induction hs arbitrary: m) auto

lemma parse_target_rendered:
  "sound_path (k, v, hashes, len) \<Longrightarrow> parse_target (k, path_json v hashes len) = parsed (path_of (k, v, hashes, len))"
  by (simp add: sound_path_def path_of_def parse_target_def path_json_def validate_field_def parse_hashes_rendered
    foldl_emplace del: get_int.simps(1))

lemma parse_target_list_rendered:
  "list_all sound_path paths \<Longrightarrow>
   parse_target_list (map (\<lambda>(k, v, hashes, len). (k, path_json v hashes len)) paths) = parsed (map path_of paths)"
  by (induction paths) (auto simp: parse_target_rendered)

lemma parse_files_rendered:
  "list_all (\<lambda>(p, raw). plain p \<and> plain raw) files \<Longrightarrow>
   parse_target_files_loop m (map (\<lambda>(p, raw). JObject [(''path'', JString p), (''raw'', JString raw)]) files) =
     parsed (foldl (\<lambda>m (k, v). map_emplace k v m) m (map (\<lambda>(p, raw). (p, \<lparr>tf_path = p, tf_raw = raw\<rparr>)) files))"
  by (induction files arbitrary: m) auto

lemma parse_strings_rendered: "list_all plain ss \<Longrightarrow> parse_strings e (map JString ss) = parsed ss"
  by (induction ss) auto

lemma parse_targets_rendered:
  assumes "base64_decode enc = Some dec" "parse_doc dec = Some (targets_json version state paths)"
    and "plain enc" "enc \<noteq> []" "fits_int version" "plain state" "list_all sound_path paths"
  shows "parse_targets parse_doc base64_decode (JString enc) =
    parsed \<lparr>targets_version = version, opaque_backend_state = state, targets_paths = map_of (map path_of paths)\<rparr>"
  using assms
  by (simp add: parse_targets_def targets_json_def validate_field_def parse_targets_signed_def
    parse_target_list_rendered foldl_emplace del: get_int.simps(1))

text \<open>
  Property C25: an answer that the agent writes is read back as it was meant: the files by their path, the
  first one of a path that repeats, the list of configurations in order, and the targets with their
  version, the state of the backend and the paths with their hashes. The hypotheses are that strings
  have no NUL, numbers fit an \<open>int\<close> and every path has a hash.
\<close>

theorem parse_roundtrip:
  assumes "parse_doc body = Some (response_json files configs enc)"
    and "list_all (\<lambda>(p, raw). plain p \<and> plain raw) files" "list_all plain configs"
    and "base64_decode enc = Some dec" "parse_doc dec = Some (targets_json version state paths)"
    and "plain enc" "enc \<noteq> []" "fits_int version" "plain state" "list_all sound_path paths"
  shows "parse_response parse_doc base64_decode body =
    parsed \<lparr>target_files = map_of (map (\<lambda>(p, raw). (p, \<lparr>tf_path = p, tf_raw = raw\<rparr>)) files),
      client_configs = configs,
      response_targets = Some \<lparr>targets_version = version, opaque_backend_state = state,
        targets_paths = map_of (map path_of paths)\<rparr>\<rparr>"
proof -
  have "parse_targets parse_doc base64_decode (JString enc) = parsed \<lparr>targets_version = version,
      opaque_backend_state = state, targets_paths = map_of (map path_of paths)\<rparr>"
    by (rule parse_targets_rendered) (fact assms)+
  with assms(1) show ?thesis
    by (simp add: parse_response_def response_json_def validate_optional_field_def parse_optional_def
      parse_target_files_def parse_client_configs_def parse_files_rendered [OF assms(2)]
      parse_strings_rendered [OF assms(3)] foldl_emplace)
qed

lemma parse_roundtrip_witness:
  "let doc = (\<lambda>t. if t = ''body'' then Some (response_json [(''f'', ''raw'')] [''c''] ''enc'')
        else Some (targets_json 3 ''st'' [(''f'', 1, [(''sha256'', ''00'')], 4)]))
   in case parse_response doc Some ''body'' of
        Defined (Inr r) \<Rightarrow> client_configs r = [''c''] \<and> map_option tf_raw (target_files r ''f'') = Some ''raw'' \<and>
          map_option targets_version (response_targets r) = Some 3
      | _ \<Rightarrow> False"
  unfolding Let_def
  by (subst parse_roundtrip [where files = "[(''f'', ''raw'')]" and configs = "[''c'']" and enc = "''enc''"
        and dec = "''enc''" and version = 3 and state = "''st''" and paths = "[(''f'', 1, [(''sha256'', ''00'')], 4)]"])
    (simp_all add: plain_def fits_int_def sound_path_def parsed_def)


lemma parser_assumes_objects_witness:
  "parse_response (\<lambda>t. if t = ''body'' then Some (JObject [(''targets'', JString ''W10'')]) else Some (JArray []))
     (\<lambda>_. Some ''[]'') ''body'' = Undefined"
  by (rule parser_assumes_objects [where enc = "''W10''" and dec = "''[]''"]) (simp_all add: c_str_def)

end
