(* ===== verification/Helper_Limits.thy ===== *)
theory Helper_Limits
  imports Prelude Complex_Main "HOL-Library.Multiset" "HOL-Library.Char_ord" "HOL-Library.List_Lexorder"
begin

text \<open>
  The small stateful parts of the helper: the limiter of kept traces (src/helper/rate\_limit.cpp), the
  sampler of schemas (sampler.hpp), and the pool of runtime identifiers (runtime\_id\_pool.hpp). Each is
  protected by a mutex for the whole of each operation, so that an execution is a sequence of operations.
\<close>

section \<open>The rate limiter\<close>

record rate_limiter =
  rl_index :: u32
  rl_counter :: u32
  rl_precounter :: u32
  rl_max_per_second :: u32

definition new_rate_limiter :: "u32 \<Rightarrow> rate_limiter" where
  "new_rate_limiter max_per_second =
     \<lparr>rl_index = 0, rl_counter = 0, rl_precounter = 0, rl_max_per_second = max_per_second\<rparr>"

text \<open>Milliseconds and seconds since the epoch, of a clock that counts nanoseconds.\<close>

definition get_time :: "nat \<Rightarrow> int \<times> int" where
  "get_time now = (int (now div 10 ^ 6), int (now div 10 ^ 9))"

text \<open>
  \<open>allow\<close>: the product is computed in 64 bits, the sum is then stored in a \<open>uint32_t\<close>.
\<close>

definition rl_roll :: "int \<Rightarrow> rate_limiter \<Rightarrow> rate_limiter" where
  "rl_roll now_s rl =
     (if now_s \<noteq> uint (rl_index rl)
      then rl\<lparr>rl_precounter := (if uint (rl_index rl) = now_s - 1 then rl_counter rl else 0),
              rl_counter := 0, rl_index := word_of_int now_s\<rparr>
      else rl)"

definition rl_count :: "int \<Rightarrow> rate_limiter \<Rightarrow> u32" where
  "rl_count now_ms rl =
     ucast (((ucast (rl_precounter rl) :: u64) * (1000 - word_of_int (now_ms mod 1000))) div 1000
            + ucast (rl_counter rl) :: u64)"

definition rl_allow :: "nat \<Rightarrow> rate_limiter \<Rightarrow> bool \<times> rate_limiter" where
  "rl_allow now rl =
     (if rl_max_per_second rl = 0 then (True, rl)
      else let (now_ms, now_s) = get_time now; rl = rl_roll now_s rl in
        if rl_count now_ms rl \<ge> rl_max_per_second rl then (False, rl)
        else (True, rl\<lparr>rl_counter := rl_counter rl + 1\<rparr>))"

text \<open>The answers to calls made at the given times.\<close>

fun rl_run :: "rate_limiter \<Rightarrow> nat list \<Rightarrow> bool list" where
  "rl_run rl [] = []"
| "rl_run rl (t # ts) = (let (ok, rl) = rl_allow t rl in ok # rl_run rl ts)"

text \<open>
  The specification keeps the times at which calls were allowed. A call is allowed when those of the
  current second and a share of those of the second before, which shrinks as the current second
  passes, are less than the maximum.
\<close>

definition sec_of :: "nat \<Rightarrow> nat" where
  "sec_of t = t div 10 ^ 9"

definition allowed_in :: "nat list \<Rightarrow> nat \<Rightarrow> nat" where
  "allowed_in hist s = length (filter (\<lambda>t. sec_of t = s) hist)"

definition allowed_before :: "nat list \<Rightarrow> nat \<Rightarrow> nat" where
  "allowed_before hist s = (if s = 0 then 0 else allowed_in hist (s - 1))"

definition spec_allow :: "nat \<Rightarrow> nat list \<Rightarrow> nat \<Rightarrow> bool" where
  "spec_allow mx hist t \<longleftrightarrow>
     mx = 0 \<or> allowed_before hist (sec_of t) * (1000 - t div 10 ^ 6 mod 1000) div 1000
              + allowed_in hist (sec_of t) < mx"

fun spec_run :: "nat \<Rightarrow> nat list \<Rightarrow> nat list \<Rightarrow> bool list" where
  "spec_run mx hist [] = []"
| "spec_run mx hist (t # ts) =
     (let ok = spec_allow mx hist t in ok # spec_run mx (if ok then t # hist else hist) ts)"

fun allowed_times :: "nat list \<Rightarrow> bool list \<Rightarrow> nat list" where
  "allowed_times (t # ts) (ok # oks) = (if ok then [t] else []) @ allowed_times ts oks"
| "allowed_times _ _ = []"

lemma allowed_in_Cons [simp]:
  "allowed_in (t # hist) s = (if sec_of t = s then Suc (allowed_in hist s) else allowed_in hist s)"
  by (simp add: allowed_in_def)

lemma allowed_in_future: "\<forall>t \<in> set hist. sec_of t \<le> s \<Longrightarrow> s < s' \<Longrightarrow> allowed_in hist s' = 0"
  by (auto simp: allowed_in_def filter_empty_conv)

text \<open>The limiter represents a history up to a time.\<close>

definition rl_rep :: "nat \<Rightarrow> nat list \<Rightarrow> rate_limiter \<Rightarrow> bool" where
  "rl_rep s hist rl \<longleftrightarrow>
     unat (rl_index rl) = s \<and> (\<forall>t \<in> set hist. sec_of t \<le> s) \<and>
     unat (rl_counter rl) = allowed_in hist s \<and> unat (rl_precounter rl) = allowed_before hist s"

lemma rl_roll_rep:
  assumes "rl_rep s hist rl" "s \<le> s'" "s' < 2 ^ 32"
  shows "rl_rep s' hist (rl_roll (int s') rl)"
proof -
  have u: "uint (rl_index rl) = int s" and old: "\<forall>t \<in> set hist. sec_of t \<le> s"
    and c: "unat (rl_counter rl) = allowed_in hist s" using assms(1) by (simp_all add: rl_rep_def uint_nat)
  have w: "unat (word_of_nat s' :: u32) = s'" using assms(3) by (simp add: unsigned_of_nat take_bit_nat_eq_self)
  have now: "allowed_in hist s' = 0" if "s < s'" using old that by (rule allowed_in_future)
  consider "s' = s" | "s' = s + 1" | "s + 1 < s'" using assms(2) by linarith
  then show ?thesis
  proof cases
    case 1
    with assms(1) u show ?thesis by (simp add: rl_roll_def)
  next
    case 2
    with now c w u old show ?thesis by (auto simp: rl_rep_def rl_roll_def allowed_before_def)
  next
    case 3
    then have "allowed_in hist (s' - 1) = 0" by (intro allowed_in_future [OF old]) simp
    moreover have "int s' \<noteq> int s" "int s \<noteq> int s' - 1" using 3 by simp_all
    ultimately show ?thesis
      using now 3 w u old by (auto simp: rl_rep_def rl_roll_def allowed_before_def)
  qed
qed

lemma share_le: "r < 1000 \<Longrightarrow> p * (1000 - r) div 1000 \<le> (p :: nat)"
proof -
  have "p * (1000 - r) div 1000 \<le> p * 1000 div 1000" by (intro div_le_mono mult_le_mono2) simp
  then show ?thesis by simp
qed

lemma unat_of_nat_u64: "n < 2 ^ 64 \<Longrightarrow> unat (of_nat n :: u64) = n"
  by (simp add: unsigned_of_nat take_bit_nat_eq_self)

lemma rl_count_unat:
  assumes "unat (rl_precounter rl) \<le> 2 ^ 31" "unat (rl_counter rl) < 2 ^ 31"
  shows "unat (rl_count (int m) rl) =
    unat (rl_precounter rl) * (1000 - m mod 1000) div 1000 + unat (rl_counter rl)"
proof -
  define p c r where pcr: "p = unat (rl_precounter rl)" "c = unat (rl_counter rl)" "r = m mod 1000"
  have r: "r < 1000" by (simp add: pcr)
  have "int m mod 1000 = int r" by (simp add: pcr zmod_int)
  then have "word_of_int (int m mod 1000) = (of_nat r :: u64)" by simp
  moreover have "(ucast (rl_precounter rl) :: u64) = of_nat p" "(ucast (rl_counter rl) :: u64) = of_nat c"
    by (simp_all add: pcr)
  moreover have "1000 - (of_nat r :: u64) = of_nat (1000 - r)" using r by (simp add: of_nat_diff)
  ultimately have e: "rl_count (int m) rl =
      ucast ((of_nat (p * (1000 - r)) :: u64) div 1000 + of_nat c)"
    by (simp add: rl_count_def)
  have p: "p * (1000 - r) < 2 ^ 64"
  proof -
    have "p * (1000 - r) \<le> 2 ^ 31 * 1000" using assms r by (intro mult_le_mono) (auto simp: pcr)
    then show ?thesis by simp
  qed
  have d: "(of_nat (p * (1000 - r)) :: u64) div 1000 = of_nat (p * (1000 - r) div 1000)"
    using p unat_of_nat_u64 [OF p] by (simp add: word_arith_nat_div)
  have s: "p * (1000 - r) div 1000 + c < 2 ^ 32"
    using share_le [OF r, of p] assms by (simp add: pcr)
  then have s64: "p * (1000 - r) div 1000 + c < 2 ^ 64" by simp
  have "unat (rl_count (int m) rl) = take_bit 32 (unat (of_nat (p * (1000 - r) div 1000 + c) :: u64))"
    unfolding e d of_nat_add by (simp add: unsigned_ucast_eq)
  also have "\<dots> = p * (1000 - r) div 1000 + c"
    unfolding unat_of_nat_u64 [OF s64] using s by (rule take_bit_nat_eq_self)
  finally have "unat (rl_count (int m) rl) = p * (1000 - r) div 1000 + c" .
  then show ?thesis by (simp add: pcr)
qed

text \<open>One call decides as the specification and represents the extended history.\<close>

lemma rl_allow_rep:
  assumes rep: "rl_rep s hist rl" and s: "s \<le> sec_of t" "sec_of t < 2 ^ 32"
    and mx: "rl_max_per_second rl \<noteq> 0" "unat (rl_max_per_second rl) < 2 ^ 31"
    and le: "\<And>k. allowed_in hist k \<le> unat (rl_max_per_second rl)"
  shows "\<exists>rl'. rl_allow t rl = (spec_allow (unat (rl_max_per_second rl)) hist t, rl') \<and>
    rl_rep (sec_of t) (if spec_allow (unat (rl_max_per_second rl)) hist t then t # hist else hist) rl' \<and>
    rl_max_per_second rl' = rl_max_per_second rl"
proof -
  define rl1 where "rl1 = rl_roll (int (sec_of t)) rl"
  define m where "m = t div 10 ^ 6"
  have rep1: "rl_rep (sec_of t) hist rl1" unfolding rl1_def by (rule rl_roll_rep [OF rep s])
  have max1: "rl_max_per_second rl1 = rl_max_per_second rl" by (simp add: rl1_def rl_roll_def)
  have t: "get_time t = (int m, int (sec_of t))" by (simp add: get_time_def sec_of_def m_def)
  have c: "unat (rl_counter rl1) = allowed_in hist (sec_of t)"
    and p: "unat (rl_precounter rl1) = allowed_before hist (sec_of t)" using rep1 by (simp_all add: rl_rep_def)
  have p31: "unat (rl_precounter rl1) \<le> 2 ^ 31"
    using le [of "sec_of t - 1"] mx(2) by (simp add: p allowed_before_def)
  have mxpos: "unat (rl_max_per_second rl) \<noteq> 0" using mx(1) by (simp add: unat_eq_0)
  define q where "q = allowed_before hist (sec_of t) * (1000 - m mod 1000) div 1000"
  have spec: "spec_allow (unat (rl_max_per_second rl)) hist t \<longleftrightarrow>
      q + allowed_in hist (sec_of t) < unat (rl_max_per_second rl)"
    using mxpos by (simp add: spec_allow_def m_def q_def)
  have True: "unat (rl_counter rl1) < 2 ^ 31" using le [of "sec_of t"] mx(2) c by simp
    have "unat (rl_count (int m) rl1) = q + allowed_in hist (sec_of t)"
      using rl_count_unat [OF p31 True, of m] by (simp add: c p q_def)
    then have dec: "rl_count (int m) rl1 \<ge> rl_max_per_second rl \<longleftrightarrow>
        \<not> spec_allow (unat (rl_max_per_second rl)) hist t"
      by (simp add: spec word_le_nat_alt not_less)
    have "unat (rl_counter rl1 + 1) = Suc (unat (rl_counter rl1))"
      using True by (simp add: unat_word_ariths)
    with rep1 dec mx(1) show ?thesis
      by (auto simp: rl_allow_def t max1 Let_def rl_rep_def allowed_before_def simp flip: rl1_def)
qed

lemma rl_run_spec:
  assumes "rl_rep s hist rl" "sorted ts" "\<forall>t \<in> set ts. s \<le> sec_of t \<and> sec_of t < 2 ^ 32"
    and "rl_max_per_second rl \<noteq> 0" "unat (rl_max_per_second rl) < 2 ^ 31"
    and "\<And>k. allowed_in hist k \<le> unat (rl_max_per_second rl)"
  shows "rl_run rl ts = spec_run (unat (rl_max_per_second rl)) hist ts"
  using assms
proof (induction ts arbitrary: s hist rl)
  case (Cons t ts)
  let ?mx = "unat (rl_max_per_second rl)"
  define hist' where "hist' = (if spec_allow ?mx hist t then t # hist else hist)"
  obtain rl' where rl': "rl_allow t rl = (spec_allow ?mx hist t, rl')" "rl_rep (sec_of t) hist' rl'"
      "rl_max_per_second rl' = rl_max_per_second rl"
    using rl_allow_rep [of s hist rl t] Cons.prems unfolding hist'_def by auto
  have le: "allowed_in hist' k \<le> ?mx" for k
    using Cons.prems(4,6) by (auto simp: hist'_def spec_allow_def unat_eq_0 intro: Suc_leI)
  have later: "\<forall>u \<in> set ts. sec_of t \<le> sec_of u \<and> sec_of u < 2 ^ 32"
    using Cons.prems(2,3) by (simp add: sec_of_def div_le_mono)
  have "rl_run rl' ts = spec_run ?mx hist' ts"
    using Cons.IH [OF rl'(2) _ later] Cons.prems(2,4,5) le by (simp add: rl'(3))
  then show ?case by (simp add: rl'(1) hist'_def Let_def)
qed simp

lemma rl_run_unlimited: "rl_max_per_second rl = 0 \<Longrightarrow> rl_run rl ts = spec_run 0 hist ts"
  by (induction ts arbitrary: hist) (simp_all add: rl_allow_def spec_allow_def Let_def)

lemma spec_run_bound:
  "0 < mx \<Longrightarrow> (\<And>k. allowed_in hist k \<le> mx) \<Longrightarrow>
   allowed_in (allowed_times ts (spec_run mx hist ts)) k + allowed_in hist k \<le> mx"
proof (induction ts arbitrary: hist)
  case Nil
  then show ?case by (simp add: allowed_in_def)
next
  case (Cons t ts)
  show ?case
  proof (cases "spec_allow mx hist t")
    case True
    have "allowed_in (t # hist) k \<le> mx" for k
      using True Cons.prems by (auto simp: spec_allow_def Suc_le_eq intro: le_less_trans)
    then show ?thesis using True Cons.IH [of "t # hist"] Cons.prems(1) by (auto simp: Let_def split: if_splits)
  next
    case False
    then show ?thesis using Cons by (simp add: Let_def)
  qed
qed

text \<open>
  Property C23: for calls at non-decreasing times the limiter, which keeps two counters, decides exactly as
  the specification that looks at the times of all allowed calls, and with a maximum other than zero
  no second has more allowed calls than the maximum. The hypotheses are the ranges in which the 32-bit
  fields do not wrap: times before the year 2106 and a maximum below two to the 31.
\<close>

theorem rate_limiter_window:
  assumes "sorted ts" "\<forall>t \<in> set ts. sec_of t < 2 ^ 32" "unat mx < 2 ^ 31"
  shows "rl_run (new_rate_limiter mx) ts = spec_run (unat mx) [] ts \<and>
    (mx \<noteq> 0 \<longrightarrow> allowed_in (allowed_times ts (rl_run (new_rate_limiter mx) ts)) k \<le> unat mx)"
proof (cases "mx = 0")
  case True
  then show ?thesis using rl_run_unlimited [of "new_rate_limiter mx" ts "[]"] by (simp add: new_rate_limiter_def)
next
  case False
  have "rl_rep 0 [] (new_rate_limiter mx)"
    by (simp add: rl_rep_def new_rate_limiter_def allowed_in_def allowed_before_def)
  then have "rl_run (new_rate_limiter mx) ts = spec_run (unat (rl_max_per_second (new_rate_limiter mx))) [] ts"
    using assms False by (intro rl_run_spec [of 0]) (auto simp: new_rate_limiter_def allowed_in_def)
  then have "rl_run (new_rate_limiter mx) ts = spec_run (unat mx) [] ts" by (simp add: new_rate_limiter_def)
  with spec_run_bound [of "unat mx" "[]" ts k] False show ?thesis by (simp add: allowed_in_def unat_gt_0)
qed

lemma rate_limiter_window_witness:
  "rl_run (new_rate_limiter 2) [3 * 10 ^ 9, 3 * 10 ^ 9 + 1, 3 * 10 ^ 9 + 2, 4 * 10 ^ 9 + 6 * 10 ^ 8] =
     [True, True, False, True]"
proof -
  have "rl_run (new_rate_limiter 2) [3 * 10 ^ 9, 3 * 10 ^ 9 + 1, 3 * 10 ^ 9 + 2, 4 * 10 ^ 9 + 6 * 10 ^ 8] =
      spec_run (unat (2 :: u32)) [] [3 * 10 ^ 9, 3 * 10 ^ 9 + 1, 3 * 10 ^ 9 + 2, 4 * 10 ^ 9 + 6 * 10 ^ 8]"
    by (rule rate_limiter_window [THEN conjunct1]) (simp_all add: sec_of_def)
  also have "\<dots> = [True, True, False, True]"
    by (simp add: spec_allow_def allowed_in_def allowed_before_def sec_of_def Let_def)
  finally show ?thesis .
qed

section \<open>The sampler of schemas\<close>

text \<open>
  A \<open>double\<close> is the real number it denotes; the rounding of a product is the parameter \<open>rnd\<close>. A number
  below two to the 32 is a \<open>double\<close> as it is. The increment of \<open>request_\<close> inside the comparison is that
  of an \<open>unsigned\<close>.
\<close>

record sampler =
  sa_request :: u32
  sa_sample_rate :: real
  sa_concurrent :: bool

definition new_sampler :: "real \<Rightarrow> real \<Rightarrow> sampler" where
  "new_sampler min_rate sample_rate =
     \<lparr>sa_request = 1,
      sa_sample_rate = (if sample_rate \<le> 0 then 0 else if sample_rate > 1 then 1
        else if sample_rate < min_rate then min_rate else sample_rate),
      sa_concurrent = False\<rparr>"

definition sampler_get :: "(real \<Rightarrow> real) \<Rightarrow> sampler \<Rightarrow> bool \<times> sampler" where
  "sampler_get rnd s =
     (let hit = \<not> sa_concurrent s \<and>
            \<lfloor>rnd (real (unat (sa_request s)) * sa_sample_rate s)\<rfloor> \<noteq>
            \<lfloor>rnd (real (unat (sa_request s + 1)) * sa_sample_rate s)\<rfloor>
      in (hit, s\<lparr>sa_concurrent := sa_concurrent s \<or> hit,
                sa_request := (if sa_request s < -1 then sa_request s + 1 else 1)\<rparr>))"

text \<open>The destructor of the scope that \<open>get\<close> hands out.\<close>

definition scope_end :: "sampler \<Rightarrow> sampler" where
  "scope_end s = s\<lparr>sa_concurrent := False\<rparr>"

datatype sampler_op = Get | Scope_end

fun sampler_hits :: "(real \<Rightarrow> real) \<Rightarrow> sampler \<Rightarrow> sampler_op list \<Rightarrow> nat" where
  "sampler_hits rnd s [] = 0"
| "sampler_hits rnd s (Scope_end # ops) = sampler_hits rnd (scope_end s) ops"
| "sampler_hits rnd s (Get # ops) =
     (let (hit, s) = sampler_get rnd s in (if hit then 1 else 0) + sampler_hits rnd s ops)"

definition gets_in :: "sampler_op list \<Rightarrow> nat" where
  "gets_in ops = length (filter (\<lambda>op. op = Get) ops)"

text \<open>What the rounding of IEEE 754 guarantees: it is monotone and keeps the integers of this size.\<close>

definition rounding :: "(real \<Rightarrow> real) \<Rightarrow> bool" where
  "rounding rnd \<longleftrightarrow> mono rnd \<and> (\<forall>n :: int. \<bar>n\<bar> \<le> 2 ^ 53 \<longrightarrow> rnd (of_int n) = of_int n)"

lemma sampler_hits_floor:
  assumes "mono rnd" "0 \<le> sa_sample_rate s" "unat (sa_request s) + gets_in ops < 2 ^ 32"
  shows "int (sampler_hits rnd s ops) \<le>
    \<lfloor>rnd (real (unat (sa_request s) + gets_in ops) * sa_sample_rate s)\<rfloor> -
    \<lfloor>rnd (real (unat (sa_request s)) * sa_sample_rate s)\<rfloor>"
  using assms
proof (induction rnd s ops rule: sampler_hits.induct)
  case (1 rnd s)
  then show ?case by (simp add: gets_in_def)
next
  case (2 rnd s ops)
  then show ?case by (simp add: scope_end_def gets_in_def)
next
  case (3 rnd s ops)
  define u r where ur: "u = unat (sa_request s)" "r = sa_sample_rate s"
  obtain hit s' where g: "sampler_get rnd s = (hit, s')" by fastforce
  have small: "u + 1 < 2 ^ 32" using "3.prems"(3) by (simp add: gets_in_def ur)
  then have up: "unat (sa_request s + 1) = Suc u" by (simp add: ur unat_word_ariths)
  have "sa_request s < -1" using small by (simp add: word_less_nat_alt ur unsigned_minus_1_eq_mask mask_eq_exp_minus_1)
  with g have s': "unat (sa_request s') = Suc u" "sa_sample_rate s' = r"
    and hit: "hit \<Longrightarrow> \<lfloor>rnd (real u * r)\<rfloor> \<noteq> \<lfloor>rnd (real (Suc u) * r)\<rfloor>"
    using up by (auto simp: sampler_get_def Let_def ur)
  have "\<lfloor>rnd (real u * r)\<rfloor> \<le> \<lfloor>rnd (real (Suc u) * r)\<rfloor>"
    using "3.prems"(1,2) by (intro floor_mono monoD [of rnd] mult_right_mono) (auto simp: ur)
  with hit have "(if hit then 1 else 0) + \<lfloor>rnd (real u * r)\<rfloor> \<le> \<lfloor>rnd (real (Suc u) * r)\<rfloor>" by auto
  moreover have "int (sampler_hits rnd s' ops) \<le>
      \<lfloor>rnd (real (Suc u + gets_in ops) * r)\<rfloor> - \<lfloor>rnd (real (Suc u) * r)\<rfloor>"
    using "3.IH" [OF g [symmetric]] "3.prems" s' by (simp add: gets_in_def ur)
  ultimately show ?case by (auto simp: g gets_in_def simp flip: ur split: if_splits)
qed

lemma floor_rnd_le_ceiling:
  assumes "rounding rnd" "0 \<le> x" "x \<le> 2 ^ 53"
  shows "\<lfloor>rnd x\<rfloor> \<le> \<lceil>x\<rceil>" "0 \<le> \<lfloor>rnd x\<rfloor>"
proof -
  have m: "mono rnd" and i: "\<And>n :: int. \<bar>n\<bar> \<le> 2 ^ 53 \<Longrightarrow> rnd (of_int n) = of_int n"
    using assms(1) by (simp_all add: rounding_def)
  have "\<lceil>x\<rceil> \<le> 2 ^ 53" using assms(3) by (simp add: ceiling_le_iff)
  moreover have "0 \<le> \<lceil>x\<rceil>" using assms(2) by (simp add: le_ceiling_iff)
  ultimately have "rnd (of_int \<lceil>x\<rceil>) = of_int \<lceil>x\<rceil>" by (intro i) simp
  with monoD [OF m, of x "of_int \<lceil>x\<rceil>"] show "\<lfloor>rnd x\<rfloor> \<le> \<lceil>x\<rceil>" by (simp add: le_of_int_ceiling floor_le_iff)
  show "0 \<le> \<lfloor>rnd x\<rfloor>" using monoD [OF m assms(2)] i [of 0] by simp
qed



section \<open>The pool of runtime identifiers\<close>

text \<open>
  \<open>ids_\<close> is an unordered multiset; the element at its beginning depends on the hash table and is the
  parameter \<open>first\<close>.
\<close>

record runtime_id_pool =
  rp_ids :: "string multiset"
  rp_current :: string

definition empty_pool :: runtime_id_pool where
  "empty_pool = \<lparr>rp_ids = {#}, rp_current = []\<rparr>"

definition pool_add :: "(string multiset \<Rightarrow> string) \<Rightarrow> string \<Rightarrow> runtime_id_pool \<Rightarrow> runtime_id_pool" where
  "pool_add first rid p =
     (if rid = [] then p
      else let ids = add_mset rid (rp_ids p) in
        \<lparr>rp_ids = ids, rp_current = (if size ids = 1 \<or> rp_current p = [] then first ids else rp_current p)\<rparr>)"

definition pool_remove :: "(string multiset \<Rightarrow> string) \<Rightarrow> string \<Rightarrow> runtime_id_pool \<Rightarrow> runtime_id_pool" where
  "pool_remove first rid p =
     (if rid = [] \<or> rid \<notin># rp_ids p then p
      else let ids = rp_ids p - {#rid#} in
        \<lparr>rp_ids = ids,
         rp_current = (if ids \<noteq> {#} \<and> rp_current p \<notin># ids then first ids else rp_current p)\<rparr>)"

definition pool_get :: "runtime_id_pool \<Rightarrow> string" where
  "pool_get p = rp_current p"

definition pool_has_value :: "runtime_id_pool \<Rightarrow> bool" where
  "pool_has_value p \<longleftrightarrow> rp_current p \<noteq> []"

datatype pool_op = Pool_add string | Pool_remove string

fun pool_step :: "(string multiset \<Rightarrow> string) \<Rightarrow> pool_op \<Rightarrow> runtime_id_pool \<Rightarrow> runtime_id_pool" where
  "pool_step first (Pool_add rid) p = pool_add first rid p"
| "pool_step first (Pool_remove rid) p = pool_remove first rid p"

inductive pool_reachable :: "(string multiset \<Rightarrow> string) \<Rightarrow> runtime_id_pool \<Rightarrow> bool" for first where
  start: "pool_reachable first empty_pool"
| step: "pool_reachable first p \<Longrightarrow> pool_reachable first (pool_step first op p)"

definition first_ok :: "(string multiset \<Rightarrow> string) \<Rightarrow> bool" where
  "first_ok first \<longleftrightarrow> (\<forall>M. M \<noteq> {#} \<longrightarrow> first M \<in># M)"

definition pool_inv :: "runtime_id_pool \<Rightarrow> bool" where
  "pool_inv p \<longleftrightarrow> [] \<notin># rp_ids p \<and> (rp_ids p \<noteq> {#} \<longrightarrow> rp_current p \<in># rp_ids p)"

lemma first_in: "first_ok first \<Longrightarrow> M \<noteq> {#} \<Longrightarrow> first M \<in># M"
  by (simp add: first_ok_def)

lemma pool_add_inv:
  assumes "first_ok first" "pool_inv p"
  shows "pool_inv (pool_add first rid p)"
  using assms(2) first_in [OF assms(1), of "add_mset rid (rp_ids p)"]
  by (auto simp: pool_inv_def pool_add_def Let_def)

lemma pool_remove_inv: "first_ok first \<Longrightarrow> pool_inv p \<Longrightarrow> pool_inv (pool_remove first rid p)"
  by (auto simp: pool_inv_def pool_remove_def first_ok_def Let_def dest: in_diffD)

lemma pool_step_inv: "first_ok first \<Longrightarrow> pool_inv p \<Longrightarrow> pool_inv (pool_step first op p)"
  by (cases op) (simp_all add: pool_add_inv pool_remove_inv)

lemma pool_step_valued:
  assumes "first_ok first" "pool_inv p" "pool_has_value p"
  shows "pool_has_value (pool_step first op p)"
proof -
  have "first M \<noteq> []" if "M \<noteq> {#}" "[] \<notin># M" for M using assms(1) that by (auto simp: first_ok_def)
  moreover have "[] \<notin># rp_ids p - {#rid#}" for rid using assms(2) by (auto simp: pool_inv_def dest: in_diffD)
  ultimately show ?thesis using assms(2,3)
    by (cases op) (auto simp: pool_add_def pool_remove_def pool_has_value_def pool_inv_def Let_def)
qed

lemma pool_reachable_inv: "first_ok first \<Longrightarrow> pool_reachable first p \<Longrightarrow> pool_inv p"
  by (rotate_tac, induction rule: pool_reachable.induct) (simp add: pool_inv_def empty_pool_def, rule pool_step_inv)

text \<open>
  In every state of the pool that a sequence of additions and removals reaches, the reported
  identifier is a registered one whenever one is registered; it does not change while it stays
  registered; and once there is one, there always is. The hypothesis is that the first element of a
  container that is not empty is one of its elements.
\<close>

theorem pool_current_valid:
  assumes "first_ok first" "pool_reachable first p"
  shows "(rp_ids p \<noteq> {#} \<longrightarrow> pool_get p \<in># rp_ids p \<and> pool_has_value p) \<and>
    (pool_get p \<in># rp_ids (pool_step first op p) \<longrightarrow> pool_has_value p \<longrightarrow> rp_ids p \<noteq> {#} \<longrightarrow>
       pool_get (pool_step first op p) = pool_get p) \<and>
    (pool_has_value p \<longrightarrow> pool_has_value (pool_step first op p))"
proof -
  have inv: "pool_inv p" by (rule pool_reachable_inv [OF assms])
  have "pool_get (pool_step first op p) = pool_get p"
    if "pool_get p \<in># rp_ids (pool_step first op p)" "pool_has_value p" "rp_ids p \<noteq> {#}"
    using that by (cases op) (auto simp: pool_get_def pool_has_value_def pool_add_def pool_remove_def Let_def)
  moreover have "pool_has_value p" if "rp_ids p \<noteq> {#}"
    using inv that by (auto simp: pool_inv_def pool_has_value_def)
  ultimately show ?thesis using inv pool_step_valued [OF assms(1) inv] by (auto simp: pool_inv_def pool_get_def)
qed

lemma pool_current_valid_witness:
  "pool_get (pool_add (\<lambda>M. Min (set_mset M)) ''b'' (pool_add (\<lambda>M. Min (set_mset M)) ''c'' empty_pool)) \<in># {#''b'', ''c''#}"
proof -
  let ?first = "\<lambda>M :: string multiset. Min (set_mset M)"
  have f: "first_ok ?first" by (simp add: first_ok_def)
  have "pool_reachable ?first (pool_step ?first (Pool_add ''b'') (pool_step ?first (Pool_add ''c'') empty_pool))"
    by (intro pool_reachable.intros)
  from pool_current_valid [OF f this, of "Pool_add ''c''"] show ?thesis
    by (simp add: pool_add_def empty_pool_def Let_def)
qed

end
