(* ===== verification/Rc_Listeners.thy ===== *)
theory Rc_Listeners
  imports Tuf_Parser Helper_Limits "HOL-Library.AList"
begin

text \<open>
  src/helper/remote\_config/listeners: what the helper does with a remote configuration. The features
  listener turns the product on and off in the configuration of the service; the engine listener
  collects the configurations of three products in its aggregators and hands the engine one ruleset.

  A call of a listener returns, throws \<open>error_applying_config\<close>, or leaves in another way: with another
  exception, or because a member of a value that is not an object is asked for. The last is \<open>None\<close>.
  Iterating over an unordered map takes the order of its list of entries.
\<close>

section \<open>Configurations\<close>

datatype applied_state = UNKNOWN | UNACKNOWLEDGED | ACKNOWLEDGED | ERROR

record config =
  cfg_product :: string
  cfg_id :: string
  cfg_contents :: string
  cfg_path :: string
  cfg_hashes :: "string \<rightharpoonup> string"
  cfg_config_version :: int
  cfg_length :: int
  cfg_apply_state :: applied_state
  cfg_apply_error :: string

text \<open>The state together with the message of the exception, if one was thrown.\<close>

type_synonym 's applied = "(string option \<times> 's) option"

text \<open>What the listeners use of their surroundings: base64, JSON, and the rules file.\<close>

record rc_env =
  rc_base64_decode :: "string \<Rightarrow> string option"
  rc_parse_doc :: "string \<Rightarrow> json option"
  rc_read_ruleset :: "string \<Rightarrow> json option"

definition get_json_base64_encoded_content :: "('a rc_env_scheme) \<Rightarrow> string \<Rightarrow> json option" where
  "get_json_base64_encoded_content env content =
     (case rc_base64_decode env content of None \<Rightarrow> None | Some s \<Rightarrow> rc_parse_doc env s)"

text \<open>\<open>dd_tolower\<close> of utils.hpp.\<close>

definition dd_tolower :: "string \<Rightarrow> string" where
  "dd_tolower s =
     map (\<lambda>c. if (of_char c :: nat) > 65 \<and> (of_char c :: nat) < 90 then char_of ((of_char c :: nat) + 32) else c) s"

section \<open>The features listener\<close>

datatype enable_asm_status = NOT_SET | ASM_ENABLED | ASM_DISABLED

definition asm_features_on_update ::
  "'a rc_env_scheme \<Rightarrow> config \<Rightarrow> enable_asm_status \<Rightarrow> enable_asm_status applied" where
  "asm_features_on_update env config st =
     (case get_json_base64_encoded_content env (cfg_contents config) of
        None \<Rightarrow> Some (Some ''Invalid config contents'', st)
      | Some serialized_doc \<Rightarrow>
          (case get_field_of_type serialized_doc ''asm'' kObjectType of
             Undefined \<Rightarrow> None
           | Defined None \<Rightarrow>
               Some (Some ''Invalid config json encoded contents: asm key missing or invalid'', st)
           | Defined (Some asm) \<Rightarrow>
               (case map_of (json_members asm) ''enabled'' of
                  None \<Rightarrow> Some (Some ''Invalid config json encoded contents: enabled key missing'', st)
                | Some (JString s) \<Rightarrow>
                    Some (None, if dd_tolower (c_str s) = ''true'' then ASM_ENABLED else ASM_DISABLED)
                | Some JTrue \<Rightarrow> Some (None, ASM_ENABLED)
                | Some JFalse \<Rightarrow> Some (None, ASM_DISABLED)
                | Some _ \<Rightarrow> Some (Some ''Invalid config json encoded contents: enabled key invalid'', st))))"

definition asm_features_on_unapply :: "enable_asm_status \<Rightarrow> enable_asm_status" where
  "asm_features_on_unapply st = NOT_SET"

section \<open>Rule data with expirations\<close>

text \<open>\<open>rule_data\<close>: its data is an ordered map from values to optional expirations.\<close>

record rule_data =
  rd_id :: string
  rd_type :: string
  rd_data :: "(string \<times> u64 option) list"

fun data_set :: "string \<Rightarrow> u64 option \<Rightarrow> (string \<times> u64 option) list \<Rightarrow> (string \<times> u64 option) list" where
  "data_set v e [] = [(v, e)]"
| "data_set v e ((w, f) # ds) =
     (if v = w then (v, e) # ds else if v < w then (v, e) # (w, f) # ds else (w, f) # data_set v e ds)"

definition merged_expiration :: "u64 option \<Rightarrow> u64 option \<Rightarrow> u64 option" where
  "merged_expiration old new =
     (case new of
        None \<Rightarrow> None
      | Some e \<Rightarrow> (case old of None \<Rightarrow> None | Some x \<Rightarrow> if e = 0 \<or> x < e then Some e else Some x))"

definition rule_data_emplace :: "string \<times> u64 option \<Rightarrow> rule_data \<Rightarrow> rule_data" where
  "rule_data_emplace = (\<lambda>(v, e) rd.
     (case map_of (rd_data rd) v of
        None \<Rightarrow> rd\<lparr>rd_data := data_set v e (rd_data rd)\<rparr>
      | Some old \<Rightarrow> rd\<lparr>rd_data := data_set v (merged_expiration old e) (rd_data rd)\<rparr>))"

definition rule_data_merge :: "rule_data \<Rightarrow> rule_data \<Rightarrow> rule_data" where
  "rule_data_merge rd other = foldl (\<lambda>rd d. rule_data_emplace d rd) rd (rd_data other)"

text \<open>
  \<open>extract_data\<close> on one entry: the message of the exception, the data point, or \<open>None\<close> where \<open>GetUint64\<close> is
  asked of a number that is not one.
\<close>

fun data_point :: "json \<Rightarrow> (string + (string \<times> u64 option)) option" where
  "data_point (JObject ms) =
     (case map_of ms ''value'' of
        Some (JString v) \<Rightarrow>
          (case map_of ms ''expiration'' of
             None \<Rightarrow> Some (Inr (c_str v, None))
           | Some (JInt i) \<Rightarrow> if is_uint64 i then Some (Inr (c_str v, Some (word_of_int i))) else None
           | Some (JDouble d) \<Rightarrow> None
           | Some _ \<Rightarrow> Some (Inl ''Invalid type for expiration entry''))
      | _ \<Rightarrow> Some (Inl ''Invalid value of data entry''))"
| "data_point _ = Some (Inl ''Invalid config json contents: Entry on data not a valid object'')"

fun extract_data :: "json list \<Rightarrow> rule_data \<Rightarrow> (string + rule_data) option" where
  "extract_data [] rd = Some (Inr rd)"
| "extract_data (e # es) rd =
     (case data_point e of
        None \<Rightarrow> None
      | Some (Inl msg) \<Rightarrow> Some (Inl msg)
      | Some (Inr d) \<Rightarrow> extract_data es (rule_data_emplace d rd))"

type_synonym rules_data = "(string \<times> rule_data) list"

definition entry_fields :: "(string \<times> json) list \<Rightarrow> (string \<times> string \<times> json list) option" where
  "entry_fields ms =
     (case (map_of ms ''id'', map_of ms ''type'', map_of ms ''data'') of
        (Some (JString i), Some (JString t), Some (JArray d)) \<Rightarrow> Some (c_str i, c_str t, d)
      | _ \<Rightarrow> None)"

text \<open>The loop of \<open>asm_data_aggregator::add\<close> over the entries of \<open>rules_data\<close>.\<close>

fun collect_rules_data :: "json list \<Rightarrow> rules_data \<Rightarrow> (string + rules_data) option" where
  "collect_rules_data [] acc = Some (Inr acc)"
| "collect_rules_data (e # es) acc =
     (case e of
        JObject ms \<Rightarrow>
          (case entry_fields ms of
             None \<Rightarrow> Some (Inl ''Invalid config json contents: rules_data missing a field or field is invalid'')
           | Some (rid, ty, d) \<Rightarrow>
               if ty \<noteq> ''data_with_expiration'' \<and> ty \<noteq> ''ip_with_expiration'' then collect_rules_data es acc
               else (case map_of acc rid of
                  None \<Rightarrow>
                    (case extract_data d \<lparr>rd_id = rid, rd_type = ty, rd_data = []\<rparr> of
                       None \<Rightarrow> None
                     | Some (Inl msg) \<Rightarrow> Some (Inl msg)
                     | Some (Inr rd) \<Rightarrow>
                         collect_rules_data es (if rd_data rd \<noteq> [] then acc @ [(rid, rd)] else acc))
                | Some rd \<Rightarrow>
                    (case extract_data d rd of
                       None \<Rightarrow> None
                     | Some (Inl msg) \<Rightarrow> Some (Inl msg)
                     | Some (Inr rd) \<Rightarrow> collect_rules_data es (AList.update rid rd acc))))
      | _ \<Rightarrow> Some (Inl ''Invalid config json contents: rules_data entry invalid''))"

definition merge_rules_data :: "rules_data \<Rightarrow> rules_data \<Rightarrow> rules_data" where
  "merge_rules_data rules new =
     foldl (\<lambda>rules (key, value).
       (case map_of rules key of
          Some rd \<Rightarrow> AList.update key (rule_data_merge rd value) rules
        | None \<Rightarrow> rules @ [(key, value)])) rules new"

definition asm_data_add :: "'a rc_env_scheme \<Rightarrow> config \<Rightarrow> rules_data \<Rightarrow> rules_data applied" where
  "asm_data_add env config rules =
     (case get_json_base64_encoded_content env (cfg_contents config) of
        None \<Rightarrow> Some (Some ''Invalid config contents'', rules)
      | Some serialized_doc \<Rightarrow>
          (case get_field_of_type serialized_doc ''rules_data'' kArrayType of
             Undefined \<Rightarrow> None
           | Defined None \<Rightarrow> Some (Some ''Invalid config json contents: rules_data key missing or invalid'', rules)
           | Defined (Some v) \<Rightarrow>
               (case collect_rules_data (json_elements v) [] of
                  None \<Rightarrow> None
                | Some (Inl msg) \<Rightarrow> Some (Some msg, rules)
                | Some (Inr new) \<Rightarrow> Some (None, merge_rules_data rules new))))"

definition data_entry_json :: "string \<times> u64 option \<Rightarrow> json" where
  "data_entry_json = (\<lambda>(v, e).
     JObject ((case e of None \<Rightarrow> [] | Some x \<Rightarrow> [(''expiration'', JInt (uint x))]) @ [(''value'', JString v)]))"

definition rule_data_json :: "rule_data \<Rightarrow> json" where
  "rule_data_json rd =
     JObject [(''id'', JString (rd_id rd)), (''type'', JString (rd_type rd)),
       (''data'', JArray (map data_entry_json (rd_data rd)))]"

definition asm_data_aggregate :: "rules_data \<Rightarrow> json \<Rightarrow> merge_error + json" where
  "asm_data_aggregate rules doc =
     merge_objects doc (JObject [(''rules_data'', JArray (map (rule_data_json \<circ> snd) rules))])"

section \<open>The other aggregators\<close>

definition expected_keys :: "string list" where
  "expected_keys = [''exclusions'', ''actions'', ''rules_override'', ''custom_rules'']"

definition asm_init :: json where
  "asm_init = JObject (map (\<lambda>key. (key, JArray [])) expected_keys)"

text \<open>The members of a document that \<open>asm_aggregator::add\<close> merges, or the message for one of a wrong type.\<close>

fun available_keys :: "(string \<times> json) list \<Rightarrow> string list \<Rightarrow> string + (string \<times> json list) list" where
  "available_keys ms [] = Inr []"
| "available_keys ms (key # keys) =
     (case map_of ms key of
        None \<Rightarrow> available_keys ms keys
      | Some (JArray vs) \<Rightarrow>
          (case available_keys ms keys of Inl e \<Rightarrow> Inl e | Inr kvs \<Rightarrow> Inr ((key, vs) # kvs))
      | Some _ \<Rightarrow> Inl (''Invalid type for '' @ key))"

definition asm_add :: "'a rc_env_scheme \<Rightarrow> config \<Rightarrow> json \<Rightarrow> json applied" where
  "asm_add env config ruleset =
     (case get_json_base64_encoded_content env (cfg_contents config) of
        None \<Rightarrow> Some (Some ''Invalid config contents'', ruleset)
      | Some (JObject ms) \<Rightarrow>
          (case available_keys ms expected_keys of
             Inl e \<Rightarrow> Some (Some e, ruleset)
           | Inr kvs \<Rightarrow>
               Some (None, JObject (map (\<lambda>(k, v). case map_of kvs k of
                   None \<Rightarrow> (k, v)
                 | Some vs \<Rightarrow> (k, JArray (json_elements v @ vs))) (json_members ruleset))))
      | Some _ \<Rightarrow> Some (Some ''Invalid type for config, expected object'', ruleset))"

definition asm_dd_add :: "'a rc_env_scheme \<Rightarrow> config \<Rightarrow> json \<Rightarrow> json applied" where
  "asm_dd_add env config ruleset =
     (case get_json_base64_encoded_content env (cfg_contents config) of
        None \<Rightarrow> Some (Some ''Invalid config contents'', ruleset)
      | Some (JObject ms) \<Rightarrow> Some (None, JObject ms)
      | Some _ \<Rightarrow> Some (Some ''Invalid type for config, expected object'', ruleset))"

definition asm_dd_remove :: "'a rc_env_scheme \<Rightarrow> string \<Rightarrow> json \<Rightarrow> json applied" where
  "asm_dd_remove env fallback_rules_file ruleset =
     (if fallback_rules_file = [] then Some (None, ruleset)
      else case rc_read_ruleset env fallback_rules_file of
        None \<Rightarrow> None
      | Some doc \<Rightarrow> Some (None, doc))"

section \<open>The engine listener\<close>

text \<open>
  \<open>to_commit_\<close> is the set of aggregators touched since \<open>init\<close>, by the name of their product. The rulesets
  handed to the engine are logged in order.
\<close>

record engine_listener =
  el_ruleset :: json
  el_to_commit :: "string list"
  el_asm :: json
  el_dd :: json
  el_data :: rules_data
  el_rules_file :: string
  el_committed :: "json list"

definition aggregator_products :: "string list" where
  "aggregator_products = [''ASM'', ''ASM_DD'', ''ASM_DATA'']"

definition engine_listener_init :: "engine_listener \<Rightarrow> engine_listener" where
  "engine_listener_init el = el\<lparr>el_ruleset := JObject [], el_to_commit := []\<rparr>"

definition aggregator_init :: "string \<Rightarrow> engine_listener \<Rightarrow> engine_listener" where
  "aggregator_init product el =
     (if product = ''ASM'' then el\<lparr>el_asm := asm_init\<rparr>
      else if product = ''ASM_DD'' then el\<lparr>el_dd := JObject []\<rparr>
      else el\<lparr>el_data := []\<rparr>)"

definition touch_aggregator :: "string \<Rightarrow> engine_listener \<Rightarrow> engine_listener" where
  "touch_aggregator product el =
     (if product \<in> set (el_to_commit el) then el
      else (aggregator_init product el)\<lparr>el_to_commit := product # el_to_commit el\<rparr>)"

definition aggregator_add :: "'a rc_env_scheme \<Rightarrow> config \<Rightarrow> engine_listener \<Rightarrow> engine_listener applied" where
  "aggregator_add env config el =
     (if cfg_product config = ''ASM''
      then map_option (\<lambda>(e, r). (e, el\<lparr>el_asm := r\<rparr>)) (asm_add env config (el_asm el))
      else if cfg_product config = ''ASM_DD''
      then map_option (\<lambda>(e, r). (e, el\<lparr>el_dd := r\<rparr>)) (asm_dd_add env config (el_dd el))
      else map_option (\<lambda>(e, r). (e, el\<lparr>el_data := r\<rparr>)) (asm_data_add env config (el_data el)))"

definition aggregator_remove :: "'a rc_env_scheme \<Rightarrow> config \<Rightarrow> engine_listener \<Rightarrow> engine_listener applied" where
  "aggregator_remove env config el =
     (if cfg_product config = ''ASM_DD''
      then map_option (\<lambda>(e, r). (e, el\<lparr>el_dd := r\<rparr>)) (asm_dd_remove env (el_rules_file el) (el_dd el))
      else Some (None, el))"

definition engine_listener_on_update :: "'a rc_env_scheme \<Rightarrow> config \<Rightarrow> engine_listener \<Rightarrow> engine_listener applied" where
  "engine_listener_on_update env config el =
     (if cfg_product config \<notin> set aggregator_products
      then Some (Some (''unknown product: '' @ cfg_product config), el)
      else aggregator_add env config (touch_aggregator (cfg_product config) el))"

definition engine_listener_on_unapply :: "'a rc_env_scheme \<Rightarrow> config \<Rightarrow> engine_listener \<Rightarrow> engine_listener applied" where
  "engine_listener_on_unapply env config el =
     (if cfg_product config \<notin> set aggregator_products
      then Some (Some (''unknown product: '' @ cfg_product config), el)
      else aggregator_remove env config (touch_aggregator (cfg_product config) el))"

definition aggregate :: "engine_listener \<Rightarrow> string \<Rightarrow> json \<Rightarrow> merge_error + json" where
  "aggregate el product doc =
     (if product = ''ASM'' then merge_objects doc (el_asm el)
      else if product = ''ASM_DD'' then merge_objects doc (el_dd el)
      else asm_data_aggregate (el_data el) doc)"

fun aggregate_all :: "engine_listener \<Rightarrow> string list \<Rightarrow> json \<Rightarrow> merge_error + json" where
  "aggregate_all el [] doc = Inr doc"
| "aggregate_all el (p # ps) doc =
     (if p \<in> set (el_to_commit el) then
        (case aggregate el p doc of Inl e \<Rightarrow> Inl e | Inr doc \<Rightarrow> aggregate_all el ps doc)
      else aggregate_all el ps doc)"

text \<open>\<open>commit\<close>; the order in which the aggregators are visited is that of their map.\<close>

definition engine_listener_commit :: "string list \<Rightarrow> engine_listener \<Rightarrow> engine_listener option" where
  "engine_listener_commit order el =
     (if el_to_commit el = [] then Some el
      else case aggregate_all el order (el_ruleset el) of
        Inl e \<Rightarrow> None
      | Inr doc \<Rightarrow> Some (el\<lparr>el_ruleset := JNull, el_committed := el_committed el @ [doc]\<rparr>))"

section \<open>Laws of the aggregators\<close>

text \<open>How long data lasts: no expiration is for ever.\<close>

fun lasts_at_least :: "u64 option \<Rightarrow> u64 option \<Rightarrow> bool" where
  "lasts_at_least None b = True"
| "lasts_at_least (Some x) None = False"
| "lasts_at_least (Some x) (Some y) = (y \<le> x)"

lemma map_of_data_set: "map_of (data_set v e ds) = (map_of ds)(v \<mapsto> e)"
  by (induction ds) auto

lemma map_of_rule_data_emplace:
  "map_of (rd_data (rule_data_emplace (v, e) rd)) =
     (map_of (rd_data rd))(v \<mapsto> (case map_of (rd_data rd) v of None \<Rightarrow> e | Some old \<Rightarrow> merged_expiration old e))"
  by (simp add: rule_data_emplace_def map_of_data_set split: option.splits)

lemma merged_expiration_latest:
  assumes "new \<noteq> Some 0"
  shows "merged_expiration old new \<in> {old, new}" "lasts_at_least (merged_expiration old new) old"
    "lasts_at_least (merged_expiration old new) new"
  using assms by (auto simp: merged_expiration_def split: option.splits)

lemma lasts_at_least_trans: "lasts_at_least a b \<Longrightarrow> lasts_at_least b c \<Longrightarrow> lasts_at_least a c"
  by (cases a; cases b; cases c) auto

lemma lasts_at_least_refl [simp]: "lasts_at_least a a"
  by (cases a) auto

text \<open>The data a rule has kept of the data points given to it.\<close>

definition keeps_latest :: "(string \<times> u64 option) list \<Rightarrow> rule_data \<Rightarrow> bool" where
  "keeps_latest ds rd \<longleftrightarrow>
     (\<forall>v. case map_of (rd_data rd) v of
        None \<Rightarrow> v \<notin> fst ` set ds
      | Some e \<Rightarrow> (v, e) \<in> set ds \<and> (\<forall>f. (v, f) \<in> set ds \<longrightarrow> lasts_at_least e f))"

lemma keeps_latestD:
  "keeps_latest ds rd \<Longrightarrow> map_of (rd_data rd) v = None \<Longrightarrow> (v, f) \<notin> set ds"
  "keeps_latest ds rd \<Longrightarrow> map_of (rd_data rd) v = Some e \<Longrightarrow> (v, e) \<in> set ds"
  "keeps_latest ds rd \<Longrightarrow> map_of (rd_data rd) v = Some e \<Longrightarrow> (v, f) \<in> set ds \<Longrightarrow> lasts_at_least e f"
  unfolding keeps_latest_def by (drule spec [of _ v], force)+

lemma keeps_latest_emplace:
  assumes k: "keeps_latest ds rd" and e: "e \<noteq> Some 0"
  shows "keeps_latest (ds @ [(v, e)]) (rule_data_emplace (v, e) rd)"
  unfolding keeps_latest_def
proof
  fix w
  note [simp] = map_of_rule_data_emplace
  show "case map_of (rd_data (rule_data_emplace (v, e) rd)) w of
      None \<Rightarrow> w \<notin> fst ` set (ds @ [(v, e)])
    | Some g \<Rightarrow> (w, g) \<in> set (ds @ [(v, e)]) \<and> (\<forall>f. (w, f) \<in> set (ds @ [(v, e)]) \<longrightarrow> lasts_at_least g f)"
  proof (cases "w = v")
    case True
    show ?thesis
    proof (cases "map_of (rd_data rd) v")
      case None
      with True keeps_latestD(1) [OF k] show ?thesis by simp
    next
      case (Some old)
      note old = keeps_latestD(2,3) [OF k Some]
      show ?thesis using True Some old merged_expiration_latest [OF e, of old]
        by (auto intro: lasts_at_least_trans)
    qed
  next
    case False
    show ?thesis
    proof (cases "map_of (rd_data rd) w")
      case None
      with False keeps_latestD(1) [OF k None] show ?thesis by auto
    next
      case (Some old)
      with False keeps_latestD(2,3) [OF k Some] show ?thesis by auto
    qed
  qed
qed

text \<open>
  Property C28: whatever the order of the data points of a rule, an address or user stays in the data with
  one of the expirations it was given, and none of those lasts longer; a point without an expiration
  lasts for ever. The hypothesis is that no expiration is zero, which the code treats apart.
\<close>

theorem rule_data_keeps_latest:
  assumes "\<forall>(v, e) \<in> set ds. e \<noteq> Some 0"
  shows "keeps_latest ds (foldl (\<lambda>rd d. rule_data_emplace d rd) \<lparr>rd_id = i, rd_type = t, rd_data = []\<rparr> ds)"
  using assms
proof (induction ds rule: rev_induct)
  case Nil
  show ?case by (simp add: keeps_latest_def)
next
  case (snoc d ds)
  obtain v e where d: "d = (v, e)" by fastforce
  from snoc d show ?case by (auto intro: keeps_latest_emplace)
qed

lemma rule_data_keeps_latest_witness:
  "rd_data (foldl (\<lambda>rd d. rule_data_emplace d rd) \<lparr>rd_id = ''i'', rd_type = ''t'', rd_data = []\<rparr>
     [(''b'', Some 3), (''a'', None), (''b'', Some 9), (''a'', Some 1)]) = [(''a'', None), (''b'', Some 9)] \<and>
   keeps_latest [(''b'', Some 3), (''a'', None), (''b'', Some 9), (''a'', Some 1)]
     \<lparr>rd_id = ''i'', rd_type = ''t'', rd_data = [(''a'', None), (''b'', Some 9)]\<rparr>"
proof -
  let ?ds = "[(''b'', Some 3), (''a'', None), (''b'', Some 9), (''a'', Some 1)] :: (string \<times> u64 option) list"
  have "foldl (\<lambda>rd d. rule_data_emplace d rd) \<lparr>rd_id = ''i'', rd_type = ''t'', rd_data = []\<rparr> ?ds =
      \<lparr>rd_id = ''i'', rd_type = ''t'', rd_data = [(''a'', None), (''b'', Some 9)]\<rparr>"
    by (simp add: rule_data_emplace_def merged_expiration_def less_char_def)
  with rule_data_keeps_latest [of ?ds "''i''" "''t''"] show ?thesis by simp
qed

text \<open>
  An expiration of zero replaces any other, and any other replaces it: the outcome depends on the order.
\<close>

lemma zero_expiration_depends_on_order:
  "map_of (rd_data (foldl (\<lambda>rd d. rule_data_emplace d rd) \<lparr>rd_id = i, rd_type = t, rd_data = []\<rparr>
     [(v, Some 0), (v, Some 5)])) v = Some (Some 5)"
  "map_of (rd_data (foldl (\<lambda>rd d. rule_data_emplace d rd) \<lparr>rd_id = i, rd_type = t, rd_data = []\<rparr>
     [(v, Some 5), (v, Some 0)])) v = Some (Some 0)"
  by (simp_all add: rule_data_emplace_def merged_expiration_def)

end
