(* ===== verification/Rc_Client.thy ===== *)
theory Rc_Client
  imports Rc_Listeners
begin

text \<open>
  The client of remote configuration in the helper: src/helper/remote\_config/product.cpp, client.cpp,
  protocol/tuf/serializer.cpp and client\_handler.cpp.

  A product holds its configurations as a list of entries without repeated keys, in the order in which
  the unordered map is iterated; building a new map may reorder, which is the parameter \<open>order\<close>. A listener
  is called with a \<open>listener_call\<close>; the parameter \<open>respond\<close> gives its answer and the state of all listeners
  afterwards, or \<open>None\<close> when an exception other than \<open>error_applying_config\<close> leaves the call.
\<close>

section \<open>Products\<close>

datatype listener_call = L_init | L_update config | L_unapply config | L_commit

type_synonym ('i, 'l) responder = "'i \<Rightarrow> listener_call \<Rightarrow> 'l \<Rightarrow> 'l applied"

record 'i product =
  product_name :: string
  product_configs :: "(string \<times> config) list"
  product_listener :: 'i

definition apply_result :: "string option \<Rightarrow> config \<Rightarrow> config" where
  "apply_result e c =
     (case e of
        None \<Rightarrow> c\<lparr>cfg_apply_state := ACKNOWLEDGED, cfg_apply_error := []\<rparr>
      | Some what \<Rightarrow> c\<lparr>cfg_apply_state := ERROR, cfg_apply_error := what\<rparr>)"

fun call_configs ::
  "('l \<Rightarrow> config \<Rightarrow> 'l applied) \<Rightarrow> (string \<times> config) list \<Rightarrow> 'l \<Rightarrow> ((string \<times> config) list \<times> 'l) option" where
  "call_configs call [] l = Some ([], l)"
| "call_configs call ((name, c) # cs) l =
     (case call l c of
        None \<Rightarrow> None
      | Some (e, l) \<Rightarrow>
          (case call_configs call cs l of
             None \<Rightarrow> None
           | Some (cs, l) \<Rightarrow> Some ((name, apply_result e c) # cs, l)))"

definition update_configs ::
  "('i, 'l) responder \<Rightarrow> 'i \<Rightarrow> (string \<times> config) list \<Rightarrow> 'l \<Rightarrow> ((string \<times> config) list \<times> 'l) option" where
  "update_configs respond i = call_configs (\<lambda>l c. respond i (L_update c) l)"

definition unapply_configs ::
  "('i, 'l) responder \<Rightarrow> 'i \<Rightarrow> (string \<times> config) list \<Rightarrow> 'l \<Rightarrow> ((string \<times> config) list \<times> 'l) option" where
  "unapply_configs respond i = call_configs (\<lambda>l c. respond i (L_unapply c) l)"

text \<open>
  The loop of \<open>assign_configs\<close>: what to update, what is left of the previous configurations, and whether
  there are changes.
\<close>

fun classify_configs ::
  "(string \<times> config) list \<Rightarrow> (string \<times> config) list \<Rightarrow> (string \<times> config) list \<Rightarrow> bool \<Rightarrow>
   (string \<times> config) list \<times> (string \<times> config) list \<times> bool" where
  "classify_configs [] previous to_update changes = (to_update, previous, changes)"
| "classify_configs ((name, c) # cs) previous to_update changes =
     (case map_of previous name of
        None \<Rightarrow> classify_configs cs previous (to_update @ [(name, c\<lparr>cfg_apply_state := UNACKNOWLEDGED\<rparr>)]) True
      | Some p \<Rightarrow>
          if cfg_hashes c = cfg_hashes p
          then classify_configs cs (AList.delete name previous) (to_update @ [(name, p)]) changes
          else classify_configs cs (AList.delete name previous)
                 (to_update @ [(name, c\<lparr>cfg_apply_state := UNACKNOWLEDGED\<rparr>)]) True)"

definition assign_configs ::
  "('i, 'l) responder \<Rightarrow> ((string \<times> config) list \<Rightarrow> (string \<times> config) list) \<Rightarrow>
   (string \<times> config) list \<Rightarrow> 'i product \<Rightarrow> 'l \<Rightarrow> ('i product \<times> 'l) option" where
  "assign_configs respond order configs p l =
     (let (to_update, left, changes) = classify_configs configs (product_configs p) [] False in
      if changes \<or> left \<noteq> [] then
        (case update_configs respond (product_listener p) (order to_update) l of
           None \<Rightarrow> None
         | Some (updated, l) \<Rightarrow>
             (case unapply_configs respond (product_listener p) left l of
                None \<Rightarrow> None
              | Some (_, l) \<Rightarrow> Some (p\<lparr>product_configs := updated\<rparr>, l)))
      else Some (p\<lparr>product_configs := order to_update\<rparr>, l))"

section \<open>The client\<close>

text \<open>
  \<open>config_path::from_path\<close>: the regular expression accepts paths of five parts that begin with
  \<open>datadog\<close> and a number, and of four that begin with \<open>employee\<close>. The result is the identifier and the
  product.
\<close>

definition is_digit_char :: "char \<Rightarrow> bool" where
  "is_digit_char c \<longleftrightarrow> (48 :: nat) \<le> of_char c \<and> of_char c \<le> (57 :: nat)"

definition from_path :: "string \<Rightarrow> (string \<times> string) option" where
  "from_path path =
     (case split_on (CHR 0x2F) path of
        [source, product, rid, file] \<Rightarrow>
          if source = ''employee'' \<and> product \<noteq> [] \<and> rid \<noteq> [] \<and> file \<noteq> [] then Some (rid, product) else None
      | [source, num, product, rid, file] \<Rightarrow>
          if source = ''datadog'' \<and> num \<noteq> [] \<and> list_all is_digit_char num \<and>
             product \<noteq> [] \<and> rid \<noteq> [] \<and> file \<noteq> []
          then Some (rid, product) else None
      | _ \<Rightarrow> None)"

record service_identifier =
  sid_service :: string
  sid_extra_services :: "string list"
  sid_env :: string
  sid_tracer_version :: string
  sid_app_version :: string
  sid_runtime_id :: string

record 'i rc_client =
  rcl_id :: string
  rcl_ids :: runtime_id_pool
  rcl_sid :: service_identifier
  rcl_last_poll_error :: string
  rcl_opaque_backend_state :: string
  rcl_targets_version :: int
  rcl_listeners :: "'i list"
  rcl_products :: "(string \<times> 'i product) list"
  rcl_capabilities :: u16

definition add_product :: "'i \<Rightarrow> string \<times> u16 \<Rightarrow> 'i rc_client \<Rightarrow> 'i rc_client" where
  "add_product i = (\<lambda>(name, capabilities) c.
     c\<lparr>rcl_products := (if map_of (rcl_products c) name = None
          then rcl_products c @ [(name, \<lparr>product_name = name, product_configs = [], product_listener = i\<rparr>)]
          else rcl_products c),
       rcl_capabilities := rcl_capabilities c OR capabilities\<rparr>)"

definition new_rc_client ::
  "string \<Rightarrow> service_identifier \<Rightarrow> ('i \<Rightarrow> (string \<times> u16) list) \<Rightarrow> 'i list \<Rightarrow> 'i rc_client" where
  "new_rc_client uuid sid supported listeners =
     foldl (\<lambda>c i. foldl (\<lambda>c p. add_product i p c) c (supported i))
       \<lparr>rcl_id = uuid, rcl_ids = empty_pool, rcl_sid = sid, rcl_last_poll_error = [], rcl_opaque_backend_state = [],
        rcl_targets_version = 0, rcl_listeners = listeners, rcl_products = [], rcl_capabilities = 0\<rparr> listeners"

text \<open>
  The loop of \<open>process_response\<close> over the paths: the configurations by product and identifier, or the error
  of the poll.
\<close>

definition path_config ::
  "(string \<times> 'i product) list \<Rightarrow> get_configs_response \<Rightarrow> targets \<Rightarrow> string \<Rightarrow> string + (string \<times> string \<times> config)" where
  "path_config products response tg path =
     (case from_path path of
        None \<Rightarrow> Inl (''error parsing path '' @ path)
      | Some (rid, product) \<Rightarrow>
          (case targets_paths tg path of
             None \<Rightarrow> Inl (''missing config '' @ path @ '' in targets'')
           | Some tp \<Rightarrow>
               (case map_of products product of
                  None \<Rightarrow> Inl (''received config '' @ path @ '' for a product that was not requested'')
                | Some p \<Rightarrow>
                    (case target_files response path of
                       None \<Rightarrow>
                         (case find (\<lambda>(_, c). cfg_path c = path \<and> cfg_hashes c = path_hashes tp) (product_configs p) of
                            None \<Rightarrow> Inl (''missing config '' @ path @ '' in target files and in cache files'')
                          | Some (_, c) \<Rightarrow>
                              Inr (product, rid,
                                \<lparr>cfg_product = product, cfg_id = rid, cfg_contents = cfg_contents c, cfg_path = path,
                                 cfg_hashes = path_hashes tp, cfg_config_version = cfg_config_version c, cfg_length = cfg_length c,
                                 cfg_apply_state = UNKNOWN, cfg_apply_error = []\<rparr>))
                     | Some tf \<Rightarrow>
                         Inr (product, rid,
                           \<lparr>cfg_product = product, cfg_id = rid, cfg_contents = tf_raw tf, cfg_path = path,
                            cfg_hashes = path_hashes tp, cfg_config_version = custom_v tp, cfg_length = path_length tp,
                            cfg_apply_state = UNKNOWN, cfg_apply_error = []\<rparr>)))))"

text \<open>\<open>emplace\<close> into the map of a product inside the map of all products.\<close>

definition alist_emplace :: "'k \<Rightarrow> 'v \<Rightarrow> ('k \<times> 'v) list \<Rightarrow> ('k \<times> 'v) list" where
  "alist_emplace k v m = (if map_of m k = None then m @ [(k, v)] else m)"

definition add_config ::
  "string \<Rightarrow> string \<Rightarrow> config \<Rightarrow> (string \<times> (string \<times> config) list) list \<Rightarrow> (string \<times> (string \<times> config) list) list" where
  "add_config product rid c configs =
     (case map_of configs product of
        None \<Rightarrow> configs @ [(product, [(rid, c)])]
      | Some cs \<Rightarrow> AList.update product (alist_emplace rid c cs) configs)"

fun collect_configs ::
  "(string \<times> 'i product) list \<Rightarrow> get_configs_response \<Rightarrow> targets \<Rightarrow> string list \<Rightarrow>
   (string \<times> (string \<times> config) list) list \<Rightarrow> string + (string \<times> (string \<times> config) list) list" where
  "collect_configs products response tg [] configs = Inr configs"
| "collect_configs products response tg (path # paths) configs =
     (case path_config products response tg path of
        Inl e \<Rightarrow> Inl e
      | Inr (product, rid, c) \<Rightarrow> collect_configs products response tg paths (add_config product rid c configs))"

fun call_listeners :: "('i, 'l) responder \<Rightarrow> listener_call \<Rightarrow> 'i list \<Rightarrow> 'l \<Rightarrow> 'l option" where
  "call_listeners respond call [] l = Some l"
| "call_listeners respond call (i # is) l =
     (case respond i call l of Some (None, l) \<Rightarrow> call_listeners respond call is l | _ \<Rightarrow> None)"

fun assign_products ::
  "('i, 'l) responder \<Rightarrow> ((string \<times> config) list \<Rightarrow> (string \<times> config) list) \<Rightarrow>
   (string \<times> (string \<times> config) list) list \<Rightarrow> (string \<times> 'i product) list \<Rightarrow> 'l \<Rightarrow>
   ((string \<times> 'i product) list \<times> 'l) option" where
  "assign_products respond order configs [] l = Some ([], l)"
| "assign_products respond order configs ((name, p) # ps) l =
     (case assign_configs respond order (case map_of configs name of Some cs \<Rightarrow> cs | None \<Rightarrow> []) p l of
        None \<Rightarrow> None
      | Some (p, l) \<Rightarrow>
          (case assign_products respond order configs ps l of
             None \<Rightarrow> None
           | Some (ps, l) \<Rightarrow> Some ((name, p) # ps, l)))"

definition process_response ::
  "('i, 'l) responder \<Rightarrow> ((string \<times> config) list \<Rightarrow> (string \<times> config) list) \<Rightarrow>
   get_configs_response \<Rightarrow> 'i rc_client \<Rightarrow> 'l \<Rightarrow> (bool \<times> 'i rc_client \<times> 'l) option" where
  "process_response respond order response c l =
     (case response_targets response of
        None \<Rightarrow> Some (True, c, l)
      | Some tg \<Rightarrow>
          (case collect_configs (rcl_products c) response tg (client_configs response) [] of
             Inl e \<Rightarrow> Some (False, c\<lparr>rcl_last_poll_error := e\<rparr>, l)
           | Inr configs \<Rightarrow>
               (case call_listeners respond L_init (rcl_listeners c) l of
                  None \<Rightarrow> None
                | Some l \<Rightarrow>
                    (case assign_products respond order configs (rcl_products c) l of
                       None \<Rightarrow> None
                     | Some (ps, l) \<Rightarrow>
                         (case call_listeners respond L_commit (rcl_listeners c) l of
                            None \<Rightarrow> None
                          | Some l \<Rightarrow>
                              Some (True, c\<lparr>rcl_products := ps, rcl_targets_version := targets_version tg,
                                rcl_opaque_backend_state := opaque_backend_state tg\<rparr>, l))))))"

section \<open>Requests\<close>

record config_state =
  cst_id :: string
  cst_version :: int
  cst_product :: string
  cst_apply_state :: applied_state
  cst_apply_error :: string

record cached_target_files =
  ctf_path :: string
  ctf_length :: int
  ctf_hashes :: "(string \<times> string) list"

record client_tracer =
  ct_runtime_id :: string
  ct_tracer_version :: string
  ct_service :: string
  ct_extra_services :: "string list"
  ct_env :: string
  ct_app_version :: string

record client_state =
  cls_targets_version :: int
  cls_config_states :: "config_state list"
  cls_has_error :: bool
  cls_error :: string
  cls_backend_client_state :: string

record protocol_client =
  pc_id :: string
  pc_products :: "string list"
  pc_client_tracer :: client_tracer
  pc_client_state :: client_state
  pc_capabilities :: u16

record get_configs_request =
  req_client :: protocol_client
  req_cached_target_files :: "cached_target_files list"

text \<open>\<open>hash_list\<close> enumerates an unordered map of hashes.\<close>

definition generate_request ::
  "((string \<rightharpoonup> string) \<Rightarrow> (string \<times> string) list) \<Rightarrow> 'i rc_client \<Rightarrow> get_configs_request" where
  "generate_request hash_list c =
     (let configs = concat (map (\<lambda>(_, p). map snd (product_configs p)) (rcl_products c)) in
      \<lparr>req_client =
         \<lparr>pc_id = rcl_id c, pc_products = map fst (rcl_products c),
          pc_client_tracer =
            \<lparr>ct_runtime_id = pool_get (rcl_ids c), ct_tracer_version = sid_tracer_version (rcl_sid c),
             ct_service = sid_service (rcl_sid c), ct_extra_services = sid_extra_services (rcl_sid c),
             ct_env = sid_env (rcl_sid c), ct_app_version = sid_app_version (rcl_sid c)\<rparr>,
          pc_client_state =
            \<lparr>cls_targets_version = rcl_targets_version c,
             cls_config_states = map (\<lambda>f. \<lparr>cst_id = cfg_id f, cst_version = cfg_config_version f, cst_product = cfg_product f,
               cst_apply_state = cfg_apply_state f, cst_apply_error = cfg_apply_error f\<rparr>) configs,
             cls_has_error = (rcl_last_poll_error c \<noteq> []), cls_error = rcl_last_poll_error c,
             cls_backend_client_state = rcl_opaque_backend_state c\<rparr>,
          pc_capabilities = rcl_capabilities c\<rparr>,
       req_cached_target_files = map (\<lambda>f. \<lparr>ctf_path = cfg_path f, ctf_length = cfg_length f,
         ctf_hashes = hash_list (cfg_hashes f)\<rparr>) configs\<rparr>)"

definition serialize_client_tracer :: "client_tracer \<Rightarrow> json" where
  "serialize_client_tracer t =
     JObject [(''language'', JString ''php''), (''runtime_id'', JString (ct_runtime_id t)),
       (''tracer_version'', JString (ct_tracer_version t)), (''service'', JString (ct_service t)),
       (''env'', JString (ct_env t)), (''app_version'', JString (ct_app_version t)),
       (''extra_services'', JArray (map JString (ct_extra_services t)))]"

fun apply_state_int :: "applied_state \<Rightarrow> int" where
  "apply_state_int UNKNOWN = 0"
| "apply_state_int UNACKNOWLEDGED = 1"
| "apply_state_int ACKNOWLEDGED = 2"
| "apply_state_int ERROR = 3"

definition serialize_config_states :: "config_state list \<Rightarrow> json" where
  "serialize_config_states config_states =
     JArray (map (\<lambda>s. JObject [(''id'', JString (cst_id s)), (''version'', JInt (cst_version s)),
       (''product'', JString (cst_product s)), (''apply_state'', JInt (apply_state_int (cst_apply_state s))),
       (''apply_error'', JString (cst_apply_error s))]) config_states)"

definition serialize_client_state :: "client_state \<Rightarrow> json" where
  "serialize_client_state s =
     JObject [(''targets_version'', JInt (cls_targets_version s)), (''root_version'', JInt 1),
       (''has_error'', if cls_has_error s then JTrue else JFalse), (''error'', JString (cls_error s)),
       (''backend_client_state'', JString (cls_backend_client_state s)),
       (''config_states'', serialize_config_states (cls_config_states s))]"

text \<open>The capabilities are two bytes, the high one first.\<close>

definition capabilities_bytes :: "u16 \<Rightarrow> string" where
  "capabilities_bytes caps =
     [char_of (unat (drop_bit 8 caps)), char_of (unat (caps AND 0x00FF))]"

definition serialize_client :: "(string \<Rightarrow> string) \<Rightarrow> protocol_client \<Rightarrow> json" where
  "serialize_client base64_encode c =
     JObject [(''id'', JString (pc_id c)), (''is_tracer'', JTrue),
       (''capabilities'', JString (base64_encode (capabilities_bytes (pc_capabilities c)))),
       (''products'', JArray (map JString (pc_products c))),
       (''client_tracer'', serialize_client_tracer (pc_client_tracer c)),
       (''state'', serialize_client_state (pc_client_state c))]"

definition serialize_cached_target_files :: "cached_target_files list \<Rightarrow> json" where
  "serialize_cached_target_files files =
     JArray (map (\<lambda>f. JObject [(''path'', JString (ctf_path f)), (''length'', JInt (ctf_length f)),
       (''hashes'', JArray (map (\<lambda>(a, h). JObject [(''algorithm'', JString a), (''hash'', JString h)]) (ctf_hashes f)))])
       files)"

definition serialize_request :: "(string \<Rightarrow> string) \<Rightarrow> get_configs_request \<Rightarrow> json" where
  "serialize_request base64_encode r =
     JObject [(''client'', serialize_client base64_encode (req_client r)),
       (''cached_target_files'', serialize_cached_target_files (req_cached_target_files r))]"

section \<open>Polling\<close>

text \<open>
  What the client uses of its surroundings. The two requests to the agent give the body of the answer or
  \<open>None\<close> for a \<open>network_exception\<close>; \<open>http_write\<close> gives \<open>None\<close> when the writer refuses the document.
\<close>

record http_env = rc_env +
  http_get_info :: "string option"
  http_get_configs :: "string \<Rightarrow> string option"
  http_write :: "json \<Rightarrow> string option"
  http_base64_encode :: "string \<Rightarrow> string"
  http_hash_list :: "(string \<rightharpoonup> string) \<Rightarrow> (string \<times> string) list"
  http_order :: "(string \<times> config) list \<Rightarrow> (string \<times> config) list"

text \<open>A call returns, throws a \<open>network_exception\<close>, or leaves in another way.\<close>

datatype 'a polled = Returns 'a | Network_exception | Escapes

definition is_remote_config_available :: "'a http_env_scheme \<Rightarrow> bool polled" where
  "is_remote_config_available env =
     (case http_get_info env of
        None \<Rightarrow> Network_exception
      | Some body \<Rightarrow>
          (case parse_info (rc_parse_doc env) body of
             Undefined \<Rightarrow> Escapes
           | Defined (Inl e) \<Rightarrow> Returns False
           | Defined (Inr endpoints) \<Rightarrow> Returns (''/v0.7/config'' \<in> set endpoints)))"

definition rc_client_poll ::
  "'a http_env_scheme \<Rightarrow> ('i, 'l) responder \<Rightarrow> 'i rc_client \<Rightarrow> 'l \<Rightarrow> (bool \<times> 'i rc_client \<times> 'l) polled" where
  "rc_client_poll env respond c l =
     (if \<not> pool_has_value (rcl_ids c) then Returns (False, c, l)
      else case http_write env (serialize_request (http_base64_encode env) (generate_request (http_hash_list env) c)) of
        None \<Rightarrow> Returns (False, c, l)
      | Some serialized_request \<Rightarrow>
          (case http_get_configs env serialized_request of
             None \<Rightarrow> Network_exception
           | Some body \<Rightarrow>
               (case parse_response (rc_parse_doc env) (rc_base64_decode env) body of
                  Undefined \<Rightarrow> Escapes
                | Defined (Inl e) \<Rightarrow> Returns (False, c, l)
                | Defined (Inr response) \<Rightarrow>
                    (case process_response respond (http_order env) response (c\<lparr>rcl_last_poll_error := []\<rparr>) l of
                       None \<Rightarrow> Escapes
                     | Some r \<Rightarrow> Returns r))))"

section \<open>Laws of products\<close>

text \<open>What a product keeps for a configuration given to it, and whether that is a change.\<close>

definition config_changed :: "(string \<times> config) list \<Rightarrow> string \<Rightarrow> config \<Rightarrow> bool" where
  "config_changed previous name c =
     (case map_of previous name of None \<Rightarrow> True | Some p \<Rightarrow> cfg_hashes c \<noteq> cfg_hashes p)"

definition reconciled :: "(string \<times> config) list \<Rightarrow> string \<Rightarrow> config \<Rightarrow> config" where
  "reconciled previous name c =
     (if config_changed previous name c then c\<lparr>cfg_apply_state := UNACKNOWLEDGED\<rparr> else the (map_of previous name))"

definition removed_configs :: "(string \<times> config) list \<Rightarrow> (string \<times> config) list \<Rightarrow> (string \<times> config) list" where
  "removed_configs previous configs = filter (\<lambda>(name, _). name \<notin> fst ` set configs) previous"

lemma map_of_delete_other: "n \<noteq> name \<Longrightarrow> map_of (AList.delete name m) n = map_of m n"
  by (induction m) auto

lemma delete_removed: "AList.delete name (removed_configs m cs) = removed_configs m ((name, c) # cs)"
  by (induction m) (auto simp: removed_configs_def)

lemma removed_delete: "removed_configs (AList.delete name m) cs = removed_configs m ((name, c) # cs)"
  by (induction m) (auto simp: removed_configs_def)

lemma other_name_unchanged:
  "n \<noteq> name \<Longrightarrow> config_changed (AList.delete name m) n c = config_changed m n c"
  "n \<noteq> name \<Longrightarrow> reconciled (AList.delete name m) n c = reconciled m n c"
  by (simp_all add: config_changed_def reconciled_def map_of_delete_other)

lemma removed_absent: "map_of m name = None \<Longrightarrow> removed_configs m ((name, c) # cs) = removed_configs m cs"
  by (induction m) (auto simp: removed_configs_def split: if_splits)

lemma classify_configs_eq:
  "distinct (map fst configs) \<Longrightarrow>
   classify_configs configs previous acc ch =
     (acc @ map (\<lambda>(n, c). (n, reconciled previous n c)) configs, removed_configs previous configs,
      ch \<or> list_ex (\<lambda>(n, c). config_changed previous n c) configs)"
proof (induction configs previous acc ch rule: classify_configs.induct)
  case (1 previous acc ch)
  then show ?case by (simp add: removed_configs_def case_prod_beta')
next
  case (2 name c cs previous acc ch)
  have fresh: "n \<noteq> name" if "(n, d) \<in> set cs" for n d using 2(4) that by force
  have others1: "map (\<lambda>(n, c). (n, reconciled (AList.delete name previous) n c)) cs =
      map (\<lambda>(n, c). (n, reconciled previous n c)) cs"
    using fresh by (auto simp: other_name_unchanged)
  have others2: "list_ex (\<lambda>(n, c). config_changed (AList.delete name previous) n c) cs =
      list_ex (\<lambda>(n, c). config_changed previous n c) cs"
    using fresh by (intro list_ex_cong) (auto simp: other_name_unchanged)
  show ?case
  proof (cases "map_of previous name")
    case None
    with 2 show ?thesis
      by (simp add: removed_absent reconciled_def [of _ name] config_changed_def [of _ name])
  next
    case (Some p)
    with 2 others1 others2 show ?thesis
      by (auto simp: removed_delete [where c = c] reconciled_def [of _ name] config_changed_def [of _ name])
  qed
qed

text \<open>The calls that a listener gets, in order.\<close>

fun run_listener_calls :: "('i, 'l) responder \<Rightarrow> 'i \<Rightarrow> listener_call list \<Rightarrow> 'l \<Rightarrow> 'l option" where
  "run_listener_calls respond i [] l = Some l"
| "run_listener_calls respond i (c # cs) l = (case respond i c l of None \<Rightarrow> None | Some (_, l) \<Rightarrow> run_listener_calls respond i cs l)"

lemma run_listener_calls_append:
  "run_listener_calls respond i (cs @ ds) l = (case run_listener_calls respond i cs l of None \<Rightarrow> None | Some l \<Rightarrow> run_listener_calls respond i ds l)"
  by (induction cs arbitrary: l) (auto split: option.splits)

definition only_state_differs :: "config \<Rightarrow> config \<Rightarrow> bool" where
  "only_state_differs c d \<longleftrightarrow>
     d = c\<lparr>cfg_apply_state := cfg_apply_state d, cfg_apply_error := cfg_apply_error d\<rparr> \<and>
     cfg_apply_state d \<in> {ACKNOWLEDGED, ERROR}"

lemma only_state_apply_result: "only_state_differs c (apply_result e c)"
  by (auto simp: only_state_differs_def apply_result_def split: option.splits)

lemma call_configs_calls:
  assumes "call_configs (\<lambda>l c. respond i (f c) l) cs l = Some (ds, l')"
  shows "run_listener_calls respond i (map (f \<circ> snd) cs) l = Some l'"
    "list_all2 (\<lambda>(n, c) (m, d). n = m \<and> only_state_differs c d) cs ds"
  using assms
  by (induction "\<lambda>l c. respond i (f c) l" cs l arbitrary: ds rule: call_configs.induct)
    (auto split: option.splits simp: only_state_apply_result)

text \<open>The two ways in which \<open>assign_configs\<close> returns.\<close>

definition reconciled_configs :: "'i product \<Rightarrow> (string \<times> config) list \<Rightarrow> (string \<times> config) list" where
  "reconciled_configs p configs = map (\<lambda>(n, c). (n, reconciled (product_configs p) n c)) configs"

definition configs_change :: "'i product \<Rightarrow> (string \<times> config) list \<Rightarrow> bool" where
  "configs_change p configs \<longleftrightarrow>
     list_ex (\<lambda>(n, c). config_changed (product_configs p) n c) configs \<or>
     removed_configs (product_configs p) configs \<noteq> []"

lemma assign_configs_cases:
  assumes "distinct (map fst configs)" "assign_configs respond order configs p l = Some (p', l')"
  obtains (Called) updated l1 rest where "configs_change p configs"
      "call_configs (\<lambda>l c. respond (product_listener p) (L_update c) l) (order (reconciled_configs p configs)) l =
         Some (updated, l1)"
      "call_configs (\<lambda>l c. respond (product_listener p) (L_unapply c) l)
         (removed_configs (product_configs p) configs) l1 = Some (rest, l')"
      "p' = p\<lparr>product_configs := updated\<rparr>"
  | (Unchanged) "\<not> configs_change p configs" "p' = p\<lparr>product_configs := order (reconciled_configs p configs)\<rparr>" "l' = l"
proof (cases "configs_change p configs")
  case True
  then show thesis using assms(2) Called
    by (auto simp: assign_configs_def classify_configs_eq [OF assms(1)] configs_change_def update_configs_def
      unapply_configs_def reconciled_configs_def split: option.splits)
next
  case False
  then show thesis using assms(2) Unchanged
    by (auto simp: assign_configs_def classify_configs_eq [OF assms(1)] configs_change_def reconciled_configs_def)
qed

text \<open>
  Property C21: assigning configurations to a product leaves it with exactly the given ones, each unchanged
  one as it was before and each new or modified one as given; when anything was added, modified or
  removed the listener is told to update every one of them and then to unapply exactly those that
  are gone, and each one kept is marked as acknowledged or in error; otherwise the listener is not
  called. The hypotheses are that the maps have no repeated keys and that reordering is a permutation.
\<close>

theorem assign_configs_exact:
  assumes "distinct (map fst configs)" "\<And>xs. mset (order xs) = mset xs"
    and "assign_configs respond order configs p l = Some (p', l')"
  shows "if configs_change p configs
    then run_listener_calls respond (product_listener p)
           (map (L_update \<circ> snd) (order (reconciled_configs p configs)) @
            map (L_unapply \<circ> snd) (removed_configs (product_configs p) configs)) l = Some l' \<and>
         list_all2 (\<lambda>(n, c) (m, d). n = m \<and> only_state_differs c d)
           (order (reconciled_configs p configs)) (product_configs p')
    else l' = l \<and> mset (product_configs p') = mset (reconciled_configs p configs)"
  using assms(1,3)
proof (cases rule: assign_configs_cases)
  case (Called updated l1 rest)
  from call_configs_calls [where respond = respond and f = L_update, OF Called(2)]
    call_configs_calls(1) [where respond = respond and f = L_unapply, OF Called(3)]
  show ?thesis using Called by (simp add: run_listener_calls_append)
next
  case Unchanged
  then show ?thesis using assms(2) by simp
qed

definition sample_rc_config :: "string \<Rightarrow> string \<Rightarrow> config" where
  "sample_rc_config product rid =
     \<lparr>cfg_product = product, cfg_id = rid, cfg_contents = ''e30'', cfg_path = [], cfg_hashes = Map.empty, cfg_config_version = 1,
      cfg_length = 2, cfg_apply_state = UNKNOWN, cfg_apply_error = []\<rparr>"

lemma assign_configs_exact_witness:
  "run_listener_calls (\<lambda>i c l. Some (None, l @ [c])) ()
     (map (L_update \<circ> snd) [(''b'', (sample_rc_config ''ASM'' ''b'')\<lparr>cfg_apply_state := UNACKNOWLEDGED\<rparr>)] @
      map (L_unapply \<circ> snd) [(''a'', sample_rc_config ''ASM'' ''a'')]) [] =
   Some [L_update ((sample_rc_config ''ASM'' ''b'')\<lparr>cfg_apply_state := UNACKNOWLEDGED\<rparr>), L_unapply (sample_rc_config ''ASM'' ''a'')]"
proof -
  let ?p = "\<lparr>product_name = ''ASM'', product_configs = [(''a'', sample_rc_config ''ASM'' ''a'')], product_listener = ()\<rparr>"
  let ?r = "\<lambda>i c l. Some (None, l @ [c])"
  have r: "assign_configs ?r id [(''b'', sample_rc_config ''ASM'' ''b'')] ?p [] =
      Some (?p\<lparr>product_configs := [(''b'', apply_result None ((sample_rc_config ''ASM'' ''b'')\<lparr>cfg_apply_state := UNACKNOWLEDGED\<rparr>))]\<rparr>,
        [L_update ((sample_rc_config ''ASM'' ''b'')\<lparr>cfg_apply_state := UNACKNOWLEDGED\<rparr>), L_unapply (sample_rc_config ''ASM'' ''a'')])"
    by (simp add: assign_configs_def update_configs_def unapply_configs_def)
  have "configs_change ?p [(''b'', sample_rc_config ''ASM'' ''b'')]" by (simp add: configs_change_def config_changed_def)
  with assign_configs_exact [OF _ _ r] show ?thesis
    by (simp add: reconciled_configs_def removed_configs_def reconciled_def config_changed_def)
qed

lemma call_configs_keys: "call_configs call cs l = Some (ds, l') \<Longrightarrow> map fst ds = map fst cs"
  by (induction call cs l arbitrary: ds rule: call_configs.induct) (auto split: option.splits)

lemma assign_configs_keys:
  assumes "distinct (map fst configs)" "\<And>xs. mset (order xs) = mset xs"
    and "assign_configs respond order configs p l = Some (p', l')"
  shows "fst ` set (product_configs p') = fst ` set configs"
proof -
  have "set (order (reconciled_configs p configs)) = set (reconciled_configs p configs)"
    by (rule mset_eq_setD [OF assms(2)])
  then have keys: "fst ` set (order (reconciled_configs p configs)) = fst ` set configs"
    by (force simp: reconciled_configs_def image_iff)
  from assms(1,3) show ?thesis
  proof (cases rule: assign_configs_cases)
    case (Called updated l1 rest)
    from call_configs_keys [OF Called(2)] have "fst ` set updated = fst ` set configs"
      unfolding keys [symmetric] by (metis list.set_map)
    then show ?thesis by (simp add: Called)
  next
    case Unchanged
    then show ?thesis by (simp add: keys)
  qed
qed

section \<open>Laws of responses\<close>

text \<open>
  The configurations collected so far: without repeated keys, and with an entry for exactly the products and
  identifiers that the paths name.
\<close>

definition collected :: "string set \<Rightarrow> (string \<times> (string \<times> config) list) list \<Rightarrow> bool" where
  "collected paths configs \<longleftrightarrow>
     (\<forall>product cs. map_of configs product = Some cs \<longrightarrow> distinct (map fst cs)) \<and>
     (\<forall>product rid. (\<exists>path \<in> paths. from_path path = Some (rid, product)) \<longleftrightarrow>
        (\<exists>cs. map_of configs product = Some cs \<and> rid \<in> fst ` set cs))"

lemma map_of_None_alist: "map_of m k = None \<longleftrightarrow> k \<notin> fst ` set m"
  by (rule map_of_eq_None_iff)

lemma alist_emplace_keys:
  "fst ` set (alist_emplace k v m) = insert k (fst ` set m)"
  "distinct (map fst m) \<Longrightarrow> distinct (map fst (alist_emplace k v m))"
  by (auto simp: alist_emplace_def map_of_None_alist domIff dest: map_of_SomeD intro: rev_image_eqI)

lemma map_of_add_config:
  "map_of (add_config product rid c configs) =
     (map_of configs)(product \<mapsto>
       (case map_of configs product of None \<Rightarrow> [(rid, c)] | Some cs \<Rightarrow> alist_emplace rid c cs))"
  by (auto simp: add_config_def update_conv map_of_append map_add_def fun_eq_iff split: option.splits)

lemma collected_add:
  assumes "collected paths configs" "from_path path = Some (rid, product)"
  shows "collected (insert path paths) (add_config product rid c configs)"
  using assms unfolding collected_def map_of_add_config
  by (auto simp: alist_emplace_keys split: option.splits if_splits)

lemma path_config_Inr:
  "path_config products response tg path = Inr (product, rid, c) \<Longrightarrow> from_path path = Some (rid, product)"
  by (auto simp: path_config_def split: option.splits prod.splits)

lemma path_config_Inl: "path_config products response tg path = Inl e \<Longrightarrow> e \<noteq> []"
  by (auto simp: path_config_def split: option.splits prod.splits)

lemma collect_configs_collected:
  "collect_configs products response tg paths configs = Inr configs' \<Longrightarrow> collected seen configs \<Longrightarrow>
   collected (seen \<union> set paths) configs'"
proof (induction paths arbitrary: configs seen)
  case (Cons path paths)
  then obtain product rid c where c: "path_config products response tg path = Inr (product, rid, c)"
      "collect_configs products response tg paths (add_config product rid c configs) = Inr configs'"
    by (auto split: sum.splits prod.splits)
  have "collected (insert path seen) (add_config product rid c configs)"
    by (rule collected_add [OF Cons.prems(2) path_config_Inr [OF c(1)]])
  from Cons.IH [OF c(2) this] show ?case by simp
qed simp

lemma collect_configs_error: "collect_configs products response tg paths configs = Inl e \<Longrightarrow> e \<noteq> []"
  by (induction paths arbitrary: configs) (auto split: sum.splits dest: path_config_Inl)

lemma assign_products_keys:
  assumes "\<And>name cs. map_of configs name = Some cs \<Longrightarrow> distinct (map fst cs)" "\<And>xs. mset (order xs) = mset xs"
    and "assign_products respond order configs ps l = Some (ps', l')"
  shows "map fst ps' = map fst ps \<and> (\<forall>(name, p) \<in> set ps'. fst ` set (product_configs p) =
    (case map_of configs name of Some cs \<Rightarrow> fst ` set cs | None \<Rightarrow> {}))"
  using assms(3)
proof (induction ps arbitrary: l ps')
  case (Cons np ps)
  obtain name p where np: "np = (name, p)" by fastforce
  let ?cs = "case map_of configs name of Some cs \<Rightarrow> cs | None \<Rightarrow> []"
  from Cons.prems obtain p1 l1 ps1 where a: "assign_configs respond order ?cs p l = Some (p1, l1)"
      "assign_products respond order configs ps l1 = Some (ps1, l')" "ps' = (name, p1) # ps1"
    by (auto simp: np split: option.splits)
  have "distinct (map fst ?cs)" using assms(1) by (auto split: option.splits)
  from assign_configs_keys [OF this assms(2) a(1)] Cons.IH [OF a(2)] show ?case
    by (auto simp: a(3) np split: option.splits)
qed simp

text \<open>
  Property C12: a response is applied as a whole or not at all. When a path is malformed, not requested or
  without a file, nothing changes but the error reported with the next request, and no listener is
  called; otherwise the version and state of the targets are taken over and every product has exactly
  the configurations whose paths the response lists for it.
\<close>

theorem process_response_atomic:
  assumes "\<And>xs. mset (order xs) = mset xs" "response_targets response = Some tg"
    and "process_response respond order response c l = Some (ok, c', l')"
  shows "if ok
    then rcl_targets_version c' = targets_version tg \<and>
         rcl_opaque_backend_state c' = opaque_backend_state tg \<and>
         rcl_last_poll_error c' = rcl_last_poll_error c \<and>
         map fst (rcl_products c') = map fst (rcl_products c) \<and>
         (\<forall>(name, p) \<in> set (rcl_products c').
            fst ` set (product_configs p) =
              {rid. \<exists>path \<in> set (client_configs response). from_path path = Some (rid, name)})
    else l' = l \<and> rcl_last_poll_error c' \<noteq> [] \<and> c' = c\<lparr>rcl_last_poll_error := rcl_last_poll_error c'\<rparr>"
proof (cases "collect_configs (rcl_products c) response tg (client_configs response) []")
  case (Inl e)
  then show ?thesis using assms(2,3) collect_configs_error [OF Inl] by (auto simp: process_response_def)
next
  case (Inr configs)
  have col: "collected (set (client_configs response)) configs"
    using collect_configs_collected [OF Inr, of "{}"] by (simp add: collected_def)
  from assms(2,3) Inr obtain l1 ps l2 where a: "assign_products respond order configs (rcl_products c) l1 = Some (ps, l2)"
      "ok" "c' = c\<lparr>rcl_products := ps, rcl_targets_version := targets_version tg,
        rcl_opaque_backend_state := opaque_backend_state tg\<rparr>"
    by (auto simp: process_response_def split: option.splits)
  have ids: "(case map_of configs name of Some cs \<Rightarrow> fst ` set cs | None \<Rightarrow> {}) =
      {rid. \<exists>path \<in> set (client_configs response). from_path path = Some (rid, name)}" for name
    using col unfolding collected_def by (cases "map_of configs name") auto
  have "\<And>name cs. map_of configs name = Some cs \<Longrightarrow> distinct (map fst cs)" using col by (simp add: collected_def)
  from assign_products_keys [OF this assms(1) a(1)] show ?thesis by (simp add: a ids)
qed

lemma process_response_atomic_witness:
  "case process_response (\<lambda>i c l. Some (None, l @ [c])) id
     \<lparr>target_files = Map.empty, client_configs = [''x''], response_targets = Some \<lparr>targets_version = 1,
       opaque_backend_state = ''s'', targets_paths = Map.empty\<rparr>\<rparr>
     (new_rc_client ''id'' \<lparr>sid_service = [], sid_extra_services = [], sid_env = [], sid_tracer_version = [],
       sid_app_version = [], sid_runtime_id = []\<rparr> (\<lambda>_. [(''ASM'', 16)]) [()]) [] of
     Some (ok, c', l') \<Rightarrow> \<not> ok \<and> l' = [] \<and> rcl_last_poll_error c' \<noteq> []
   | None \<Rightarrow> False"
proof -
  let ?tg = "\<lparr>targets_version = 1, opaque_backend_state = ''s'', targets_paths = Map.empty\<rparr>"
  let ?resp = "\<lparr>target_files = Map.empty, client_configs = [''x''], response_targets = Some ?tg\<rparr>"
  let ?c = "new_rc_client ''id'' \<lparr>sid_service = [], sid_extra_services = [], sid_env = [], sid_tracer_version = [],
    sid_app_version = [], sid_runtime_id = []\<rparr> (\<lambda>_. [(''ASM'', 16)]) [()]"
  let ?r = "\<lambda>i c l. Some (None, l @ [c])"
  have r: "process_response ?r id ?resp ?c [] = Some (False, ?c\<lparr>rcl_last_poll_error := ''error parsing path x''\<rparr>, [])"
    by (simp add: process_response_def path_config_def from_path_def)
  from process_response_atomic [OF _ _ r, of ?tg] show ?thesis by (simp add: r)
qed

section \<open>The listeners of the helper\<close>

datatype rc_listener = Asm_features_listener | Engine_listener

record rc_listeners =
  ls_status :: enable_asm_status
  ls_engine :: engine_listener

text \<open>Each listener answers with its own operations; the features listener has nothing to begin or commit.\<close>

fun listener_respond :: "'a rc_env_scheme \<Rightarrow> string list \<Rightarrow> (rc_listener, rc_listeners) responder" where
  "listener_respond env agg_order Asm_features_listener call s =
     (case call of
        L_update c \<Rightarrow> map_option (\<lambda>(e, st). (e, s\<lparr>ls_status := st\<rparr>)) (asm_features_on_update env c (ls_status s))
      | L_unapply c \<Rightarrow> Some (None, s\<lparr>ls_status := asm_features_on_unapply (ls_status s)\<rparr>)
      | _ \<Rightarrow> Some (None, s))"
| "listener_respond env agg_order Engine_listener call s =
     (case call of
        L_init \<Rightarrow> Some (None, s\<lparr>ls_engine := engine_listener_init (ls_engine s)\<rparr>)
      | L_update c \<Rightarrow> map_option (\<lambda>(e, el). (e, s\<lparr>ls_engine := el\<rparr>)) (engine_listener_on_update env c (ls_engine s))
      | L_unapply c \<Rightarrow> map_option (\<lambda>(e, el). (e, s\<lparr>ls_engine := el\<rparr>)) (engine_listener_on_unapply env c (ls_engine s))
      | L_commit \<Rightarrow> map_option (\<lambda>el. (None, s\<lparr>ls_engine := el\<rparr>)) (engine_listener_commit agg_order (ls_engine s)))"

fun supported_products :: "rc_listener \<Rightarrow> (string \<times> u16) list" where
  "supported_products Asm_features_listener = [(''ASM_FEATURES'', 2)]"
| "supported_products Engine_listener =
     [(''ASM'', 16 OR 512 OR 32 OR 64 OR 256 OR 1024), (''ASM_DD'', 8), (''ASM_DATA'', 4 OR 128)]"

text \<open>\<open>client_handler::from_settings\<close>: the listeners of a service, or no remote configuration at all.\<close>

definition handler_listeners :: "bool \<Rightarrow> bool \<Rightarrow> string \<Rightarrow> rc_listener list option" where
  "handler_listeners enabled dynamic_enablement rules_file =
     (if \<not> enabled then None
      else let listeners = (if dynamic_enablement then [Asm_features_listener] else []) @
                 (if rules_file = [] then [Engine_listener] else []) in
        if listeners = [] then None else Some listeners)"



section \<open>The handler\<close>

datatype rc_action = Discover | Poll

record client_handler =
  ch_poll_interval :: nat
  ch_interval :: nat
  ch_errors :: u16
  ch_action :: rc_action

text \<open>Intervals are in milliseconds; the longest is five minutes.\<close>

definition max_interval :: nat where
  "max_interval = 5 * 60 * 1000"

definition new_client_handler :: "nat \<Rightarrow> client_handler" where
  "new_client_handler poll_interval =
     \<lparr>ch_poll_interval = poll_interval, ch_interval = poll_interval, ch_errors = 0, ch_action = Discover\<rparr>"

text \<open>
  The product of the interval with \<open>pow(2, errors_)\<close> is computed in floating point, exactly unless the power
  is infinite, and then converted to a 64-bit integer, which it has to fit.
\<close>

definition scaled_interval :: "nat \<Rightarrow> nat \<Rightarrow> nat outcome" where
  "scaled_interval poll_interval errors =
     (if errors < 1024 \<and> poll_interval * 2 ^ errors < 2 ^ 63 then Defined (poll_interval * 2 ^ errors) else Undefined)"

definition handle_error :: "client_handler \<Rightarrow> client_handler outcome" where
  "handle_error h =
     (let errors = (if ch_errors h < 65534 then ch_errors h + 1 else ch_errors h);
          h = h\<lparr>ch_action := Discover, ch_errors := errors\<rparr> in
      if ch_interval h < max_interval then
        (case scaled_interval (ch_poll_interval h) (unat errors) of
           Undefined \<Rightarrow> Undefined
         | Defined new_interval \<Rightarrow> Defined (h\<lparr>ch_interval := min max_interval new_interval\<rparr>))
      else Defined h)"

text \<open>\<open>discover\<close> and \<open>poll\<close>, given what the call of the client does; \<open>None\<close> where that leaves otherwise.\<close>

definition handler_discover :: "bool polled \<Rightarrow> client_handler \<Rightarrow> client_handler outcome option" where
  "handler_discover r h =
     (case r of
        Returns True \<Rightarrow> Some (Defined (h\<lparr>ch_action := Poll, ch_errors := 0, ch_interval := ch_poll_interval h\<rparr>))
      | Returns False \<Rightarrow> Some (handle_error h)
      | Network_exception \<Rightarrow> Some (handle_error h)
      | Escapes \<Rightarrow> None)"

definition handler_poll :: "'a polled \<Rightarrow> client_handler \<Rightarrow> client_handler outcome option" where
  "handler_poll r h =
     (case r of
        Returns _ \<Rightarrow> Some (Defined h)
      | Network_exception \<Rightarrow> Some (handle_error h)
      | Escapes \<Rightarrow> None)"

text \<open>\<open>tick\<close> on the state of the handler, the client and the listeners.\<close>

definition handler_tick ::
  "'a http_env_scheme \<Rightarrow> ('i, 'l) responder \<Rightarrow> client_handler \<Rightarrow> 'i rc_client \<Rightarrow> 'l \<Rightarrow>
   (client_handler outcome \<times> 'i rc_client \<times> 'l) option" where
  "handler_tick env respond h c l =
     (case ch_action h of
        Discover \<Rightarrow> map_option (\<lambda>h. (h, c, l)) (handler_discover (is_remote_config_available env) h)
      | Poll \<Rightarrow>
          (let r = rc_client_poll env respond c l in
           map_option (\<lambda>h. case r of Returns (_, c, l) \<Rightarrow> (h, c, l) | _ \<Rightarrow> (h, c, l)) (handler_poll r h)))"

text \<open>One tick, seen from the handler alone, and the states that ticks reach.\<close>

definition handler_step :: "bool polled \<Rightarrow> client_handler \<Rightarrow> client_handler outcome option" where
  "handler_step r h = (case ch_action h of Discover \<Rightarrow> handler_discover r h | Poll \<Rightarrow> handler_poll r h)"

inductive handler_reachable :: "nat \<Rightarrow> client_handler \<Rightarrow> bool" for poll_interval where
  start: "handler_reachable poll_interval (new_client_handler poll_interval)"
| tick: "handler_reachable poll_interval h \<Longrightarrow> handler_step r h = Some (Defined h') \<Longrightarrow>
    handler_reachable poll_interval h'"

lemma handler_tick_step:
  assumes "handler_tick env respond h c l = Some (r, c', l')"
  shows "\<exists>p. handler_step p h = Some r"
proof (cases "ch_action h")
  case Discover
  with assms show ?thesis by (auto simp: handler_tick_def handler_step_def)
next
  case Poll
  let ?r = "rc_client_poll env respond c l"
  have "handler_poll (case ?r of Returns _ \<Rightarrow> Returns True | Network_exception \<Rightarrow> Network_exception | Escapes \<Rightarrow> Escapes) h =
      handler_poll ?r h"
    by (simp add: handler_poll_def split: polled.splits)
  with assms Poll show ?thesis
    by (auto simp: handler_tick_def handler_step_def Let_def split: polled.splits prod.splits)
qed

text \<open>The interval after a number of failures in a row.\<close>

definition backoff_interval :: "nat \<Rightarrow> nat \<Rightarrow> nat" where
  "backoff_interval poll_interval failures =
     (if poll_interval < max_interval then min max_interval (poll_interval * 2 ^ failures) else poll_interval)"

definition handler_inv :: "nat \<Rightarrow> client_handler \<Rightarrow> bool" where
  "handler_inv poll_interval h \<longleftrightarrow>
     ch_poll_interval h = poll_interval \<and> ch_interval h = backoff_interval poll_interval (unat (ch_errors h)) \<and>
     (ch_action h = Poll \<longrightarrow> ch_errors h = 0)"

lemma backoff_zero: "backoff_interval p 0 = p"
  by (simp add: backoff_interval_def)

lemma backoff_reached:
  assumes "max_interval \<le> backoff_interval p n" "n \<le> m"
  shows "backoff_interval p m = backoff_interval p n"
proof -
  have "p * 2 ^ n \<le> p * 2 ^ m" using assms(2) by (intro mult_le_mono2 power_increasing) auto
  then have "max_interval \<le> p * 2 ^ m" if "max_interval \<le> p * 2 ^ n" using that by (rule le_trans [rotated])
  with assms(1) show ?thesis by (auto simp: backoff_interval_def min_def split: if_splits)
qed

lemma small_backoff:
  assumes "backoff_interval p n < max_interval" "0 < p"
  shows "n < 19" "p * 2 ^ Suc n < 2 ^ 20" "backoff_interval p (Suc n) = min max_interval (p * 2 ^ Suc n)"
proof -
  have p: "p < max_interval" "p * 2 ^ n < max_interval"
    using assms by (auto simp: backoff_interval_def split: if_splits)
  have "2 ^ n \<le> p * 2 ^ n" using assms(2) by simp
  also have "\<dots> < 2 ^ 19" using p(2) by (simp add: max_interval_def)
  finally have "(2 :: nat) ^ n < 2 ^ 19" .
  then show "n < 19" by (rule power_less_imp_less_exp [rotated]) simp
  show "p * 2 ^ Suc n < 2 ^ 20" using p(2) by (simp add: max_interval_def)
  show "backoff_interval p (Suc n) = min max_interval (p * 2 ^ Suc n)" using p(1) by (simp add: backoff_interval_def)
qed

lemma handle_error_inv:
  assumes "handler_inv p h" "0 < p"
  shows "\<exists>h'. handle_error h = Defined h' \<and> handler_inv p h'"
proof -
  define n errors where n: "n = unat (ch_errors h)" "errors = (if ch_errors h < 65534 then ch_errors h + 1 else ch_errors h)"
  have pi: "ch_poll_interval h = p" and iv: "ch_interval h = backoff_interval p n"
    using assms(1) by (simp_all add: handler_inv_def n)
  have e: "unat errors = (if n < 65534 then Suc n else n)"
    by (auto simp: n word_less_nat_alt unat_word_ariths)
  show ?thesis
  proof (cases "backoff_interval p n < max_interval")
    case True
    note small = small_backoff [OF this assms(2)]
    then have "unat errors = Suc n" using e by simp
    moreover have "scaled_interval p (Suc n) = Defined (p * 2 ^ Suc n)"
      using small(1,2) by (simp add: scaled_interval_def)
    ultimately show ?thesis using True small(3) pi iv
      by (simp add: handle_error_def Let_def handler_inv_def flip: n(2))
  next
    case False
    have "backoff_interval p (unat errors) = backoff_interval p n"
      using False e by (intro backoff_reached) auto
    then show ?thesis using False pi iv by (simp add: handle_error_def Let_def handler_inv_def flip: n(2))
  qed
qed

lemma handler_step_inv:
  assumes "handler_inv p h" "0 < p" "handler_step r h = Some x"
  shows "\<exists>h'. x = Defined h' \<and> handler_inv p h'"
proof -
  obtain h1 where h1: "handle_error h = Defined h1" "handler_inv p h1" using handle_error_inv [OF assms(1,2)] by blast
  have ok: "handler_inv p (h\<lparr>ch_action := Poll, ch_errors := 0, ch_interval := ch_poll_interval h\<rparr>)"
    using assms(1) by (simp add: handler_inv_def backoff_zero)
  show ?thesis using assms(1,3) h1(2) ok
    by (cases "ch_action h"; cases r)
      (auto simp: handler_step_def handler_discover_def handler_poll_def h1(1) split: bool.splits)
qed

lemma handler_reachable_inv: "handler_reachable p h \<Longrightarrow> 0 < p \<Longrightarrow> handler_inv p h"
proof (induction rule: handler_reachable.induct)
  case start
  then show ?case by (simp add: handler_inv_def new_client_handler_def backoff_zero)
next
  case (tick h r h')
  then show ?case using handler_step_inv by blast
qed



text \<open>With a poll interval of zero the conversion is undefined after 1024 failures in a row.\<close>

lemma zero_poll_interval:
  assumes "ch_poll_interval h = 0" "ch_interval h = 0" "unat (ch_errors h) = 1023"
  shows "handle_error h = Undefined"
proof -
  have "ch_errors h = of_nat 1023" unfolding assms(3) [symmetric] by simp
  with assms show ?thesis by (simp add: handle_error_def max_interval_def scaled_interval_def Let_def)
qed

end
