(* ===== verification/Helper_Engine.thy ===== *)
theory Helper_Engine
  imports Json Helper_Limits "HOL-Library.AList"
begin

text \<open>
  The engine of the helper: src/helper/engine.cpp, engine.hpp, engine\_ruleset.cpp and subscriber/base.hpp.

  A subscriber is an object behind an interface. Here the interface is the record \<open>subscriber_api\<close>, over any
  type of subscribers and of their listeners; subscriber/waf.cpp provides it. A call that throws gives
  \<open>Inl\<close>. An engine is shared by the requests of a service; a request has a context, which keeps the
  actions and subscribers that the engine had when it was created.
\<close>

section \<open>Actions\<close>

datatype action_type = Record_action | Redirect_action | Block_action

record action =
  act_type :: action_type
  act_parameters :: "string \<rightharpoonup> string"

type_synonym action_map = "string \<rightharpoonup> action"

definition default_actions :: action_map where
  "default_actions =
     [''block'' \<mapsto> \<lparr>act_type = Block_action,
        act_parameters = [''status_code'' \<mapsto> ''403'', ''type'' \<mapsto> ''auto'']\<rparr>]"

text \<open>\<open>std::to_string\<close> of a double is the parameter \<open>dtoa\<close>. Only these types of values become parameters.\<close>

definition action_parameter :: "(u64 \<Rightarrow> string) \<Rightarrow> json \<Rightarrow> string option" where
  "action_parameter dtoa v =
     (case v of
        JString s \<Rightarrow> Some (c_str s)
      | JInt i \<Rightarrow> Some (if is_uint64 i then nat_dec (nat i) else if is_int64 i then int_dec i else [])
      | JDouble d \<Rightarrow> Some (dtoa d)
      | JTrue \<Rightarrow> Some ''true''
      | JFalse \<Rightarrow> Some ''false''
      | _ \<Rightarrow> None)"

definition parse_action :: "(u64 \<Rightarrow> string) \<Rightarrow> (string \<times> json) list \<Rightarrow> string + action" where
  "parse_action dtoa action_object =
     (case map_of action_object ''type'' of
        Some (JString t) \<Rightarrow>
          (let ty = c_str t in
           if ty = ''block_request'' \<or> ty = ''redirect_request'' then
             (case map_of action_object ''parameters'' of
                Some (JObject ps) \<Rightarrow>
                  Inr \<lparr>act_type = (if ty = ''block_request'' then Block_action else Redirect_action),
                       act_parameters = foldl (\<lambda>m (k, v). case action_parameter dtoa v of
                           None \<Rightarrow> m | Some s \<Rightarrow> m(c_str k \<mapsto> s)) Map.empty ps\<rparr>
              | _ \<Rightarrow> Inl ''no action.parameters found or unexpected type'')
           else Inl (''unknown action.type '' @ ty @ '' only block_request supported''))
      | _ \<Rightarrow> Inl ''no action.type found or unexpected type'')"

fun parse_actions_loop :: "(u64 \<Rightarrow> string) \<Rightarrow> json list \<Rightarrow> action_map \<Rightarrow> action_map" where
  "parse_actions_loop dtoa [] actions = actions"
| "parse_actions_loop dtoa (v # vs) actions =
     (case v of
        JObject ms \<Rightarrow>
          (case map_of ms ''id'' of
             Some (JString i) \<Rightarrow>
               (case parse_action dtoa ms of
                  Inl e \<Rightarrow> parse_actions_loop dtoa vs actions
                | Inr a \<Rightarrow> parse_actions_loop dtoa vs (actions(c_str i \<mapsto> a)))
           | _ \<Rightarrow> parse_actions_loop dtoa vs actions)
      | _ \<Rightarrow> parse_actions_loop dtoa vs actions)"

definition parse_actions :: "(u64 \<Rightarrow> string) \<Rightarrow> json \<Rightarrow> action_map \<Rightarrow> action_map" where
  "parse_actions dtoa doc defaults =
     (case map_of (case doc of JObject ms \<Rightarrow> ms | _ \<Rightarrow> []) ''actions'' of
        Some (JArray vs) \<Rightarrow> parse_actions_loop dtoa vs defaults
      | _ \<Rightarrow> defaults)"

section \<open>Subscribers\<close>

record event =
  ev_data :: "string list"
  ev_actions :: "string list"
  ev_schemas :: "(string \<times> string) list"

type_synonym meta = "string \<rightharpoonup> string"
type_synonym metrics = "string \<rightharpoonup> real"

datatype exn = Internal_error | Timeout_error | Invalid_object string | Invalid_argument | Parsing_error string
  | System_error string | Runtime_error string

record ('s, 'l) subscriber_api =
  sub_get_listener :: "'s \<Rightarrow> 'l"
  sub_update :: "'s \<Rightarrow> param \<Rightarrow> meta \<times> metrics \<Rightarrow> (exn + 's) \<times> meta \<times> metrics"
  lst_call :: "'l \<Rightarrow> param \<Rightarrow> (exn + event option) \<times> 'l"
  lst_meta_and_metrics :: "'l \<Rightarrow> meta \<times> metrics \<Rightarrow> meta \<times> metrics"

section \<open>The engine\<close>

record 's shared_state =
  subscribers :: "'s list"
  actions :: action_map

record 's engine =
  eng_common :: "'s shared_state"
  eng_limiter :: rate_limiter

definition engine_create :: "u32 \<Rightarrow> action_map \<Rightarrow> 's engine" where
  "engine_create trace_rate_limit acts =
     \<lparr>eng_common = \<lparr>subscribers = [], actions = acts\<rparr>, eng_limiter = new_rate_limiter trace_rate_limit\<rparr>"

definition subscribe :: "'s \<Rightarrow> 's engine \<Rightarrow> 's engine" where
  "subscribe sub e = e\<lparr>eng_common := (eng_common e)\<lparr>subscribers := subscribers (eng_common e) @ [sub]\<rparr>\<rparr>"

text \<open>
  \<open>update\<close>: the ruleset is converted once for all subscribers; \<open>None\<close> when that is undefined. The test for no
  actions is that of the code.
\<close>

fun update_subscribers ::
  "('s, 'l) subscriber_api \<Rightarrow> param \<Rightarrow> 's list \<Rightarrow> meta \<times> metrics \<Rightarrow> 's list \<times> meta \<times> metrics" where
  "update_subscribers api p [] m = ([], m)"
| "update_subscribers api p (sub # subs) m =
     (let (r, m) = sub_update api sub p m; (subs, m) = update_subscribers api p subs m in
      ((case r of Inl _ \<Rightarrow> sub | Inr new \<Rightarrow> new) # subs, m))"

definition engine_update ::
  "('s, 'l) subscriber_api \<Rightarrow> (u64 \<Rightarrow> string) \<Rightarrow> json \<Rightarrow> meta \<times> metrics \<Rightarrow> 's engine \<Rightarrow> ('s engine \<times> meta \<times> metrics) option" where
  "engine_update api dtoa ruleset m e =
     (let new_actions = parse_actions dtoa ruleset default_actions;
          new_actions = (if new_actions = Map.empty then actions (eng_common e) else new_actions) in
      case json_to_parameter ruleset of
        Undefined \<Rightarrow> None
      | Defined p \<Rightarrow>
          (let (subs, m) = update_subscribers api p (subscribers (eng_common e)) m in
           Some (e\<lparr>eng_common := \<lparr>subscribers = subs, actions = new_actions\<rparr>\<rparr>, m)))"

text \<open>
  Rulesets. \<open>read_file\<close> gives the text of a file or the message of a \<open>system_error\<close>. The processors and
  scanners added to a ruleset that is read from a file come from a literal, whose parsed form is the
  parameter \<open>additions\<close>.
\<close>

definition new_engine_ruleset :: "(string \<Rightarrow> json option) \<Rightarrow> string \<Rightarrow> exn + json" where
  "new_engine_ruleset parse_doc ruleset =
     (case parse_doc ruleset of
        Some (JObject ms) \<Rightarrow> Inr (JObject ms)
      | _ \<Rightarrow> Inl (Parsing_error ''invalid json rule''))"

definition add_default_processors_and_scanners :: "json option \<Rightarrow> json \<Rightarrow> json" where
  "add_default_processors_and_scanners additions doc =
     (case (additions, doc) of
        (Some (JObject as), JObject ms) \<Rightarrow>
          (case map_of as ''processors'' of
             None \<Rightarrow> doc
           | Some ps \<Rightarrow>
               (case map_of as ''scanners'' of
                  None \<Rightarrow> JObject (ms @ [(''processors'', ps)])
                | Some sc \<Rightarrow> JObject (ms @ [(''processors'', ps), (''scanners'', sc)])))
      | _ \<Rightarrow> doc)"

definition engine_ruleset_from_path ::
  "(string \<Rightarrow> string + string) \<Rightarrow> (string \<Rightarrow> json option) \<Rightarrow> json option \<Rightarrow> string \<Rightarrow> exn + json" where
  "engine_ruleset_from_path read_file parse_doc additions path =
     (case read_file path of
        Inl e \<Rightarrow> Inl (System_error e)
      | Inr contents \<Rightarrow>
          (case new_engine_ruleset parse_doc contents of
             Inl e \<Rightarrow> Inl e
           | Inr doc \<Rightarrow> Inr (add_default_processors_and_scanners additions doc)))"

section \<open>Publishing\<close>

text \<open>
  The context of a request. \<open>listeners_\<close> is a map ordered by the addresses of subscribers; here it is the
  list of its entries, and the only thing done in its order is the collection of tags.
\<close>

record ('s, 'l) engine_context =
  ctx_prev_published_params :: "param list"
  ctx_listeners :: "('s \<times> 'l) list"
  ctx_common :: "'s shared_state"

definition new_context :: "'s engine \<Rightarrow> ('s, 'l) engine_context" where
  "new_context e = \<lparr>ctx_prev_published_params = [], ctx_listeners = [], ctx_common = eng_common e\<rparr>"

record engine_result =
  res_type :: action_type
  res_parameters :: "string \<rightharpoonup> string"
  res_events :: "string list"
  res_schemas :: "(string \<times> string) list"
  res_force_keep :: bool

text \<open>Merging into a set and into a map, where what is there stays.\<close>

definition set_merge :: "string list \<Rightarrow> string list \<Rightarrow> string list" where
  "set_merge xs ys = foldl (\<lambda>xs y. if y \<in> set xs then xs else xs @ [y]) xs ys"

definition map_merge :: "(string \<times> string) list \<Rightarrow> (string \<times> string) list \<Rightarrow> (string \<times> string) list" where
  "map_merge m n = foldl (\<lambda>m (k, v). if map_of m k = None then m @ [(k, v)] else m) m n"

definition merge_event :: "event option \<Rightarrow> event \<Rightarrow> event" where
  "merge_event e acc =
     (case e of
        None \<Rightarrow> acc
      | Some e \<Rightarrow> \<lparr>ev_data = ev_data acc @ ev_data e, ev_actions = set_merge (ev_actions acc) (ev_actions e),
          ev_schemas = map_merge (ev_schemas acc) (ev_schemas e)\<rparr>)"

fun call_subscribers ::
  "('s, 'l) subscriber_api \<Rightarrow> param \<Rightarrow> 's list \<Rightarrow> ('s \<times> 'l) list \<Rightarrow> event \<Rightarrow> event \<times> ('s \<times> 'l) list" where
  "call_subscribers api p [] ls acc = (acc, ls)"
| "call_subscribers api p (sub # subs) ls acc =
     (let l = (case map_of ls sub of Some l \<Rightarrow> l | None \<Rightarrow> sub_get_listener api sub);
          (r, l) = lst_call api l p;
          acc = (case r of Inl _ \<Rightarrow> acc | Inr e \<Rightarrow> merge_event e acc) in
      call_subscribers api p subs (AList.update sub l ls) acc)"

text \<open>The first action, in the order of the set, that the engine knows.\<close>

fun pick_action :: "action_map \<Rightarrow> string list \<Rightarrow> action option" where
  "pick_action acts [] = None"
| "pick_action acts (a # as) = (case acts a of Some act \<Rightarrow> Some act | None \<Rightarrow> pick_action acts as)"

definition empty_event :: event where
  "empty_event = \<lparr>ev_data = [], ev_actions = [], ev_schemas = []\<rparr>"

text \<open>
  \<open>publish\<close>: the answer, the context and the limiter afterwards. \<open>set_order\<close> is the order in which the
  unordered set of actions is visited, \<open>now\<close> the time.
\<close>

definition publish ::
  "('s, 'l) subscriber_api \<Rightarrow> (string list \<Rightarrow> string list) \<Rightarrow> nat \<Rightarrow> param \<Rightarrow> ('s, 'l) engine_context \<Rightarrow> rate_limiter \<Rightarrow>
   (exn + engine_result option) \<times> ('s, 'l) engine_context \<times> rate_limiter" where
  "publish api set_order now p ctx limiter =
     (let ctx = ctx\<lparr>ctx_prev_published_params := ctx_prev_published_params ctx @ [p]\<rparr> in
      if (case p of P_map _ \<Rightarrow> False | _ \<Rightarrow> True) then (Inl (Invalid_object ''invalid object: key '.' not a map''), ctx, limiter)
      else
        let (ev, ls) = call_subscribers api p (subscribers (ctx_common ctx)) (ctx_listeners ctx) empty_event;
            ctx = ctx\<lparr>ctx_listeners := ls\<rparr> in
        if ev_actions ev = [] \<and> ev_data ev = [] then (Inr None, ctx, limiter)
        else
          let (keep, limiter) = rl_allow now limiter;
              act = pick_action (actions (ctx_common ctx)) (set_order (ev_actions ev)) in
          (Inr (Some \<lparr>res_type = (case act of None \<Rightarrow> Record_action | Some a \<Rightarrow> act_type a),
              res_parameters = (case act of None \<Rightarrow> Map.empty | Some a \<Rightarrow> act_parameters a),
              res_events = ev_data ev, res_schemas = ev_schemas ev, res_force_keep = keep\<rparr>), ctx, limiter))"

definition context_meta_and_metrics ::
  "('s, 'l) subscriber_api \<Rightarrow> ('s, 'l) engine_context \<Rightarrow> meta \<times> metrics \<Rightarrow> meta \<times> metrics" where
  "context_meta_and_metrics api ctx m = foldl (\<lambda>m (_, l). lst_meta_and_metrics api l m) m (ctx_listeners ctx)"

section \<open>Laws of the engine\<close>

text \<open>The events of the subscribers that did not fail, in order.\<close>

fun events_of :: "('s, 'l) subscriber_api \<Rightarrow> param \<Rightarrow> 's list \<Rightarrow> ('s \<times> 'l) list \<Rightarrow> event list" where
  "events_of api p [] ls = []"
| "events_of api p (sub # subs) ls =
     (let l = (case map_of ls sub of Some l \<Rightarrow> l | None \<Rightarrow> sub_get_listener api sub);
          (r, l) = lst_call api l p in
      (case r of Inr (Some e) \<Rightarrow> [e] | _ \<Rightarrow> []) @ events_of api p subs (AList.update sub l ls))"

lemma set_set_merge [simp]: "set (set_merge xs ys) = set xs \<union> set ys"
  unfolding set_merge_def by (induction ys arbitrary: xs) auto

lemma call_subscribers_events:
  assumes "call_subscribers api p subs ls acc = (ev, ls')"
  shows "ev_data ev = ev_data acc @ concat (map ev_data (events_of api p subs ls))"
    and "set (ev_actions ev) = set (ev_actions acc) \<union> (\<Union>e \<in> set (events_of api p subs ls). set (ev_actions e))"
  using assms
proof (induction api p subs ls acc arbitrary: ev rule: call_subscribers.induct)
  case (1 api p ls acc)
  { case 1 then show ?case by simp next case 2 then show ?case by simp }
next
  case (2 api p sub subs ls acc)
  obtain r l where c: "lst_call api (case map_of ls sub of Some l \<Rightarrow> l | None \<Rightarrow> sub_get_listener api sub) p = (r, l)"
    by fastforce
  { case 1
    with "2.IH" [OF refl c [symmetric] refl refl] c show ?case
      by (auto simp: merge_event_def Let_def split: sum.splits option.splits) }
  { case 2
    with "2.IH" [OF refl c [symmetric] refl refl] c show ?case
      by (auto simp: merge_event_def Let_def split: sum.splits option.splits) }
qed

lemma pick_action_None: "pick_action acts as = None \<longleftrightarrow> (\<forall>a \<in> set as. acts a = None)"
  by (induction as) (auto split: option.splits)

lemma pick_action_Some: "pick_action acts as = Some act \<Longrightarrow> \<exists>a \<in> set as. acts a = Some act"
  by (induction as) (auto split: option.splits)

text \<open>
  Property C9: publishing data gives a result exactly when a subscriber that did not fail reported data or an
  action; the result has the data of all of them in order; and it is to block or redirect, with the
  parameters of the action, only because of a reported action that the engine knows, and to record
  when it knows none of them. The hypothesis is that visiting a set yields its elements.
\<close>

theorem publish_decides:
  fixes ctx :: "('s, 'l) engine_context"
  assumes "\<And>as. set (set_order as) = set as"
    and "publish api set_order now (P_map ms) ctx limiter = (r, ctx', limiter')"
  shows "let evs = events_of api (P_map ms) (subscribers (ctx_common ctx)) (ctx_listeners ctx);
      acts = actions (ctx_common ctx); ids = \<Union>e \<in> set evs. set (ev_actions e)
    in case r of
        Inl _ \<Rightarrow> False
      | Inr None \<Rightarrow> ids = {} \<and> concat (map ev_data evs) = [] \<and> limiter' = limiter
      | Inr (Some res) \<Rightarrow>
          (ids \<noteq> {} \<or> concat (map ev_data evs) \<noteq> []) \<and> res_events res = concat (map ev_data evs) \<and>
          (if \<forall>a \<in> ids. acts a = None then res_type res = Record_action \<and> res_parameters res = Map.empty
           else \<exists>a \<in> ids. \<exists>act. acts a = Some act \<and> res_type res = act_type act \<and>
             res_parameters res = act_parameters act)"
proof -
  obtain ev ls where ev: "call_subscribers api (P_map ms) (subscribers (ctx_common ctx)) (ctx_listeners ctx) empty_event = (ev, ls)"
    by fastforce
  define ids where "ids = (\<Union>e \<in> set (events_of api (P_map ms) (subscribers (ctx_common ctx)) (ctx_listeners ctx)). set (ev_actions e))"
  have data: "ev_data ev = concat (map ev_data (events_of api (P_map ms) (subscribers (ctx_common ctx)) (ctx_listeners ctx)))"
    and ids: "set (ev_actions ev) = ids"
    using call_subscribers_events [OF ev] by (simp_all add: empty_event_def ids_def)
  define act where "act = pick_action (actions (ctx_common ctx)) (set_order (ev_actions ev))"
  have act: "act = None \<longleftrightarrow> (\<forall>a \<in> ids. actions (ctx_common ctx) a = None)"
    "act = Some x \<Longrightarrow> \<exists>a \<in> ids. actions (ctx_common ctx) a = Some x" for x
    using pick_action_None [of "actions (ctx_common ctx)" "set_order (ev_actions ev)"]
      pick_action_Some [of "actions (ctx_common ctx)" "set_order (ev_actions ev)"]
    by (simp_all add: act_def assms(1) ids)
  have empty: "ev_actions ev = [] \<longleftrightarrow> ids = {}" by (simp flip: ids)
  show ?thesis
  proof (cases "ids = {} \<and> ev_data ev = []")
    case True
    then show ?thesis using assms(2) by (auto simp: publish_def ev Let_def empty data ids_def)
  next
    case False
    obtain keep lim where k: "rl_allow now limiter = (keep, lim)" by fastforce
    have r: "r = Inr (Some \<lparr>res_type = (case act of None \<Rightarrow> Record_action | Some a \<Rightarrow> act_type a),
        res_parameters = (case act of None \<Rightarrow> Map.empty | Some a \<Rightarrow> act_parameters a),
        res_events = ev_data ev, res_schemas = ev_schemas ev, res_force_keep = keep\<rparr>)"
      using assms(2) False by (auto simp: publish_def ev Let_def empty k act_def)
    have "if \<forall>a \<in> ids. actions (ctx_common ctx) a = None
        then (case act of None \<Rightarrow> Record_action | Some a \<Rightarrow> act_type a) = Record_action \<and>
          (case act of None \<Rightarrow> Map.empty | Some a \<Rightarrow> act_parameters a) = Map.empty
        else \<exists>a \<in> ids. \<exists>x. actions (ctx_common ctx) a = Some x \<and>
          (case act of None \<Rightarrow> Record_action | Some a \<Rightarrow> act_type a) = act_type x \<and>
          (case act of None \<Rightarrow> Map.empty | Some a \<Rightarrow> act_parameters a) = act_parameters x"
    proof (cases act)
      case (Some x)
      with act(2) obtain a where "a \<in> ids" "actions (ctx_common ctx) a = Some x" by blast
      with Some show ?thesis by auto
    qed (use act(1) in simp)
    then show ?thesis unfolding Let_def r sum.case option.case using False by (simp add: data flip: ids_def)
  qed
qed

text \<open>The well-formed actions of a ruleset, in order.\<close>

fun valid_actions :: "(u64 \<Rightarrow> string) \<Rightarrow> json list \<Rightarrow> (string \<times> action) list" where
  "valid_actions dtoa [] = []"
| "valid_actions dtoa (v # vs) =
     (case v of
        JObject ms \<Rightarrow>
          (case (map_of ms ''id'', parse_action dtoa ms) of
             (Some (JString i), Inr a) \<Rightarrow> [(c_str i, a)]
           | _ \<Rightarrow> [])
      | _ \<Rightarrow> []) @ valid_actions dtoa vs"

lemma parse_actions_loop_valid: "parse_actions_loop dtoa vs acts = acts ++ map_of (rev (valid_actions dtoa vs))"
  by (induction vs arbitrary: acts) (auto split: json.splits option.splits sum.splits)

lemma parse_actions_defaults: "parse_actions dtoa doc default_actions ''block'' \<noteq> None"
proof -
  have "\<exists>m. parse_actions dtoa doc default_actions = default_actions ++ m"
    unfolding parse_actions_def parse_actions_loop_valid
    by (auto split: option.splits json.splits intro: exI [of _ Map.empty])
  then obtain m where "parse_actions dtoa doc default_actions = default_actions ++ m" by blast
  then show ?thesis by (simp add: default_actions_def map_add_def split: option.splits)
qed

text \<open>
  An update gives the engine the default actions overridden by the well-formed actions of the new
  ruleset, the last one of an identifier, whatever actions the engine had; in particular a ruleset
  without actions forgets the previous ones. Every subscriber is replaced by its update or kept.
\<close>

theorem engine_update_actions:
  assumes "engine_update api dtoa (JObject ms) m e = Some (e', m')"
  shows "actions (eng_common e') =
      (case map_of ms ''actions'' of
         Some (JArray vs) \<Rightarrow> default_actions ++ map_of (rev (valid_actions dtoa vs))
       | _ \<Rightarrow> default_actions) \<and>
    length (subscribers (eng_common e')) = length (subscribers (eng_common e)) \<and> eng_limiter e' = eng_limiter e"
proof -
  have len: "update_subscribers api p subs m = (subs', m') \<Longrightarrow> length subs' = length subs" for p subs m subs' m'
    by (induction subs arbitrary: m subs' m') (auto simp: Let_def split: prod.splits)
  have ne: "parse_actions dtoa (JObject ms) default_actions \<noteq> Map.empty"
    using parse_actions_defaults [of dtoa "JObject ms"] by auto
  from assms ne obtain p subs m1 where "update_subscribers api p (subscribers (eng_common e)) m = (subs, m1)"
      "e' = e\<lparr>eng_common := \<lparr>subscribers = subs, actions = parse_actions dtoa (JObject ms) default_actions\<rparr>\<rparr>"
    by (auto simp: engine_update_def Let_def split: outcome.splits prod.splits)
  then show ?thesis using len
    by (auto simp: parse_actions_def parse_actions_loop_valid split: option.splits json.splits)
qed

text \<open>A subscriber that always reports the action to block.\<close>

definition blocking_api :: "(unit, nat) subscriber_api" where
  "blocking_api =
     \<lparr>sub_get_listener = (\<lambda>_. 0), sub_update = (\<lambda>s p m. (Inr s, m)),
      lst_call = (\<lambda>n p. (Inr (Some \<lparr>ev_data = [''event''], ev_actions = [''block''], ev_schemas = []\<rparr>), Suc n)),
      lst_meta_and_metrics = (\<lambda>_ m. m)\<rparr>"

lemma publish_decides_witness:
  "case publish blocking_api id 0 (P_map []) (new_context (subscribe () (engine_create 0 default_actions))) (new_rate_limiter 0) of
     (Inr (Some res), _, _) \<Rightarrow> res_type res = Block_action \<and> res_events res = [''event'']
   | _ \<Rightarrow> False"
proof -
  let ?ctx = "new_context (subscribe () (engine_create 0 default_actions)) :: (unit, nat) engine_context"
  obtain r ctx' lim where p: "publish blocking_api id 0 (P_map []) ?ctx (new_rate_limiter 0) = (r, ctx', lim)"
    by (metis prod_cases3)
  have "\<And>as. set (id as) = set as" by simp
  from publish_decides [OF this p] p show ?thesis
    by (auto simp: blocking_api_def new_context_def subscribe_def engine_create_def default_actions_def Let_def
      split: sum.splits option.splits)
qed

lemma engine_update_actions_witness:
  "\<exists>e'. engine_update blocking_api (\<lambda>_. []) (JObject []) (Map.empty, Map.empty)
      (subscribe () (engine_create 0 (default_actions(''custom'' \<mapsto> \<lparr>act_type = Block_action, act_parameters = Map.empty\<rparr>)))) =
        Some (e', Map.empty, Map.empty) \<and> actions (eng_common e') ''custom'' = None"
proof -
  let ?e = "subscribe () (engine_create 0 (default_actions(''custom'' \<mapsto> \<lparr>act_type = Block_action, act_parameters = Map.empty\<rparr>)))"
  obtain e' where e': "engine_update blocking_api (\<lambda>_. []) (JObject []) (Map.empty, Map.empty) ?e =
      Some (e', Map.empty, Map.empty)"
    by (simp add: engine_update_def json_to_parameter_def blocking_api_def subscribe_def engine_create_def Let_def)
  from engine_update_actions [OF e'] e' show ?thesis by (auto simp: default_actions_def)
qed

section \<open>The contract of a subscriber\<close>

text \<open>
  What the engine passes on for its subscribers: whatever holds of a subscriber, is kept by its updates, is handed to
  its listeners and kept by their calls, holds after every operation of the engine. An update that fails leaves the
  subscriber that there was.
\<close>

locale subscriber_contract =
  fixes api :: "('s, 'l) subscriber_api" and inv :: "'s \<Rightarrow> bool" and linv :: "'l \<Rightarrow> bool"
  assumes listener_inv: "inv s \<Longrightarrow> linv (sub_get_listener api s)"
    and update_inv: "inv s \<Longrightarrow> sub_update api s p m = (Inr s', m') \<Longrightarrow> inv s'"
    and call_inv: "linv l \<Longrightarrow> linv (snd (lst_call api l p))"
begin

lemma update_subscribers_inv:
  "list_all inv subs \<Longrightarrow> update_subscribers api p subs m = (subs', m') \<Longrightarrow> list_all inv subs'"
proof (induction subs arbitrary: m subs' m')
  case (Cons s subs)
  obtain r m1 where u: "sub_update api s p m = (r, m1)" by (meson surj_pair)
  obtain subs1 m2 where us: "update_subscribers api p subs m1 = (subs1, m2)" by (meson surj_pair)
  have "list_all inv subs1" using Cons.IH [OF _ us] Cons.prems(1) by simp
  moreover have "inv (case r of Inl _ \<Rightarrow> s | Inr s' \<Rightarrow> s')" using u Cons.prems(1)
    by (cases r) (auto intro: update_inv [of s p m _ m1])
  ultimately show ?case using Cons.prems(2) u us by auto
qed simp

lemma engine_update_inv:
  assumes "list_all inv (subscribers (eng_common e))" "engine_update api dtoa ruleset m e = Some (e', m')"
  shows "list_all inv (subscribers (eng_common e'))"
proof -
  obtain p where p: "json_to_parameter ruleset = Defined p"
    using assms(2) by (auto simp: engine_update_def Let_def split: outcome.splits)
  obtain subs m1 where u: "update_subscribers api p (subscribers (eng_common e)) m = (subs, m1)" by (meson surj_pair)
  from assms(2) p u have "subscribers (eng_common e') = subs" by (auto simp: engine_update_def Let_def)
  with update_subscribers_inv [OF assms(1) u] show ?thesis by simp
qed

lemma call_subscribers_inv:
  assumes "call_subscribers api p subs ls acc = (ev, ls')" "list_all inv subs" "\<forall>(s, l) \<in> set ls. linv l"
  shows "\<forall>(s, l) \<in> set ls'. linv l"
  using assms
proof (induction subs arbitrary: ls acc)
  case (Cons s subs)
  define l where "l = (case map_of ls s of Some l \<Rightarrow> l | None \<Rightarrow> sub_get_listener api s)"
  have "linv l" using Cons.prems(2,3) listener_inv by (auto simp: l_def split: option.splits dest: map_of_SomeD)
  then have "linv (snd (lst_call api l p))" by (rule call_inv)
  moreover have "set (AList.update s l' ls) \<subseteq> insert (s, l') (set ls)" for l' by (induction ls) auto
  ultimately have "\<forall>(s, l) \<in> set (AList.update s (snd (lst_call api l p)) ls). linv l"
    using Cons.prems(3) by fastforce
  moreover have "\<exists>acc. call_subscribers api p subs (AList.update s (snd (lst_call api l p)) ls) acc = (ev, ls')"
    using Cons.prems(1) by (auto simp: l_def [symmetric] Let_def split: prod.splits)
  moreover have "list_all inv subs" using Cons.prems(2) by simp
  ultimately show ?case using Cons.IH by blast
qed simp

lemma publish_inv:
  assumes "publish api set_order now p ctx limiter = (r, ctx', limiter')"
    and "list_all inv (subscribers (ctx_common ctx))" "\<forall>(s, l) \<in> set (ctx_listeners ctx). linv l"
  shows "list_all inv (subscribers (ctx_common ctx')) \<and> (\<forall>(s, l) \<in> set (ctx_listeners ctx'). linv l)"
proof -
  obtain ev ls where c: "call_subscribers api p (subscribers (ctx_common ctx)) (ctx_listeners ctx) empty_event = (ev, ls)" by force
  with assms(1) have "ctx_common ctx' = ctx_common ctx" "ctx_listeners ctx' \<in> {ctx_listeners ctx, ls}"
    by (auto simp: publish_def Let_def split: param.splits if_splits prod.splits)
  with call_subscribers_inv [OF c] assms(2,3) show ?thesis by auto
qed

end

end
