(* ===== verification/Waf.thy ===== *)
theory Waf
  imports Helper_Engine
begin

text \<open>
  The subscriber of the engine: src/helper/subscriber/waf.cpp, which calls libddwaf.

  The library is the parameter \<open>ddwaf_api\<close>, over its types of handles and contexts: a handle holds rules, a
  context the data of a request. Running a context gives a code, a result and the context afterwards.
  The running time is a \<open>double\<close>; adding to it is the parameter \<open>ddwaf_add_runtime\<close>.
\<close>

section \<open>The library\<close>

datatype ddwaf_ret = DDWAF_ERR_INTERNAL | DDWAF_ERR_INVALID_OBJECT | DDWAF_ERR_INVALID_ARGUMENT | DDWAF_OK | DDWAF_MATCH

record ddwaf_result =
  wr_timeout :: bool
  wr_events :: param
  wr_actions :: param
  wr_derivatives :: param
  wr_total_runtime :: nat

record ('h, 'c) ddwaf_api =
  ddwaf_init :: "param \<Rightarrow> string \<Rightarrow> string \<Rightarrow> 'h option \<times> param"
  ddwaf_update :: "'h \<Rightarrow> param \<Rightarrow> 'h option \<times> param"
  ddwaf_context_init :: "'h \<Rightarrow> 'c"
  ddwaf_run :: "'c \<Rightarrow> param \<Rightarrow> nat \<Rightarrow> ddwaf_ret \<times> ddwaf_result \<times> 'c"
  ddwaf_required_addresses :: "'h \<Rightarrow> string list"
  ddwaf_get_version :: string
  ddwaf_add_runtime :: "real \<Rightarrow> nat \<Rightarrow> real"
  ddwaf_write :: "json \<Rightarrow> string option"

section \<open>Reading results\<close>

text \<open>Iterating over a parameter that is no container throws, which is \<open>None\<close>.\<close>

fun param_entries :: "param \<Rightarrow> (string \<times> param) list option" where
  "param_entries (P_array ps) = Some (map (\<lambda>p. ([], p)) ps)"
| "param_entries (P_map ms) = Some ms"
| "param_entries _ = None"

definition param_size :: "param \<Rightarrow> nat" where
  "param_size p = (case param_entries p of Some es \<Rightarrow> length es | None \<Rightarrow> 0)"

text \<open>The strings up to the first value that is none, and whether there was no such value.\<close>

fun leading_strings :: "(string \<times> param) list \<Rightarrow> string list \<times> bool" where
  "leading_strings [] = ([], True)"
| "leading_strings ((_, p) # ps) =
     (case p of P_string s \<Rightarrow> (let (ss, ok) = leading_strings ps in (s # ss, ok)) | _ \<Rightarrow> ([], False))"

definition format_waf_result :: "(json \<Rightarrow> string option) \<Rightarrow> ddwaf_result \<Rightarrow> event" where
  "format_waf_result write res =
     (case param_entries (wr_actions res) of
        None \<Rightarrow> empty_event
      | Some as \<Rightarrow>
          (let (acts, ok) = leading_strings as; output = empty_event\<lparr>ev_actions := set_merge [] acts\<rparr> in
           if \<not> ok then output
           else case param_entries (wr_events res) of
             None \<Rightarrow> output
           | Some es \<Rightarrow>
               (let output = output\<lparr>ev_data := map (\<lambda>(_, e). parameter_to_json write e) es\<rparr> in
                case param_entries (wr_derivatives res) of
                  None \<Rightarrow> output
                | Some ds \<Rightarrow>
                    output\<lparr>ev_schemas := map_merge [] (map (\<lambda>(k, d). (k, parameter_to_json write d)) ds)\<rparr>)))"

definition event_rules_loaded :: string where "event_rules_loaded = ''_dd.appsec.event_rules.loaded''"
definition event_rules_failed :: string where "event_rules_failed = ''_dd.appsec.event_rules.error_count''"
definition event_rules_errors :: string where "event_rules_errors = ''_dd.appsec.event_rules.errors''"
definition event_rules_version :: string where "event_rules_version = ''_dd.appsec.event_rules.version''"
definition waf_version :: string where "waf_version = ''_dd.appsec.waf.version''"
definition waf_duration :: string where "waf_duration = ''_dd.appsec.waf.duration''"

text \<open>\<open>extract_tags_and_metrics\<close>: the version of the ruleset, the tags and the metrics.\<close>

definition rules_tags ::
  "(json \<Rightarrow> string option) \<Rightarrow> (string \<times> param) list \<Rightarrow> meta \<times> metrics \<Rightarrow> meta \<times> metrics" where
  "rules_tags write rules = (\<lambda>(meta, metrics).
     (case map_of rules ''errors'' of
        None \<Rightarrow> meta
      | Some p \<Rightarrow> meta(event_rules_errors \<mapsto> parameter_to_json write p),
      let metrics = (case map_of rules ''loaded'' of
          None \<Rightarrow> metrics | Some p \<Rightarrow> metrics(event_rules_loaded \<mapsto> real (param_size p))) in
      case map_of rules ''failed'' of
        None \<Rightarrow> metrics
      | Some p \<Rightarrow> metrics(event_rules_failed \<mapsto> real (param_size p))))"

definition version_tags ::
  "string \<Rightarrow> (string \<times> param) list \<Rightarrow> string \<times> meta \<times> metrics \<Rightarrow> string \<times> meta \<times> metrics" where
  "version_tags ddwaf_version info = (\<lambda>(version, meta, metrics).
     (case map_of info ''ruleset_version'' of Some (P_string v) \<Rightarrow> v | _ \<Rightarrow> version,
      meta(waf_version \<mapsto> ddwaf_version), metrics))"

definition extract_tags_and_metrics ::
  "(json \<Rightarrow> string option) \<Rightarrow> string \<Rightarrow> param \<Rightarrow> string \<times> meta \<times> metrics \<Rightarrow> string \<times> meta \<times> metrics" where
  "extract_tags_and_metrics write ddwaf_version diagnostics = (\<lambda>(version, m).
     (case diagnostics of
        P_map info \<Rightarrow>
          (case map_of info ''rules'' of
             None \<Rightarrow> version_tags ddwaf_version info (version, m)
           | Some (P_map rules) \<Rightarrow> version_tags ddwaf_version info (version, rules_tags write rules m)
           | Some _ \<Rightarrow> (version, m))
      | _ \<Rightarrow> (version, m)))"

section \<open>Instances and listeners\<close>

record 'h waf_instance =
  wi_handle :: 'h
  wi_waf_timeout :: nat
  wi_ruleset_version :: string
  wi_addresses :: "string list"

record 'c waf_listener =
  wl_handle :: 'c
  wl_waf_timeout :: nat
  wl_total_runtime :: real
  wl_ruleset_version :: string

definition new_waf_instance ::
  "('h, 'c) ddwaf_api \<Rightarrow> param \<Rightarrow> nat \<Rightarrow> string \<Rightarrow> string \<Rightarrow> meta \<times> metrics \<Rightarrow>
   (exn + 'h waf_instance) \<times> meta \<times> metrics" where
  "new_waf_instance api rule waf_timeout_us key_regex value_regex m =
     (let (h, diagnostics) = ddwaf_init api rule key_regex value_regex;
          (version, meta, metrics) =
            extract_tags_and_metrics (ddwaf_write api) (ddwaf_get_version api) diagnostics ([], m);
          meta = meta(waf_version \<mapsto> ddwaf_get_version api) in
      (case h of
         None \<Rightarrow> Inl (Invalid_object ''invalid object'')
       | Some h \<Rightarrow> Inr \<lparr>wi_handle = h, wi_waf_timeout = waf_timeout_us, wi_ruleset_version = version,
           wi_addresses = remdups (ddwaf_required_addresses api h)\<rparr>, meta, metrics))"

definition waf_update ::
  "('h, 'c) ddwaf_api \<Rightarrow> 'h waf_instance \<Rightarrow> param \<Rightarrow> meta \<times> metrics \<Rightarrow> (exn + 'h waf_instance) \<times> meta \<times> metrics" where
  "waf_update api w rule m =
     (let (h, diagnostics) = ddwaf_update api (wi_handle w) rule;
          (version, meta, metrics) =
            extract_tags_and_metrics (ddwaf_write api) (ddwaf_get_version api) diagnostics ([], m);
          meta = meta(waf_version \<mapsto> ddwaf_get_version api);
          version = (if version = [] then wi_ruleset_version w else version) in
      (case h of
         None \<Rightarrow> Inl (Invalid_object ''invalid object'')
       | Some h \<Rightarrow> Inr \<lparr>wi_handle = h, wi_waf_timeout = wi_waf_timeout w, wi_ruleset_version = version,
           wi_addresses = remdups (ddwaf_required_addresses api h)\<rparr>, meta, metrics))"

definition waf_get_listener :: "('h, 'c) ddwaf_api \<Rightarrow> 'h waf_instance \<Rightarrow> 'c waf_listener" where
  "waf_get_listener api w =
     \<lparr>wl_handle = ddwaf_context_init api (wi_handle w), wl_waf_timeout = wi_waf_timeout w, wl_total_runtime = 0,
      wl_ruleset_version = wi_ruleset_version w\<rparr>"

definition waf_call ::
  "('h, 'c) ddwaf_api \<Rightarrow> 'c waf_listener \<Rightarrow> param \<Rightarrow> (exn + event option) \<times> 'c waf_listener" where
  "waf_call api l data =
     (let (code, res, ctx) = ddwaf_run api (wl_handle l) data (wl_waf_timeout l);
          l = l\<lparr>wl_handle := ctx, wl_total_runtime := ddwaf_add_runtime api (wl_total_runtime l) (wr_total_runtime res)\<rparr> in
      (case code of
         DDWAF_MATCH \<Rightarrow> Inr (Some (format_waf_result (ddwaf_write api) res))
       | DDWAF_ERR_INTERNAL \<Rightarrow> Inl Internal_error
       | DDWAF_ERR_INVALID_OBJECT \<Rightarrow> Inl (Invalid_object ''invalid object'')
       | DDWAF_ERR_INVALID_ARGUMENT \<Rightarrow> Inl Invalid_argument
       | DDWAF_OK \<Rightarrow> if wr_timeout res then Inl Timeout_error else Inr None, l))"

definition waf_get_meta_and_metrics :: "'c waf_listener \<Rightarrow> meta \<times> metrics \<Rightarrow> meta \<times> metrics" where
  "waf_get_meta_and_metrics l = (\<lambda>(meta, metrics).
     (meta(event_rules_version \<mapsto> wl_ruleset_version l), metrics(waf_duration \<mapsto> wl_total_runtime l)))"

text \<open>The WAF as a subscriber of the engine.\<close>

definition waf_subscriber :: "('h, 'c) ddwaf_api \<Rightarrow> ('h waf_instance, 'c waf_listener) subscriber_api" where
  "waf_subscriber api =
     \<lparr>sub_get_listener = waf_get_listener api, sub_update = waf_update api, lst_call = waf_call api,
      lst_meta_and_metrics = waf_get_meta_and_metrics\<rparr>"

section \<open>Engines from settings\<close>

record engine_settings =
  es_rules_file :: string
  es_waf_timeout_us :: nat
  es_trace_rate_limit :: u32
  es_obfuscator_key_regex :: string
  es_obfuscator_value_regex :: string
  es_schema_enabled :: bool
  es_schema_sample_rate :: real

definition rules_file_or_default :: "string \<Rightarrow> engine_settings \<Rightarrow> string" where
  "rules_file_or_default default_rules_file s = (if es_rules_file s = [] then default_rules_file else es_rules_file s)"

text \<open>What the helper uses of its surroundings to build an engine.\<close>

record ('h, 'c) engine_env =
  ee_ddwaf :: "('h, 'c) ddwaf_api"
  ee_read_file :: "string \<Rightarrow> string + string"
  ee_parse_doc :: "string \<Rightarrow> json option"
  ee_additions :: "json option"
  ee_default_rules_file :: string
  ee_dtoa :: "u64 \<Rightarrow> string"

text \<open>\<open>None\<close> is a ruleset whose conversion is undefined.\<close>

definition engine_from_settings ::
  "('h, 'c, 'z) engine_env_scheme \<Rightarrow> engine_settings \<Rightarrow> meta \<times> metrics \<Rightarrow>
   ((exn + 'h waf_instance engine) \<times> meta \<times> metrics) option" where
  "engine_from_settings env s m =
     (case engine_ruleset_from_path (ee_read_file env) (ee_parse_doc env) (ee_additions env)
             (rules_file_or_default (ee_default_rules_file env) s) of
        Inl e \<Rightarrow> Some (Inl e, m)
      | Inr ruleset \<Rightarrow>
          (case json_to_parameter ruleset of
             Undefined \<Rightarrow> None
           | Defined p \<Rightarrow>
               (let (w, m) = new_waf_instance (ee_ddwaf env) p (es_waf_timeout_us s) (es_obfuscator_key_regex s)
                      (es_obfuscator_value_regex s) m in
                Some (case w of
                    Inl e \<Rightarrow> Inl e
                  | Inr w \<Rightarrow> Inr (subscribe w (engine_create (es_trace_rate_limit s)
                      (parse_actions (ee_dtoa env) ruleset default_actions))), m))))"

section \<open>Laws of the WAF\<close>

lemma engine_from_settings_waf:
  assumes "engine_from_settings env s m = Some (Inr e, m')"
  obtains w where "subscribers (eng_common e) = [w]" "wi_waf_timeout w = es_waf_timeout_us s"
    "actions (eng_common e) ''block'' \<noteq> None" "eng_limiter e = new_rate_limiter (es_trace_rate_limit s)"
  using assms that parse_actions_defaults [of "ee_dtoa env"]
  by (fastforce simp: engine_from_settings_def new_waf_instance_def subscribe_def engine_create_def Let_def
    split: sum.splits outcome.splits prod.splits option.splits)

lemma set_merge_empty: "set_merge acc [] = acc"
  by (simp add: set_merge_def)

lemma ev_actions_merged: "ev_actions (merge_event (Some ev) empty_event) = set_merge [] (ev_actions ev)"
  by (simp add: merge_event_def empty_event_def)

lemma set_merge_Nil_iff: "set_merge [] as = [] \<longleftrightarrow> as = []"
  using set_set_merge [of "[]" as] by (metis set_empty sup_bot_left)

text \<open>The WAF keeps to the contract of a subscriber with its timeout: updates and calls do not change it.\<close>

interpretation waf_timeout: subscriber_contract "waf_subscriber api" "\<lambda>w. wi_waf_timeout w = t" "\<lambda>l. wl_waf_timeout l = t" for api t
  by unfold_locales
    (auto simp: waf_subscriber_def waf_get_listener_def waf_update_def waf_call_def Let_def split: prod.splits option.splits)

text \<open>
  So every WAF run of an engine has the timeout of the settings: of the subscribers after any update, and of the
  listeners of a context after any data.
\<close>

lemma engine_timeout_kept:
  assumes "engine_from_settings env s m = Some (Inr e, m')"
    and "(\<lambda>e e'. \<exists>dtoa ruleset m m'. engine_update (waf_subscriber api) dtoa ruleset m e = Some (e', m'))\<^sup>*\<^sup>* e e'"
    and "publish (waf_subscriber api) set_order now p (new_context e') limiter = (r, ctx, limiter')"
  shows "list_all (\<lambda>w. wi_waf_timeout w = es_waf_timeout_us s) (subscribers (eng_common e')) \<and>
    (\<forall>(w, l) \<in> set (ctx_listeners ctx). wl_waf_timeout l = es_waf_timeout_us s)"
proof -
  have "list_all (\<lambda>w. wi_waf_timeout w = es_waf_timeout_us s) (subscribers (eng_common e'))" using assms(2)
  proof (induction rule: rtranclp_induct)
    case base
    show ?case using assms(1) by (elim engine_from_settings_waf) simp
  next
    case (step e1 e2)
    then show ?case using waf_timeout.engine_update_inv by blast
  qed
  with waf_timeout.publish_inv [OF assms(3)] show ?thesis by (simp add: new_context_def)
qed

text \<open>
  On the first data of a request, the engine gives what its WAF says. Any code but a match, errors and
  timeouts included, gives no result, and so does a match with neither events nor actions. Any other match
  gives the events of the WAF with a matched action that the engine knows, if there is one.
\<close>

lemma publish_follows_waf:
  fixes api :: "('h, 'c) ddwaf_api"
  assumes w: "subscribers (eng_common e) = [w]" and order: "\<And>as. set (set_order as) = set as"
    and pub: "publish (waf_subscriber api) set_order now (P_map ms) (new_context e) limiter = (r, ctx, limiter')"
    and run: "ddwaf_run api (ddwaf_context_init api (wi_handle w)) (P_map ms) (wi_waf_timeout w) = (code, res, c)"
    and ev: "ev = format_waf_result (ddwaf_write api) res"
  shows "if code \<noteq> DDWAF_MATCH \<or> ev_actions ev = [] \<and> ev_data ev = [] then r = Inr None
    else \<exists>act keep. r = Inr (Some \<lparr>res_type = (case act of None \<Rightarrow> Record_action | Some a \<Rightarrow> act_type a),
        res_parameters = (case act of None \<Rightarrow> Map.empty | Some a \<Rightarrow> act_parameters a),
        res_events = ev_data ev, res_schemas = map_merge [] (ev_schemas ev), res_force_keep = keep\<rparr>) \<and>
      (case act of
         None \<Rightarrow> \<forall>a \<in> set (ev_actions ev). actions (eng_common e) a = None
       | Some x \<Rightarrow> \<exists>a \<in> set (ev_actions ev). actions (eng_common e) a = Some x)"
proof -
  define picked where "picked = pick_action (actions (eng_common e)) (set_order (set_merge [] (ev_actions ev)))"
  have picked: "case picked of None \<Rightarrow> \<forall>a \<in> set (ev_actions ev). actions (eng_common e) a = None
      | Some x \<Rightarrow> \<exists>a \<in> set (ev_actions ev). actions (eng_common e) a = Some x"
    using pick_action_None [of "actions (eng_common e)" "set_order (set_merge [] (ev_actions ev))"]
      pick_action_Some [of "actions (eng_common e)" "set_order (set_merge [] (ev_actions ev))"]
    unfolding picked_def [symmetric] by (cases picked) (auto simp: order)
  have call: "lst_call (waf_subscriber api) (waf_get_listener api w) (P_map ms) = waf_call api (waf_get_listener api w) (P_map ms)"
    "sub_get_listener (waf_subscriber api) w = waf_get_listener api w"
    by (simp_all add: waf_subscriber_def)
  show ?thesis
  proof (cases "code = DDWAF_MATCH")
    case False
    have "(case fst (waf_call api (waf_get_listener api w) (P_map ms)) of
       Inl _ \<Rightarrow> empty_event | Inr e \<Rightarrow> merge_event e empty_event) = empty_event"
      using False run by (auto simp: waf_call_def waf_get_listener_def merge_event_def Let_def split: ddwaf_ret.splits)
    moreover have "ev_actions empty_event = []" "ev_data empty_event = []" by (simp_all add: empty_event_def)
    ultimately have "r = Inr None" using pub w
      by (simp add: publish_def new_context_def call case_prod_beta Let_def)
    with False show ?thesis by simp
  next
    case True
    then have f: "fst (waf_call api (waf_get_listener api w) (P_map ms)) = Inr (Some ev)"
      using run by (simp add: waf_call_def waf_get_listener_def ev Let_def)
    have ev_merged: "merge_event (Some ev) empty_event = \<lparr>ev_data = ev_data ev, ev_actions = set_merge [] (ev_actions ev),
        ev_schemas = map_merge [] (ev_schemas ev)\<rparr>"
      by (simp add: merge_event_def empty_event_def)
    have "if ev_actions ev = [] \<and> ev_data ev = [] then r = Inr None
      else \<exists>keep. r = Inr (Some \<lparr>res_type = (case picked of None \<Rightarrow> Record_action | Some a \<Rightarrow> act_type a),
        res_parameters = (case picked of None \<Rightarrow> Map.empty | Some a \<Rightarrow> act_parameters a),
        res_events = ev_data ev, res_schemas = map_merge [] (ev_schemas ev), res_force_keep = keep\<rparr>)"
      using pub w f
      by (auto simp: publish_def new_context_def call case_prod_beta Let_def ev_merged set_merge_Nil_iff picked_def
        split: if_splits)
    then show ?thesis using True picked by (auto split: if_splits)
  qed
qed

definition sample_ddwaf :: "(unit, unit) ddwaf_api" where
  "sample_ddwaf =
     \<lparr>ddwaf_init = (\<lambda>_ _ _. (Some (), P_invalid)), ddwaf_update = (\<lambda>_ _. (Some (), P_invalid)),
      ddwaf_context_init = (\<lambda>_. ()),
      ddwaf_run = (\<lambda>_ _ _. (DDWAF_MATCH, \<lparr>wr_timeout = False, wr_events = P_array [P_string ''e''],
        wr_actions = P_array [P_string ''block''], wr_derivatives = P_map [], wr_total_runtime = 5\<rparr>, ())),
      ddwaf_required_addresses = (\<lambda>_. []), ddwaf_get_version = ''1'', ddwaf_add_runtime = (\<lambda>r n. r),
      ddwaf_write = (\<lambda>_. Some ''{}'')\<rparr>"

definition sample_engine_settings :: engine_settings where
  "sample_engine_settings =
     \<lparr>es_rules_file = [], es_waf_timeout_us = 10000, es_trace_rate_limit = 100, es_obfuscator_key_regex = [],
      es_obfuscator_value_regex = [], es_schema_enabled = False, es_schema_sample_rate = 0\<rparr>"

end
