(* ===== verification/Helper_Broker.thy ===== *)
theory Helper_Broker
  imports Network Rc_Client Waf
begin

text \<open>
  How the helper reads requests and writes responses: src/helper/network/socket.cpp, broker.cpp, proto.cpp
  and proto.hpp.

  The helper is another process than the extension, with system calls of its own. Reading the bytes of a
  message into an object of msgpack and writing an object are the library's (\<open>be_unpack\<close>, \<open>be_encode\<close>), as
  is the conversion of the arguments of \<open>client_init\<close> by the macros of the library (\<open>be_client_init\<close>, which
  includes the default request used when it throws). An exception is a value of \<open>broker_exn\<close>; those that
  no handler tells apart are \<open>Other_exception\<close>.
\<close>

section \<open>Messages\<close>

datatype request_id = Id_unknown | Id_client_init | Id_request_init | Id_request_exec | Id_request_shutdown | Id_config_sync

record rc_settings =
  rcs_enabled :: bool
  rcs_host :: string
  rcs_port :: u32
  rcs_poll_interval :: u32

record client_init_request =
  ci_pid :: u32
  ci_client_version :: string
  ci_runtime_version :: string
  ci_enabled_configuration :: "bool option"
  ci_service :: service_identifier
  ci_engine_settings :: engine_settings
  ci_rc_settings :: rc_settings

text \<open>A request by its name; a method that is not known keeps its name.\<close>

datatype helper_request =
    Client_init client_init_request
  | Request_init param
  | Request_exec param
  | Config_sync
  | Request_shutdown param
  | Unknown_request string

fun request_id_of :: "helper_request \<Rightarrow> request_id" where
  "request_id_of (Client_init _) = Id_client_init"
| "request_id_of (Request_init _) = Id_request_init"
| "request_id_of (Request_exec _) = Id_request_exec"
| "request_id_of Config_sync = Id_config_sync"
| "request_id_of (Request_shutdown _) = Id_request_shutdown"
| "request_id_of (Unknown_request _) = Id_unknown"

record verdict_response =
  vr_verdict :: string
  vr_parameters :: "string \<rightharpoonup> string"
  vr_triggers :: "string list"
  vr_force_keep :: bool

datatype helper_response =
    Client_init_response string "string list" meta metrics
  | Request_init_response verdict_response
  | Request_exec_response verdict_response
  | Config_sync_response
  | Config_features_response bool
  | Request_shutdown_response verdict_response meta metrics
  | Error_response

fun get_type :: "helper_response \<Rightarrow> string" where
  "get_type (Client_init_response _ _ _ _) = ''client_init''"
| "get_type (Request_init_response _) = ''request_init''"
| "get_type (Request_exec_response _) = ''request_exec''"
| "get_type Config_sync_response = ''config_sync''"
| "get_type (Config_features_response _) = ''config_features''"
| "get_type (Request_shutdown_response _ _ _) = ''request_shutdown''"
| "get_type Error_response = ''error''"

datatype broker_exn =
    Client_disconnect
  | Length_error
  | Out_of_range
  | Bad_cast
  | Unpack_error
  | Other_exception

text \<open>What the broker uses of the library; \<open>be_unpack\<close> gives an error, an incomplete message, or an object.\<close>

record broker_env =
  be_sys :: sys_env
  be_unpack :: "string \<Rightarrow> (unit + msgpack_object option)"
  be_encode :: "msgpack_object \<Rightarrow> string"
  be_client_init :: "msgpack_object \<Rightarrow> client_init_request"
  be_to_float :: "u64 \<Rightarrow> u64"
  be_double :: "real \<Rightarrow> u64"
  be_strings :: "(string \<rightharpoonup> string) \<Rightarrow> (string \<times> string) list"
  be_numbers :: "(string \<rightharpoonup> real) \<Rightarrow> (string \<times> real) list"
  be_version :: string

section \<open>The socket\<close>

text \<open>\<open>socket::recv\<close>: the bytes received before the end of the stream, or the exception of a failed call.\<close>

fun socket_recv_loop :: "nat \<Rightarrow> sys_env \<Rightarrow> int \<Rightarrow> nat \<Rightarrow> string \<Rightarrow> ('w world_scheme, (broker_exn + string) option) state" where
  "socket_recv_loop 0 env sock len received_bytes = ret None"
| "socket_recv_loop (Suc fuel) env sock len received_bytes =
     (if length received_bytes < len then do {
        r \<leftarrow> sys env (Sys_recv sock (len - length received_bytes));
        if rv r = -1 then ret (Some (Inl Other_exception))
        else if rv r = 0 then ret (Some (Inr received_bytes))
        else socket_recv_loop fuel env sock len (received_bytes @ out_bytes r)
      }
      else ret (Some (Inr received_bytes)))"

definition socket_recv :: "sys_env \<Rightarrow> int \<Rightarrow> nat \<Rightarrow> ('w world_scheme, (broker_exn + string) option) state" where
  "socket_recv env sock len = socket_recv_loop (Suc len) env sock len []"

definition socket_send :: "sys_env \<Rightarrow> int \<Rightarrow> string \<Rightarrow> ('w world_scheme, broker_exn + nat) state" where
  "socket_send env sock buffer = do {
     r \<leftarrow> sys env (Sys_send sock buffer);
     if rv r = -1 then ret (Inl Other_exception) else ret (Inr (nat (rv r)))
   }"

text \<open>\<open>socket::discard\<close> reads at most 65535 bytes at a time and stops at an error or the end.\<close>

fun socket_discard_loop :: "nat \<Rightarrow> sys_env \<Rightarrow> int \<Rightarrow> nat \<Rightarrow> nat \<Rightarrow> ('w world_scheme, nat option) state" where
  "socket_discard_loop 0 env sock len total_size = ret None"
| "socket_discard_loop (Suc fuel) env sock len total_size =
     (if total_size < len then do {
        r \<leftarrow> sys env (Sys_recv sock (min (len - total_size) 65535));
        if rv r \<le> 0 then ret (Some total_size)
        else socket_discard_loop fuel env sock len (total_size + nat (rv r))
      }
      else ret (Some total_size))"

definition socket_discard :: "sys_env \<Rightarrow> int \<Rightarrow> nat \<Rightarrow> ('w world_scheme, nat option) state" where
  "socket_discard env sock len = socket_discard_loop (Suc len) env sock len 0"

definition socket_set_recv_timeout :: "sys_env \<Rightarrow> int \<Rightarrow> int \<Rightarrow> ('w world_scheme, bool) state" where
  "socket_set_recv_timeout env sock ms = do {
     r \<leftarrow> sys env (Sys_set_timeo sock 20 (ms sdiv 1000) ((ms smod 1000) * 1000));
     ret (rv r \<noteq> -1)
   }"

section \<open>Requests\<close>

definition max_msg_body_size :: nat where
  "max_msg_body_size = 65536"

text \<open>The one argument of the three commands with data; an error leaves an invalid parameter.\<close>

definition data_argument :: "(u64 \<Rightarrow> u64) \<Rightarrow> msgpack_object \<Rightarrow> param" where
  "data_argument to_float obj =
     (case obj of
        M_array (x # _) \<Rightarrow> (case msgpack_to_param to_float 0 x of Some p \<Rightarrow> p | None \<Rightarrow> P_invalid)
      | _ \<Rightarrow> P_invalid)"

definition command_name_to_id :: "string \<Rightarrow> request_id" where
  "command_name_to_id str =
     (if str = ''client_init'' then Id_client_init
      else if str = ''request_init'' then Id_request_init
      else if str = ''request_exec'' then Id_request_exec
      else if str = ''config_sync'' then Id_config_sync
      else if str = ''request_shutdown'' then Id_request_shutdown
      else Id_unknown)"

text \<open>\<open>as<request>\<close>: a \<open>type_error\<close> of the library is \<open>None\<close>.\<close>

definition as_request :: "'a broker_env_scheme \<Rightarrow> msgpack_object \<Rightarrow> helper_request option" where
  "as_request env obj =
     (case obj of
        M_array [m, args] \<Rightarrow>
          (case msgpack_key m of
             None \<Rightarrow> None
           | Some method \<Rightarrow>
               Some (case command_name_to_id method of
                   Id_client_init \<Rightarrow> Client_init (be_client_init env args)
                 | Id_request_init \<Rightarrow> Request_init (data_argument (be_to_float env) args)
                 | Id_request_exec \<Rightarrow> Request_exec (data_argument (be_to_float env) args)
                 | Id_config_sync \<Rightarrow> Config_sync
                 | Id_request_shutdown \<Rightarrow> Request_shutdown (data_argument (be_to_float env) args)
                 | Id_unknown \<Rightarrow> Unknown_request method))
      | _ \<Rightarrow> None)"

text \<open>What becomes of the body of a message.\<close>

definition decode_body :: "'a broker_env_scheme \<Rightarrow> string \<Rightarrow> broker_exn + helper_request" where
  "decode_body env body =
     (case be_unpack env body of
        Inl _ \<Rightarrow> Inl Unpack_error
      | Inr None \<Rightarrow> Inl Bad_cast
      | Inr (Some obj) \<Rightarrow> (case as_request env obj of None \<Rightarrow> Inl Other_exception | Some r \<Rightarrow> Inr r))"

definition broker_recv_body ::
  "'a broker_env_scheme \<Rightarrow> int \<Rightarrow> nat \<Rightarrow> ('w world_scheme, (broker_exn + helper_request) option) state" where
  "broker_recv_body env sock body_size =
     (if body_size \<ge> max_msg_body_size then do {
        n \<leftarrow> socket_discard (be_sys env) sock body_size;
        case n of
          None \<Rightarrow> ret None
        | Some n \<Rightarrow> ret (Some (Inl (if n < body_size then Length_error else Out_of_range)))
      }
      else do {
        b \<leftarrow> socket_recv (be_sys env) sock body_size;
        case b of
          None \<Rightarrow> ret None
        | Some (Inl e) \<Rightarrow> ret (Some (Inl e))
        | Some (Inr body) \<Rightarrow> ret (Some (if length body \<noteq> body_size then Inl Length_error else decode_body env body))
      })"

definition broker_recv ::
  "'a broker_env_scheme \<Rightarrow> int \<Rightarrow> int \<Rightarrow> ('w world_scheme, (broker_exn + helper_request) option) state" where
  "broker_recv env sock initial_timeout = do {
     ok \<leftarrow> socket_set_recv_timeout (be_sys env) sock initial_timeout;
     if \<not> ok then ret (Some (Inl Other_exception))
     else do {
       h \<leftarrow> socket_recv (be_sys env) sock HEADER_SIZE;
       case h of
         None \<Rightarrow> ret None
       | Some (Inl e) \<Rightarrow> ret (Some (Inl e))
       | Some (Inr h) \<Rightarrow>
           if h = [] then ret (Some (Inl Client_disconnect))
           else if length h \<noteq> HEADER_SIZE then ret (Some (Inl Length_error))
           else do {
             ok \<leftarrow> socket_set_recv_timeout (be_sys env) sock 300;
             if \<not> ok then ret (Some (Inl Other_exception))
             else broker_recv_body env sock (header_size h)
           }
     }
   }"

section \<open>Responses\<close>

definition verdict_fields :: "'a broker_env_scheme \<Rightarrow> verdict_response \<Rightarrow> msgpack_object list" where
  "verdict_fields env v =
     [M_str (vr_verdict v), M_map (map (\<lambda>(k, s). (M_str k, M_str s)) (be_strings env (vr_parameters v))),
      M_array (map M_str (vr_triggers v)), M_boolean (vr_force_keep v)]"

definition meta_fields :: "'a broker_env_scheme \<Rightarrow> meta \<Rightarrow> metrics \<Rightarrow> msgpack_object list" where
  "meta_fields env meta metrics =
     [M_map (map (\<lambda>(k, s). (M_str k, M_str s)) (be_strings env meta)),
      M_map (map (\<lambda>(k, x). (M_str k, M_float64 (be_double env x))) (be_numbers env metrics))]"

fun response_fields :: "'a broker_env_scheme \<Rightarrow> helper_response \<Rightarrow> msgpack_object list" where
  "response_fields env (Client_init_response status errors meta metrics) =
     [M_str status, M_str (be_version env), M_array (map M_str errors)] @ meta_fields env meta metrics"
| "response_fields env (Request_init_response v) = verdict_fields env v"
| "response_fields env (Request_exec_response v) = verdict_fields env v"
| "response_fields env Config_sync_response = []"
| "response_fields env (Config_features_response b) = [M_boolean b]"
| "response_fields env (Request_shutdown_response v meta metrics) = verdict_fields env v @ meta_fields env meta metrics"
| "response_fields env Error_response = []"

definition pack_messages :: "'a broker_env_scheme \<Rightarrow> helper_response list \<Rightarrow> string" where
  "pack_messages env messages =
     be_encode env (M_array (map (\<lambda>m. M_array [M_str (get_type m), M_array (response_fields env m)]) messages))"

text \<open>\<open>send\<close>: the header and the body go out in two calls.\<close>

definition broker_send_all ::
  "'a broker_env_scheme \<Rightarrow> int \<Rightarrow> helper_response list \<Rightarrow> ('w world_scheme, broker_exn + bool) state" where
  "broker_send_all env sock messages =
     (if messages = [] then ret (Inr False)
      else let buffer = pack_messages env messages in do {
        r \<leftarrow> socket_send (be_sys env) sock (dd_header (length buffer));
        case r of
          Inl e \<Rightarrow> ret (Inl e)
        | Inr n \<Rightarrow>
            if n \<noteq> HEADER_SIZE then ret (Inr False)
            else do {
              r \<leftarrow> socket_send (be_sys env) sock buffer;
              case r of Inl e \<Rightarrow> ret (Inl e) | Inr n \<Rightarrow> ret (Inr (n = length buffer))
            }
      })"

definition broker_send :: "'a broker_env_scheme \<Rightarrow> int \<Rightarrow> helper_response \<Rightarrow> ('w world_scheme, broker_exn + bool) state" where
  "broker_send env sock message = broker_send_all env sock [message]"

section \<open>Laws of the broker\<close>

definition call_failed :: "sys_trace \<Rightarrow> bool" where
  "call_failed es \<longleftrightarrow> (\<exists>(c, r) \<in> set es. rv r = -1)"

lemma call_failed_simps [simp]:
  "call_failed [] = False" "call_failed ((c, r) # es) = (rv r = -1 \<or> call_failed es)"
  "call_failed (es @ fs) = (call_failed es \<or> call_failed fs)"
  by (auto simp: call_failed_def)

text \<open>What \<open>socket::recv\<close> leaves: all the bytes asked for or those before the end of the stream.\<close>

definition socket_recv_post ::
  "'w world_scheme \<Rightarrow> nat \<Rightarrow> string \<Rightarrow> (broker_exn + string) option \<Rightarrow> 'w world_scheme \<Rightarrow> bool" where
  "socket_recv_post w len got out w' \<longleftrightarrow>
     (\<exists>res es. out = Some res \<and> trace w' = trace w @ es \<and>
        (case res of
           Inl e \<Rightarrow> e = Other_exception \<and> call_failed es
         | Inr all \<Rightarrow> all = got @ received es \<and> length all \<le> len))"

lemma socket_recv_post_step:
  assumes "socket_recv_post (w\<lparr>trace := trace w @ [(Sys_recv sock n, r)]\<rparr>) len (got @ out_bytes r) out w'"
    and "0 \<le> rv r" "rv r \<le> int n" "length (out_bytes r) = nat (rv r)"
  shows "socket_recv_post w len got out w'"
proof -
  from assms(1) obtain res es where "out = Some res" "trace w' = trace w @ (Sys_recv sock n, r) # es"
      "case res of Inl e \<Rightarrow> e = Other_exception \<and> call_failed es
       | Inr all \<Rightarrow> all = (got @ out_bytes r) @ received es \<and> length all \<le> len"
    unfolding socket_recv_post_def by auto
  with assms(2-4) show ?thesis unfolding socket_recv_post_def
    by (intro exI [of _ res] exI [of _ "(Sys_recv sock n, r) # es"]) (auto split: sum.splits)
qed

lemma wp_socket_recv_loop:
  assumes "recv_ok env" "len < fuel + length got" "length got \<le> len"
  shows "wp (socket_recv_loop fuel env sock len got) (socket_recv_post w len got) w"
  using assms(2,3)
proof (induction fuel arbitrary: got w)
  case 0
  then show ?case by simp
next
  case (Suc fuel)
  show ?case
  proof (cases "length got < len")
    case False
    with Suc.prems show ?thesis by (auto simp: wp_ret socket_recv_post_def intro!: exI [of _ "[]"])
  next
    case True
    let ?n = "len - length got"
    have step: "wp (socket_recv_loop fuel env sock len (got @ out_bytes r)) (socket_recv_post w len got)
        (w\<lparr>trace := trace w @ [(Sys_recv sock ?n, r)]\<rparr>)"
      if r: "rv r \<noteq> 0" "0 \<le> rv r" "rv r \<le> int ?n" "length (out_bytes r) = nat (rv r)" for r
      by (rule wp_mono [OF Suc.IH socket_recv_post_step]) (use r True Suc.prems in auto)
    have stop: "socket_recv_post w len got (Some (Inr got)) (w\<lparr>trace := trace w @ [(Sys_recv sock ?n, r)]\<rparr>)"
      if "rv r = 0" "out_bytes r = []" for r
      using that True unfolding socket_recv_post_def
      by (intro exI [of _ "Inr got"] exI [of _ "[(Sys_recv sock ?n, r)]"]) auto
    have fail: "socket_recv_post w len got (Some (Inl Other_exception)) (w\<lparr>trace := trace w @ [(Sys_recv sock ?n, r)]\<rparr>)"
      if "rv r = -1" for r
      using that unfolding socket_recv_post_def
      by (intro exI [of _ "Inl Other_exception"] exI [of _ "[(Sys_recv sock ?n, r)]"]) auto
    show ?thesis using True
      by (simp, intro wp_bindI wp_recvI [OF assms(1)] wp_ifI) (auto simp: wp_ret intro: step stop fail)
  qed
qed

lemma wp_socket_recv: "recv_ok env \<Longrightarrow> wp (socket_recv env sock len) (socket_recv_post w len []) w"
  unfolding socket_recv_def by (rule wp_socket_recv_loop) simp_all

definition discard_post :: "'w world_scheme \<Rightarrow> nat \<Rightarrow> nat \<Rightarrow> nat option \<Rightarrow> 'w world_scheme \<Rightarrow> bool" where
  "discard_post w len tot out w' \<longleftrightarrow>
     (\<exists>n es. out = Some n \<and> trace w' = trace w @ es \<and> (call_failed es \<and> n < len \<or> n = tot + length (received es)) \<and> n \<le> len)"

lemma wp_socket_discard_loop:
  assumes "recv_ok env" "len < fuel + tot" "tot \<le> len"
  shows "wp (socket_discard_loop fuel env sock len tot) (discard_post w len tot) w"
  using assms(2,3)
proof (induction fuel arbitrary: tot w)
  case 0
  then show ?case by simp
next
  case (Suc fuel)
  show ?case
  proof (cases "tot < len")
    case False
    with Suc.prems show ?thesis by (auto simp: wp_ret discard_post_def intro!: exI [of _ "[]"])
  next
    case True
    let ?n = "min (len - tot) 65535"
    have step: "wp (socket_discard_loop fuel env sock len (tot + nat (rv r))) (discard_post w len tot)
        (w\<lparr>trace := trace w @ [(Sys_recv sock ?n, r)]\<rparr>)"
      if r: "0 < rv r" "rv r \<le> int ?n" "length (out_bytes r) = nat (rv r)" for r
    proof (rule wp_mono [OF Suc.IH])
      show "len < fuel + (tot + nat (rv r))" "tot + nat (rv r) \<le> len" using r True Suc.prems by auto
      fix out w' assume "discard_post (w\<lparr>trace := trace w @ [(Sys_recv sock ?n, r)]\<rparr>) len (tot + nat (rv r)) out w'"
      then show "discard_post w len tot out w'" using r by (auto simp: discard_post_def)
    qed
    have stop: "discard_post w len tot (Some tot) (w\<lparr>trace := trace w @ [(Sys_recv sock ?n, r)]\<rparr>)"
      if "rv r \<le> 0" "rv r = -1 \<or> 0 \<le> rv r \<and> length (out_bytes r) = nat (rv r)" for r
      using that True by (auto simp: discard_post_def)
    show ?thesis using True
      by (simp, intro wp_bindI wp_recvI [OF assms(1)] wp_ifI) (auto simp: wp_ret intro: step stop)
  qed
qed

lemma wp_socket_discard: "recv_ok env \<Longrightarrow> wp (socket_discard env sock len) (discard_post w len 0) w"
  unfolding socket_discard_def by (rule wp_socket_discard_loop) simp_all

text \<open>
  What receiving a request leaves, in terms of the bytes taken from the stream: nothing at its end, a part
  of a message, a message that is too large and was skipped, or one whole message that was decoded.
\<close>

definition broker_recv_post ::
  "'a broker_env_scheme \<Rightarrow> 'w world_scheme \<Rightarrow> (broker_exn + helper_request) option \<Rightarrow> 'w world_scheme \<Rightarrow> bool" where
  "broker_recv_post env w out w' \<longleftrightarrow>
     (\<exists>res es. out = Some res \<and> trace w' = trace w @ es \<and>
        (call_failed es \<and> res \<in> {Inl Other_exception, Inl Length_error} \<or>
         received es = [] \<and> res = Inl Client_disconnect \<or>
         length (received es) < HEADER_SIZE + header_size (received es) \<and> res = Inl Length_error \<or>
         (\<exists>h body. received es = h @ body \<and> length h = HEADER_SIZE \<and> length body = header_size h \<and>
            res = (if length body \<ge> max_msg_body_size then Inl Out_of_range else decode_body env body))))"

lemma header_size_append: "length h = HEADER_SIZE \<Longrightarrow> header_size (h @ b) = header_size h"
  by (simp add: header_size_def HEADER_SIZE_def)

lemma wp_broker_recv_body:
  assumes "recv_ok (be_sys env)"
  shows "wp (broker_recv_body env sock n)
    (\<lambda>out w'. \<exists>res es. out = Some res \<and> trace w' = trace w @ es \<and>
       (call_failed es \<and> res \<in> {Inl Other_exception, Inl Length_error} \<or>
        length (received es) < n \<and> res = Inl Length_error \<or>
        length (received es) = n \<and>
          res = (if n \<ge> max_msg_body_size then Inl Out_of_range else decode_body env (received es)))) w"
proof (cases "n \<ge> max_msg_body_size")
  case True
  show ?thesis unfolding broker_recv_body_def if_P [OF True]
    by (intro wp_bindI wp_mono [OF wp_socket_discard [OF assms]])
      (use True in \<open>auto simp: discard_post_def wp_ret split: option.splits\<close>)
next
  case False
  show ?thesis unfolding broker_recv_body_def if_not_P [OF False]
    by (intro wp_bindI wp_mono [OF wp_socket_recv [OF assms]])
      (use False in \<open>auto simp: socket_recv_post_def wp_ret split: option.splits sum.splits\<close>)
qed

lemma wp_set_recv_timeout:
  "(\<And>r. Q (rv r \<noteq> -1) (w\<lparr>trace := trace w @ [(Sys_set_timeo sock 20 (ms sdiv 1000) ((ms smod 1000) * 1000), r)]\<rparr>)) \<Longrightarrow>
   wp (socket_set_recv_timeout env sock ms) Q w"
  by (simp add: socket_set_recv_timeout_def wp_rules)

lemma broker_recv_post_error:
  "trace w' = trace w @ es \<Longrightarrow> call_failed es \<Longrightarrow> broker_recv_post env w (Some (Inl Other_exception)) w'"
  by (auto simp: broker_recv_post_def)

lemma broker_recv_post_body:
  assumes "trace w1 = trace w @ es1" "received es1 = h" "length h = HEADER_SIZE"
    and "\<exists>res es. out = Some res \<and> trace w' = trace w1 @ es \<and>
       (call_failed es \<and> res \<in> {Inl Other_exception, Inl Length_error} \<or>
        length (received es) < header_size h \<and> res = Inl Length_error \<or>
        length (received es) = header_size h \<and>
          res = (if header_size h \<ge> max_msg_body_size then Inl Out_of_range else decode_body env (received es)))"
  shows "broker_recv_post env w out w'"
proof -
  from assms(4) obtain res es where o: "out = Some res" "trace w' = trace w @ (es1 @ es)"
      "call_failed es \<and> res \<in> {Inl Other_exception, Inl Length_error} \<or>
        length (received es) < header_size h \<and> res = Inl Length_error \<or>
        length (received es) = header_size h \<and>
          res = (if header_size h \<ge> max_msg_body_size then Inl Out_of_range else decode_body env (received es))"
    using assms(1) by auto
  have r: "received (es1 @ es) = h @ received es" using assms(2) by simp
  have "call_failed (es1 @ es) \<and> res \<in> {Inl Other_exception, Inl Length_error} \<or>
     length (received (es1 @ es)) < HEADER_SIZE + header_size (received (es1 @ es)) \<and> res = Inl Length_error \<or>
     (\<exists>h body. received (es1 @ es) = h @ body \<and> length h = HEADER_SIZE \<and> length body = header_size h \<and>
        res = (if length body \<ge> max_msg_body_size then Inl Out_of_range else decode_body env body))"
    using o(3)
  proof (elim disjE)
    assume "length (received es) = header_size h \<and>
      res = (if header_size h \<ge> max_msg_body_size then Inl Out_of_range else decode_body env (received es))"
    then show ?thesis using r assms(3) by (intro disjI2 exI [of _ h] exI [of _ "received es"]) simp
  qed (use r assms(3) header_size_append [OF assms(3)] in auto)
  with o(1,2) show ?thesis unfolding broker_recv_post_def by blast
qed

lemma wp_broker_recv:
  assumes "recv_ok (be_sys env)"
  shows "wp (broker_recv env sock timeout) (broker_recv_post env w) w"
  unfolding broker_recv_def
proof (intro wp_bindI wp_set_recv_timeout wp_ifI)
  fix r :: sys_result
  let ?e1 = "(Sys_set_timeo sock 20 (timeout sdiv 1000) ((timeout smod 1000) * 1000), r)"
  let ?w1 = "w\<lparr>trace := trace w @ [?e1]\<rparr>"
  show "wp (ret (Some (Inl Other_exception))) (broker_recv_post env w) ?w1" if "\<not> rv r \<noteq> -1"
    using that by (auto simp: wp_ret intro: broker_recv_post_error)
  have rest: "wp (case x of None \<Rightarrow> ret None | Some (Inl e) \<Rightarrow> ret (Some (Inl e))
      | Some (Inr h) \<Rightarrow>
          if h = [] then ret (Some (Inl Client_disconnect))
          else if length h \<noteq> HEADER_SIZE then ret (Some (Inl Length_error))
          else do {
            ok \<leftarrow> socket_set_recv_timeout (be_sys env) sock 300;
            if \<not> ok then ret (Some (Inl Other_exception)) else broker_recv_body env sock (header_size h)
          }) (broker_recv_post env w) w2"
    if post: "socket_recv_post ?w1 HEADER_SIZE [] x w2" for x w2
  proof -
    from post obtain res es where p: "x = Some res" "trace w2 = trace ?w1 @ es"
        "case res of Inl e \<Rightarrow> e = Other_exception \<and> call_failed es | Inr all \<Rightarrow> all = [] @ received es \<and> length all \<le> HEADER_SIZE"
      unfolding socket_recv_post_def by blast
    have "trace w2 = trace w @ (?e1 # es)" using p(2) by simp
    note x = p(1) this p(3)
    show ?thesis
    proof (cases res)
      case (Inl e)
      with x show ?thesis by (auto simp: wp_ret intro: broker_recv_post_error)
    next
      case (Inr h)
      then have h: "received (?e1 # es) = h" "length h \<le> HEADER_SIZE" using x(3) by auto
      have short: "length (received (?e1 # es)) < HEADER_SIZE + header_size (received (?e1 # es))" if "length h \<noteq> HEADER_SIZE"
        using that h by simp
      have body: "wp (socket_set_recv_timeout (be_sys env) sock 300 \<bind> (\<lambda>ok. if \<not> ok then ret (Some (Inl Other_exception))
          else broker_recv_body env sock (header_size h))) (broker_recv_post env w) w2" if l: "length h = HEADER_SIZE"
      proof (intro wp_bindI wp_set_recv_timeout wp_ifI)
        fix r2 :: sys_result
        let ?e2 = "(Sys_set_timeo sock 20 (300 sdiv 1000) ((300 smod 1000) * 1000), r2)"
        let ?w3 = "w2\<lparr>trace := trace w2 @ [?e2]\<rparr>"
        have t: "trace ?w3 = trace w @ (?e1 # es @ [?e2])" using x(2) by simp
        show "wp (ret (Some (Inl Other_exception))) (broker_recv_post env w) ?w3" if "\<not> rv r2 \<noteq> -1"
          using that by (intro wp_retI broker_recv_post_error [OF t]) simp
        have "received (?e1 # es @ [?e2]) = h" using h(1) by simp
        then show "wp (broker_recv_body env sock (header_size h)) (broker_recv_post env w) ?w3"
          by (intro wp_mono [OF wp_broker_recv_body [OF assms]] broker_recv_post_body [OF t _ l])
      qed
      show ?thesis unfolding x(1) Inr option.case sum.case
        by (intro wp_ifI wp_retI body) (use x(2) h short in \<open>auto simp: broker_recv_post_def\<close>)
    qed
  qed
  show "wp (socket_recv (be_sys env) sock HEADER_SIZE) (\<lambda>a. wp (case a of None \<Rightarrow> ret None | Some (Inl e) \<Rightarrow> ret (Some (Inl e))
      | Some (Inr h) \<Rightarrow>
          if h = [] then ret (Some (Inl Client_disconnect))
          else if length h \<noteq> HEADER_SIZE then ret (Some (Inl Length_error))
          else do {
            ok \<leftarrow> socket_set_recv_timeout (be_sys env) sock 300;
            if \<not> ok then ret (Some (Inl Other_exception)) else broker_recv_body env sock (header_size h)
          }) (broker_recv_post env w)) ?w1"
    by (rule wp_mono [OF wp_socket_recv [OF assms] rest])
qed


definition sample_broker_env :: broker_env where
  "sample_broker_env =
     \<lparr>be_sys = sample_env, be_unpack = (\<lambda>_. Inr (Some (M_array [M_str ''config_sync'', M_array []]))),
      be_encode = (\<lambda>_. ''packed''),
      be_client_init = (\<lambda>_. \<lparr>ci_pid = 0, ci_client_version = [], ci_runtime_version = [], ci_enabled_configuration = None,
        ci_service = \<lparr>sid_service = [], sid_extra_services = [], sid_env = [], sid_tracer_version = [],
          sid_app_version = [], sid_runtime_id = []\<rparr>,
        ci_engine_settings = sample_engine_settings,
        ci_rc_settings = \<lparr>rcs_enabled = False, rcs_host = [], rcs_port = 8126, rcs_poll_interval = 1000\<rparr>\<rparr>),
      be_to_float = id, be_double = (\<lambda>_. 0), be_strings = (\<lambda>_. []), be_numbers = (\<lambda>_. []), be_version = ''1''\<rparr>"


end
