(* ===== verification/Helper_Service.thy ===== *)
theory Helper_Service
  imports Helper_Broker
begin

text \<open>
  Services of the helper: src/helper/service.cpp, service.hpp, service\_config.hpp, service\_manager.cpp and
  the identity in service\_identifier.hpp.

  A service is shared by the clients of one application. It owns an engine, the sampler of schemas and, when
  remote configuration is on, the handler whose thread polls the agent and changes the status of the
  service and the rules of the engine. Services are objects behind shared pointers: the manager has a store
  of them by address, and its cache holds weak pointers. A service is alive while the manager or a client
  holds it; which ones the clients hold is an argument.
\<close>

section \<open>Services\<close>

text \<open>\<open>ls_status\<close> of the listeners is the \<open>service_config\<close>, which the service and its listener share.\<close>

record 'h service =
  svc_engine :: "'h waf_instance engine"
  svc_listeners :: rc_listeners
  svc_client_handler :: "(client_handler \<times> rc_listener rc_client) option"
  svc_schema_sampler :: sampler

definition new_engine_listener :: "string \<Rightarrow> engine_listener" where
  "new_engine_listener rules_file =
     \<lparr>el_ruleset = JNull, el_to_commit = [], el_asm = JNull, el_dd = JNull, el_data = [],
      el_rules_file = rules_file, el_committed = []\<rparr>"

definition new_service ::
  "real \<Rightarrow> 'h waf_instance engine \<Rightarrow> rc_listeners \<Rightarrow> (client_handler \<times> rc_listener rc_client) option \<Rightarrow>
   engine_settings \<Rightarrow> 'h service" where
  "new_service min_rate eng listeners handler s =
     (let sample_rate = (if \<not> es_schema_enabled s then 0 else es_schema_sample_rate s) in
      \<lparr>svc_engine = eng, svc_listeners = listeners, svc_client_handler = handler,
       svc_schema_sampler = new_sampler min_rate sample_rate\<rparr>)"

text \<open>\<open>client_handler::from_settings\<close>; \<open>uuid\<close> is the random identifier of the client.\<close>

definition client_handler_from_settings ::
  "string \<Rightarrow> service_identifier \<Rightarrow> engine_settings \<Rightarrow> rc_settings \<Rightarrow> bool \<Rightarrow>
   (client_handler \<times> rc_listener rc_client) option" where
  "client_handler_from_settings uuid sid es rcs dynamic_enablement =
     map_option (\<lambda>listeners. (new_client_handler (unat (rcs_poll_interval rcs)),
         new_rc_client uuid sid supported_products listeners))
       (handler_listeners (rcs_enabled rcs) dynamic_enablement (es_rules_file es))"

text \<open>What a service uses of its surroundings.\<close>

record ('h, 'c) service_env = "('h, 'c) engine_env" +
  se_min_rate :: real
  se_uuid :: string
  se_first :: "string multiset \<Rightarrow> string"

definition service_from_settings ::
  "('h, 'c, 'z) service_env_scheme \<Rightarrow> service_identifier \<Rightarrow> engine_settings \<Rightarrow> rc_settings \<Rightarrow> bool \<Rightarrow>
   meta \<times> metrics \<Rightarrow> ((exn + 'h service) \<times> meta \<times> metrics) option" where
  "service_from_settings env sid es rcs dynamic_enablement m =
     (case engine_from_settings env es m of
        None \<Rightarrow> None
      | Some (Inl e, m) \<Rightarrow> Some (Inl e, m)
      | Some (Inr eng, m) \<Rightarrow>
          (let listeners = \<lparr>ls_status = NOT_SET,
                 ls_engine = new_engine_listener (rules_file_or_default (ee_default_rules_file env) es)\<rparr>;
               handler = client_handler_from_settings (se_uuid env) sid es rcs dynamic_enablement in
           Some (Inr (new_service (se_min_rate env) eng listeners handler es), m)))"

definition register_runtime_id :: "(string multiset \<Rightarrow> string) \<Rightarrow> string \<Rightarrow> 'h service \<Rightarrow> 'h service" where
  "register_runtime_id first rid s =
     s\<lparr>svc_client_handler := map_option (\<lambda>(h, c). (h, c\<lparr>rcl_ids := pool_add first rid (rcl_ids c)\<rparr>)) (svc_client_handler s)\<rparr>"

definition unregister_runtime_id :: "(string multiset \<Rightarrow> string) \<Rightarrow> string \<Rightarrow> 'h service \<Rightarrow> 'h service" where
  "unregister_runtime_id first rid s =
     s\<lparr>svc_client_handler := map_option (\<lambda>(h, c). (h, c\<lparr>rcl_ids := pool_remove first rid (rcl_ids c)\<rparr>)) (svc_client_handler s)\<rparr>"

definition get_asm_enabled_status :: "'h service \<Rightarrow> enable_asm_status" where
  "get_asm_enabled_status s = ls_status (svc_listeners s)"

text \<open>
  One round of the polling thread of a service: the handler ticks, and each ruleset that its engine listener
  commits updates the engine. \<open>None\<close> is an exception that leaves the thread, or undefined behaviour.
\<close>

fun commit_rulesets ::
  "('s, 'l) subscriber_api \<Rightarrow> (u64 \<Rightarrow> string) \<Rightarrow> json list \<Rightarrow> 's engine \<Rightarrow> 's engine option" where
  "commit_rulesets api dtoa [] e = Some e"
| "commit_rulesets api dtoa (doc # docs) e =
     (case engine_update api dtoa doc (Map.empty, Map.empty) e of
        None \<Rightarrow> None
      | Some (e, _) \<Rightarrow> commit_rulesets api dtoa docs e)"

definition service_tick ::
  "('h, 'c, 'z) service_env_scheme \<Rightarrow> 'a http_env_scheme \<Rightarrow> string list \<Rightarrow> 'h service \<Rightarrow> 'h service option" where
  "service_tick env henv agg_order s =
     (case svc_client_handler s of
        None \<Rightarrow> Some s
      | Some (h, c) \<Rightarrow>
          (case handler_tick henv (listener_respond henv agg_order) h c (svc_listeners s) of
             Some (Defined h, c, l) \<Rightarrow>
               map_option (\<lambda>e. s\<lparr>svc_engine := e, svc_listeners := l, svc_client_handler := Some (h, c)\<rparr>)
                 (commit_rulesets (waf_subscriber (ee_ddwaf env)) (ee_dtoa env)
                    (drop (length (el_committed (ls_engine (svc_listeners s)))) (el_committed (ls_engine l))) (svc_engine s))
           | _ \<Rightarrow> None))"

section \<open>The manager\<close>

definition service_key :: "service_identifier \<Rightarrow> string \<times> string" where
  "service_key sid = (sid_service sid, sid_env sid)"

record 'h service_manager =
  sm_services :: "nat \<rightharpoonup> 'h service"
  sm_next :: nat
  sm_cache :: "((string \<times> string) \<times> nat) list"
  sm_last_service :: "nat option"

definition new_service_manager :: "'h service_manager" where
  "new_service_manager = \<lparr>sm_services = Map.empty, sm_next = 0, sm_cache = [], sm_last_service = None\<rparr>"

definition service_alive :: "nat list \<Rightarrow> 'h service_manager \<Rightarrow> nat \<Rightarrow> bool" where
  "service_alive held m a \<longleftrightarrow> sm_last_service m = Some a \<or> a \<in> set held"

definition cleanup_cache :: "nat list \<Rightarrow> 'h service_manager \<Rightarrow> 'h service_manager" where
  "cleanup_cache held m = m\<lparr>sm_cache := filter (\<lambda>(_, a). service_alive held m a) (sm_cache m)\<rparr>"

text \<open>A failed lookup, or an entry whose service is gone, creates a service; an entry that is there stays.\<close>

definition add_service :: "nat list \<Rightarrow> string \<times> string \<Rightarrow> 'h service \<Rightarrow> 'h service_manager \<Rightarrow> 'h service_manager" where
  "add_service held key s m =
     (let a = sm_next m in
      cleanup_cache held
        (m\<lparr>sm_services := (sm_services m)(a \<mapsto> s), sm_next := Suc a, sm_cache := alist_emplace key a (sm_cache m),
           sm_last_service := Some a\<rparr>))"

definition create_service ::
  "('h, 'c, 'z) service_env_scheme \<Rightarrow> nat list \<Rightarrow> service_identifier \<Rightarrow> engine_settings \<Rightarrow> rc_settings \<Rightarrow> bool \<Rightarrow>
   meta \<times> metrics \<Rightarrow> 'h service_manager \<Rightarrow> ((exn + nat) \<times> (meta \<times> metrics) \<times> 'h service_manager) option" where
  "create_service env held sid es rcs dynamic_enablement mm m =
     (let hit = (case map_of (sm_cache m) (service_key sid) of
            None \<Rightarrow> None | Some a \<Rightarrow> if service_alive held m a then Some a else None) in
      case hit of
        Some a \<Rightarrow> Some (Inr a, mm, m)
      | None \<Rightarrow>
          (case service_from_settings env sid es rcs dynamic_enablement mm of
             None \<Rightarrow> None
           | Some (Inl e, mm) \<Rightarrow> Some (Inl e, mm, m)
           | Some (Inr s, mm) \<Rightarrow> Some (Inr (sm_next m), mm, add_service held (service_key sid) s m)))"

section \<open>Laws of the manager\<close>

text \<open>The cache is a map, and what it and \<open>last_service_\<close> point to is in the store, below the next address.\<close>

definition manager_inv :: "'h service_manager \<Rightarrow> bool" where
  "manager_inv m \<longleftrightarrow> distinct (map fst (sm_cache m)) \<and> dom (sm_services m) = {..< sm_next m} \<and>
     snd ` set (sm_cache m) \<subseteq> {..< sm_next m} \<and> (\<forall>a. sm_last_service m = Some a \<longrightarrow> a < sm_next m)"

lemma manager_inv_new: "manager_inv new_service_manager"
  by (simp add: manager_inv_def new_service_manager_def)

lemma map_of_filter_key:
  "distinct (map fst xs) \<Longrightarrow> map_of (filter (\<lambda>(_, v). P v) xs) k =
     (case map_of xs k of Some v \<Rightarrow> if P v then Some v else None | None \<Rightarrow> None)"
  by (induction xs) (auto simp: map_of_eq_None_iff rev_image_eqI split: option.splits)

lemma alist_emplace_props:
  shows "distinct (map fst xs) \<Longrightarrow> distinct (map fst (alist_emplace k v xs))"
    and "map_of (alist_emplace k v xs) k' = (case map_of xs k' of Some x \<Rightarrow> Some x | None \<Rightarrow> if k' = k then Some v else None)"
    and "snd ` set (alist_emplace k v xs) \<subseteq> insert v (snd ` set xs)"
proof -
  have none: "map_of xs k = None \<longleftrightarrow> k \<notin> fst ` set xs" by (rule map_of_eq_None_iff)
  show "distinct (map fst xs) \<Longrightarrow> distinct (map fst (alist_emplace k v xs))"
    using none by (auto simp: alist_emplace_def)
  show "map_of (alist_emplace k v xs) k' = (case map_of xs k' of Some x \<Rightarrow> Some x | None \<Rightarrow> if k' = k then Some v else None)"
    by (cases "map_of xs k"; cases "map_of xs k'") (auto simp: alist_emplace_def map_add_def)
  show "snd ` set (alist_emplace k v xs) \<subseteq> insert v (snd ` set xs)"
    by (auto simp: alist_emplace_def)
qed

lemma add_service_inv:
  assumes "manager_inv m"
  shows "manager_inv (add_service held key s m)"
proof -
  have "distinct (map fst (filter P (alist_emplace key a (sm_cache m))))" for P a
    using assms alist_emplace_props(1) [of "sm_cache m" key a]
    by (auto simp: manager_inv_def intro: distinct_map_filter)
  with assms alist_emplace_props(3) [of key "sm_next m" "sm_cache m"] show ?thesis
    by (fastforce simp: manager_inv_def add_service_def cleanup_cache_def Let_def)
qed

lemma add_service_cache:
  assumes "manager_inv m"
  shows "map_of (sm_cache (add_service held key s m)) k =
    (case map_of (sm_cache m) k of
       Some b \<Rightarrow> if b \<in> set held then Some b else None
     | None \<Rightarrow> if k = key then Some (sm_next m) else None)"
  using assms alist_emplace_props(1) [of "sm_cache m" key "sm_next m"]
  by (auto simp: manager_inv_def add_service_def cleanup_cache_def Let_def map_of_filter_key alist_emplace_props(2)
    service_alive_def split: option.splits dest!: map_of_SomeD)

lemma create_service_inv:
  "manager_inv m \<Longrightarrow> create_service env held sid es rcs dyn mm m = Some (r, mm', m') \<Longrightarrow> manager_inv m'"
  by (auto simp: create_service_def Let_def add_service_inv split: option.splits sum.splits if_splits)

text \<open>
  What other clients and polling threads do to the manager while one client holds a service; \<open>envs\<close> are the
  surroundings that the calls see.
\<close>

inductive manager_step ::
  "('h, 'c, 'z) service_env_scheme set \<Rightarrow> nat \<Rightarrow> 'h service_manager \<Rightarrow> 'h service_manager \<Rightarrow> bool" for envs a where
  create: "env \<in> envs \<Longrightarrow> create_service env held sid es rcs dyn mm m = Some (r, mm', m') \<Longrightarrow> a \<in> set held \<Longrightarrow>
    manager_step envs a m m'"
| change: "manager_step envs a m (m\<lparr>sm_services := (sm_services m)(b := map_option f (sm_services m b))\<rparr>)"

lemma manager_step_keeps:
  assumes "manager_step envs a m m'" "manager_inv m" "map_of (sm_cache m) key = Some a"
  shows "manager_inv m' \<and> map_of (sm_cache m') key = Some a"
  using assms
proof cases
  case (create env held sid es rcs dyn mm r mm')
  then show ?thesis using assms(2,3) create_service_inv [OF assms(2) create(2)]
    by (auto simp: create_service_def Let_def add_service_cache [OF assms(2)] split: option.splits sum.splits if_splits)
next
  case (change b f)
  have "dom ((sm_services m)(b := map_option f (sm_services m b))) = dom (sm_services m)" by (auto simp: dom_def)
  then show ?thesis using change assms(2,3) by (simp add: manager_inv_def)
qed


definition sample_service_env :: "(unit, unit) service_env" where
  "sample_service_env =
     \<lparr>ee_ddwaf = sample_ddwaf, ee_read_file = (\<lambda>_. Inr ''{}''), ee_parse_doc = (\<lambda>_. Some (JObject [])),
      ee_additions = None, ee_default_rules_file = ''rules.json'', ee_dtoa = (\<lambda>_. []),
      se_min_rate = 1 / 10000, se_uuid = ''u'', se_first = (\<lambda>_. ''r'')\<rparr>"

definition sample_service_id :: service_identifier where
  "sample_service_id = \<lparr>sid_service = ''s'', sid_extra_services = [], sid_env = ''e'', sid_tracer_version = [],
     sid_app_version = [], sid_runtime_id = ''r''\<rparr>"

definition sample_rc_settings :: rc_settings where
  "sample_rc_settings = \<lparr>rcs_enabled = True, rcs_host = ''h'', rcs_port = 8126, rcs_poll_interval = 1000\<rparr>"

lemma sample_engine_built:
  obtains e m where "engine_from_settings sample_service_env sample_engine_settings (Map.empty, Map.empty) = Some (Inr e, m)"
    "actions (eng_common e) = default_actions" "eng_limiter e = new_rate_limiter 100"
  by (simp add: engine_from_settings_def engine_ruleset_from_path_def new_engine_ruleset_def sample_service_env_def
    add_default_processors_and_scanners_def json_to_parameter_def new_waf_instance_def sample_ddwaf_def
    extract_tags_and_metrics_def Let_def parse_actions_def subscribe_def engine_create_def sample_engine_settings_def)


text \<open>
  When the cache has an entry for a service that is gone, the service built in its place does not get into the
  cache: the entry is not replaced, and then removed. A second client of that service builds another one.
\<close>

lemma dead_entry_not_replaced:
  assumes "manager_inv m" "map_of (sm_cache m) (service_key sid) = Some b" "\<not> service_alive held m b"
    and "create_service env held sid es rcs dyn mm m = Some (Inr a, mm1, m1)"
    and "create_service env (a # held) sid es rcs dyn mm m1 = Some (Inr a2, mm2, m2)"
  shows "map_of (sm_cache m1) (service_key sid) = None \<and> a2 \<noteq> a"
proof -
  have m1: "m1 = add_service held (service_key sid) s m" and a: "a = sm_next m" if "service_from_settings env sid es rcs dyn mm = Some (Inr s, mm')" for s mm'
    using assms(2-4) that by (auto simp: create_service_def Let_def)
  obtain s mm' where s: "service_from_settings env sid es rcs dyn mm = Some (Inr s, mm')"
    using assms(2-4) by (auto simp: create_service_def Let_def split: option.splits sum.splits)
  have none: "map_of (sm_cache m1) (service_key sid) = None"
    using assms(2,3) add_service_cache [OF assms(1)] by (simp add: m1 [OF s] service_alive_def)
  have "a2 = sm_next m1" using none assms(5) s by (auto simp: create_service_def Let_def)
  moreover have "sm_next m1 = Suc (sm_next m)" by (simp add: m1 [OF s] add_service_def cleanup_cache_def Let_def)
  ultimately show ?thesis using none a [OF s] by simp
qed

end
