(* ===== verification/Transport.thy ===== *)
theory Transport
  imports Json Helper_Limits
begin

text \<open>
  What the helper does around the libraries for input and buf: src/helper/compression.cpp,
  remote\_config/http\_api.cpp, engine\_settings.cpp, utils.cpp and the printing of parameters in
  parameter\_base.cpp. zlib, the HTTP library and the file system are parameters.
\<close>

section \<open>Compression\<close>

text \<open>
  \<open>estimate_compressed_size\<close>: the conversion of the length, the literal 1.015 and the product are rounded.
\<close>

definition estimate_compressed_size :: "(real \<Rightarrow> real) \<Rightarrow> nat \<Rightarrow> nat" where
  "estimate_compressed_size rnd in_len = nat \<lfloor>rnd (rnd (real in_len) * rnd (1015 / 1000))\<rfloor> + 10 + 8 + 4 + 1"

text \<open>
  A deflater gets a text and the room for its output, in one call with \<open>Z_FINISH\<close>; it gives the output when
  that ended the stream, and nothing when it was refused, failed or ran out of room.
\<close>

type_synonym deflater = "string \<Rightarrow> nat \<Rightarrow> string option"

definition compress :: "(real \<Rightarrow> real) \<Rightarrow> deflater \<Rightarrow> string \<Rightarrow> string option" where
  "compress rnd deflate text =
     (if length text = 0 then None else deflate text (estimate_compressed_size rnd (length text)))"

datatype z_status = Z_OK | Z_STREAM_END | Z_BUF_ERROR | Z_OTHER_ERROR

text \<open>
  An inflater is made of the compressed text; a call gets the room for output and gives the status, the
  output and the stream after it, whose remaining input is \<open>z_avail_in\<close>.
\<close>

record 'z inflater =
  inflate_init :: "string \<Rightarrow> 'z option"
  z_inflate :: "'z \<Rightarrow> nat \<Rightarrow> z_status \<times> string \<times> 'z"
  z_avail_in :: "'z \<Rightarrow> nat"

definition max_round_decompression :: nat where "max_round_decompression = 100"

text \<open>
  The loop of \<open>uncompress\<close>, with the rounds that are left; \<open>buf\<close> is the part of the buffer that has been written
  (\<open>used\<close> is its length) and \<open>capacity\<close> the size of the buffer.
\<close>

fun uncompress_loop :: "'z inflater \<Rightarrow> nat \<Rightarrow> z_status \<Rightarrow> 'z \<Rightarrow> string \<Rightarrow> nat \<Rightarrow> z_status \<times> string \<times> nat" where
  "uncompress_loop api 0 status strm buf capacity = (status, buf, capacity)"
| "uncompress_loop api (Suc rounds) status strm buf capacity =
     (if status = Z_BUF_ERROR \<or> (status = Z_OK \<and> z_avail_in api strm > 0)
      then let (status, out, strm) = z_inflate api strm (capacity - length buf)
           in uncompress_loop api rounds status strm (buf @ out) (capacity + (capacity div 8 + 1))
      else (status, buf, capacity))"

definition uncompress :: "'z inflater \<Rightarrow> string \<Rightarrow> string option" where
  "uncompress api compressed =
     (if length compressed < 1 then None
      else case inflate_init api compressed of
        None \<Rightarrow> None
      | Some strm \<Rightarrow>
          (case uncompress_loop api (max_round_decompression - 1) Z_OK strm [] (z_avail_in api strm) of
             (status, buf, capacity) \<Rightarrow> if status = Z_STREAM_END then Some buf else None))"

text \<open>An inflater writes no more than it has room for. Then the loop stays inside its buffer in every round.\<close>

definition inflate_fits :: "'z inflater \<Rightarrow> bool" where
  "inflate_fits api = (\<forall>strm room. length (fst (snd (z_inflate api strm room))) \<le> room)"

fun grown :: "nat \<Rightarrow> nat \<Rightarrow> nat" where
  "grown 0 capacity = capacity"
| "grown (Suc n) capacity = grown n (capacity + (capacity div 8 + 1))"

lemma grown_mono: "c \<le> d \<Longrightarrow> grown n c \<le> grown n d"
proof (induction n arbitrary: c d)
  case (Suc n)
  then have "c + (c div 8 + 1) \<le> d + (d div 8 + 1)" by (simp add: add_mono div_le_mono)
  with Suc.IH show ?case by simp
qed simp

lemma grown_ge: "c \<le> grown n c"
proof (induction n arbitrary: c)
  case (Suc n)
  have "c \<le> c + (c div 8 + 1)" by simp
  also have "\<dots> \<le> grown n (c + (c div 8 + 1))" by (rule Suc.IH)
  finally show ?case by simp
qed simp

lemma uncompress_loop_fits:
  assumes fits: "inflate_fits api"
  shows "length buf \<le> capacity \<Longrightarrow>
    uncompress_loop api rounds status strm buf capacity = (status', buf', capacity') \<Longrightarrow>
    length buf' \<le> capacity' \<and> capacity' \<le> grown rounds capacity"
proof (induction rounds arbitrary: status strm buf capacity)
  case (Suc rounds)
  show ?case
  proof (cases "status = Z_BUF_ERROR \<or> (status = Z_OK \<and> z_avail_in api strm > 0)")
    case True
    obtain st out strm' where i: "z_inflate api strm (capacity - length buf) = (st, out, strm')"
      using prod_cases3 by blast
    then have "length out \<le> capacity - length buf" using fits by (metis fst_conv inflate_fits_def snd_conv)
    with Suc.prems True i Suc.IH [of "buf @ out" "capacity + (capacity div 8 + 1)" st strm'] show ?thesis by auto
  next
    case False
    with Suc.prems grown_ge [of capacity "Suc rounds"] show ?thesis by auto
  qed
qed simp

text \<open>What is uncompressed is bounded by the length of the input and the number of rounds.\<close>

lemma uncompress_bounded:
  assumes "inflate_fits api" "\<And>s z. inflate_init api s = Some z \<Longrightarrow> z_avail_in api z = length s"
    and "uncompress api compressed = Some text"
  shows "length text \<le> grown 99 (length compressed)"
proof -
  obtain strm capacity where "inflate_init api compressed = Some strm"
    "uncompress_loop api 99 Z_OK strm [] (length compressed) = (Z_STREAM_END, text, capacity)"
    using assms(2,3) by (auto simp: uncompress_def max_round_decompression_def split: if_splits option.splits prod.splits)
  with uncompress_loop_fits [OF assms(1), of "[]"] show ?thesis by fastforce
qed

section \<open>Requests to the agent\<close>

datatype http_verb = Http_get | Http_post

record http_request =
  hr_method :: http_verb
  hr_target :: string
  hr_version :: nat
  hr_fields :: "(string \<times> string) list"
  hr_body :: string
  hr_keep_alive :: "bool option"

text \<open>
  \<open>execute_request\<close>: the exchange with the host and port, a parameter, gives the body of the answer or the text of
  an exception; every one of these becomes a \<open>network_exception\<close> that names the target.
\<close>

type_synonym http_exchange = "string \<Rightarrow> string \<Rightarrow> http_request \<Rightarrow> string + string"

definition execute_request :: "http_exchange \<Rightarrow> string \<Rightarrow> string \<Rightarrow> http_request \<Rightarrow> string + string" where
  "execute_request exchange host port request =
     (case exchange host port request of
        Inr result \<Rightarrow> Inr result
      | Inl what \<Rightarrow> Inl (''Connection error - '' @ hr_target request @ '' - '' @ what))"

definition http_api_version :: nat where "http_api_version = 11"

definition info_request :: "string \<Rightarrow> string \<Rightarrow> http_request" where
  "info_request agent host =
     \<lparr>hr_method = Http_get, hr_target = ''/info'', hr_version = http_api_version,
      hr_fields = [(''Host'', host), (''User-Agent'', agent)], hr_body = [], hr_keep_alive = None\<rparr>"

definition http_api_get_info :: "http_exchange \<Rightarrow> string \<Rightarrow> string \<Rightarrow> string \<Rightarrow> string + string" where
  "http_api_get_info exchange agent host port = execute_request exchange host port (info_request agent host)"

definition configs_request :: "string \<Rightarrow> string \<Rightarrow> string \<Rightarrow> http_request" where
  "configs_request agent host request =
     \<lparr>hr_method = Http_post, hr_target = ''/v0.7/config'', hr_version = http_api_version,
      hr_fields = [(''Host'', host), (''User-Agent'', agent), (''Content-Length'', nat_dec (length request)),
        (''Accept'', ''*/*''), (''Content-Type'', ''application/x-www-form-urlencoded'')],
      hr_body = request, hr_keep_alive = Some True\<rparr>"

definition http_api_get_configs :: "http_exchange \<Rightarrow> string \<Rightarrow> string \<Rightarrow> string \<Rightarrow> string \<Rightarrow> string + string" where
  "http_api_get_configs exchange agent host port request =
     execute_request exchange host port (configs_request agent host request)"

section \<open>The default rules file\<close>

text \<open>
  \<open>engine_settings::default_rules_file\<close>: the result of reading the link \<open>/proc/self/exe\<close> (a path or the text of an error)
  and the test whether a file exists are parameters. \<open>parent_path\<close> leaves out what follows the last slash.
\<close>

definition parent_path :: "string \<Rightarrow> string" where
  "parent_path p = (case memrchr CHR ''/'' p of None \<Rightarrow> [] | Some 0 \<Rightarrow> ''/'' | Some i \<Rightarrow> take i p)"

definition path_join :: "string \<Rightarrow> string \<Rightarrow> string" where
  "path_join dir p = (if dir = [] \<or> last dir = CHR ''/'' then dir @ p else dir @ ''/'' @ p)"

definition default_rules_file :: "string + string \<Rightarrow> (string \<Rightarrow> bool) \<Rightarrow> string" where
  "default_rules_file self exists_file =
     (case self of
        Inl message \<Rightarrow> ''<error resolving /proc/self/exe: '' @ message @ ''>''
      | Inr exe \<Rightarrow>
          (let self_dir = parent_path exe; file = path_join self_dir ''../etc/recommended.json'' in
           if \<not> exists_file file then path_join self_dir ''../etc/dd-appsec/recommended.json'' else file))"

section \<open>Printing parameters\<close>

text \<open>
  \<open>debug_str_helper\<close>; a name is printed only when it is not empty. The texts of numbers are \<open>std::to_string\<close>, that of
  a float a parameter.
\<close>

definition debug_name :: "string \<Rightarrow> string" where
  "debug_name name = (if length name \<noteq> 0 then c_str name @ '': '' else [])"

fun debug_join :: "string list \<Rightarrow> string" where
  "debug_join [] = []"
| "debug_join [x] = x"
| "debug_join (x # y # xs) = x @ '', '' @ debug_join (y # xs)"

fun debug_str :: "(u64 \<Rightarrow> string) \<Rightarrow> param \<Rightarrow> string" where
  "debug_str f P_invalid = ''<invalid>''"
| "debug_str f (P_bool b) = (if b then ''true'' else ''false'')"
| "debug_str f (P_signed i) = int_dec i"
| "debug_str f (P_unsigned i) = int_dec i"
| "debug_str f (P_string s) = [CHR 0x22] @ s @ [CHR 0x22]"
| "debug_str f (P_array ps) = ''['' @ debug_join (map (debug_str f) ps) @ '']''"
| "debug_str f (P_map ms) = ''{'' @ debug_join (map (\<lambda>(k, p). debug_name k @ debug_str f p) ms) @ ''}''"
| "debug_str f (P_float d) = f d"
| "debug_str f P_null = ''<null>''"

end
