(* ===== verification/Helper_Client.thy ===== *)
theory Helper_Client
  imports Helper_Service Transport
begin

text \<open>
  A client of the helper: src/helper/client.cpp and client.hpp. This is the session that a worker of the helper
  has with one connection of the extension.

  The state holds the calls made, the manager of services, the services that other clients hold and the
  client itself. A command returns whether the session goes on; \<open>None\<close> is undefined behaviour, such as
  the use of a service that is not there. What the client takes from outside is in the record
  \<open>client_env\<close>: the broker's surroundings, those of a service, the clock, random identifiers, the order of a
  set, the rounding of a product, zlib and base64. \<open>ce_uuid\<close> is the n-th identifier drawn after a
  sequence of calls.
\<close>

section \<open>State\<close>

record ('h, 'c) client =
  cl_service :: "nat option"
  cl_context :: "('h waf_instance, 'c waf_listener) engine_context option"
  cl_client_enabled_conf :: "bool option"
  cl_request_enabled :: bool
  cl_runtime_id :: string

record ('h, 'c) client_world = world +
  cw_manager :: "'h service_manager"
  cw_held :: "nat list"
  cw_client :: "('h, 'c) client"

record ('h, 'c) client_env = broker_env +
  ce_service :: "('h, 'c) service_env"
  ce_uuid :: "nat \<Rightarrow> sys_trace \<Rightarrow> string"
  ce_now :: "sys_trace \<Rightarrow> nat"
  ce_set_order :: "string list \<Rightarrow> string list"
  ce_rnd :: "real \<Rightarrow> real"
  ce_deflate :: deflater
  ce_base64_encode :: "string \<Rightarrow> string"

definition new_client :: "('h, 'c) client" where
  "new_client = \<lparr>cl_service = None, cl_context = None, cl_client_enabled_conf = None, cl_request_enabled = False,
     cl_runtime_id = []\<rparr>"

text \<open>\<open>what()\<close> of the exceptions that reach a client.\<close>

fun exn_what :: "exn \<Rightarrow> string" where
  "exn_what Internal_error = ''internal error''"
| "exn_what Timeout_error = ''timeout error''"
| "exn_what (Invalid_object s) = s"
| "exn_what Invalid_argument = ''invalid argument''"
| "exn_what (Parsing_error s) = s"
| "exn_what (System_error s) = s"
| "exn_what (Runtime_error s) = s"

definition client_service :: "('h, 'c, 'w) client_world_scheme \<Rightarrow> 'h service option" where
  "client_service w = Option.bind (cl_service (cw_client w)) (sm_services (cw_manager w))"

definition update_client :: "(('h, 'c) client \<Rightarrow> ('h, 'c) client) \<Rightarrow> (('h, 'c, 'w) client_world_scheme, unit) state" where
  "update_client f = modify (\<lambda>w. w\<lparr>cw_client := f (cw_client w)\<rparr>)"

definition update_service :: "('h service \<Rightarrow> 'h service) \<Rightarrow> (('h, 'c, 'w) client_world_scheme, unit) state" where
  "update_service f = modify (\<lambda>w. case cl_service (cw_client w) of
      None \<Rightarrow> w
    | Some a \<Rightarrow> w\<lparr>cw_manager := (cw_manager w)\<lparr>sm_services :=
        (sm_services (cw_manager w))(a := map_option f (sm_services (cw_manager w) a))\<rparr>\<rparr>)"

section \<open>Responses\<close>

definition send_error_response :: "'a broker_env_scheme \<Rightarrow> int \<Rightarrow> ('w world_scheme, bool) state" where
  "send_error_response env sock = do {
     r \<leftarrow> broker_send env sock Error_response;
     ret (case r of Inl _ \<Rightarrow> False | Inr b \<Rightarrow> b)
   }"

text \<open>Sending a response whose failure by an exception gives \<open>on_throw\<close>.\<close>

definition send_response :: "'a broker_env_scheme \<Rightarrow> int \<Rightarrow> bool \<Rightarrow> helper_response \<Rightarrow> ('w world_scheme, bool option) state" where
  "send_response env sock on_throw m = do {
     r \<leftarrow> broker_send env sock m;
     ret (Some (case r of Inl _ \<Rightarrow> on_throw | Inr b \<Rightarrow> b))
   }"

definition fail_with_error :: "'a broker_env_scheme \<Rightarrow> int \<Rightarrow> ('w world_scheme, bool option) state" where
  "fail_with_error env sock = do { _ \<leftarrow> send_error_response env sock; ret (Some False) }"

definition verdict_of :: "engine_result option \<Rightarrow> verdict_response" where
  "verdict_of res =
     (case res of
        None \<Rightarrow> \<lparr>vr_verdict = ''ok'', vr_parameters = Map.empty, vr_triggers = [], vr_force_keep = False\<rparr>
      | Some r \<Rightarrow>
          \<lparr>vr_verdict = (case res_type r of Block_action \<Rightarrow> ''block'' | Redirect_action \<Rightarrow> ''redirect'' | Record_action \<Rightarrow> ''record''),
           vr_parameters = (case res_type r of Record_action \<Rightarrow> Map.empty | _ \<Rightarrow> res_parameters r),
           vr_triggers = res_events r, vr_force_keep = res_force_keep r\<rparr>)"

section \<open>Commands\<close>

definition compute_client_status :: "(('h, 'c, 'w) client_world_scheme, bool) state" where
  "compute_client_status = do {
     c \<leftarrow> gets cw_client;
     s \<leftarrow> gets client_service;
     let enabled = (case cl_client_enabled_conf c of
         Some b \<Rightarrow> b
       | None \<Rightarrow> (case s of None \<Rightarrow> False | Some s \<Rightarrow> get_asm_enabled_status s = ASM_ENABLED));
     update_client (\<lambda>c. c\<lparr>cl_request_enabled := enabled\<rparr>);
     ret enabled
   }"

definition session_service_id :: "('h, 'c, 'e) client_env_scheme \<Rightarrow> sys_trace \<Rightarrow> client_init_request \<Rightarrow> service_identifier" where
  "session_service_id env tr command =
     (if sid_runtime_id (ci_service command) = []
      then (ci_service command)\<lparr>sid_runtime_id := ce_uuid env 0 tr\<rparr> else ci_service command)"

definition handle_client_init ::
  "('h, 'c, 'e) client_env_scheme \<Rightarrow> int \<Rightarrow> client_init_request \<Rightarrow> (('h, 'c, 'w) client_world_scheme, bool option) state" where
  "handle_client_init env sock command = do {
     tr \<leftarrow> gets trace;
     let sid = session_service_id env tr command;
     update_client (\<lambda>c. c\<lparr>cl_client_enabled_conf := ci_enabled_configuration command,
       cl_runtime_id := sid_runtime_id sid\<rparr>);
     w \<leftarrow> gets (\<lambda>w. w);
     case create_service ((ce_service env)\<lparr>se_uuid := ce_uuid env 1 tr\<rparr>)
            (cw_held w @ (case cl_service (cw_client w) of None \<Rightarrow> [] | Some a \<Rightarrow> [a]))
            sid (ci_engine_settings command) (ci_rc_settings command) (ci_enabled_configuration command = None)
            (Map.empty, Map.empty) (cw_manager w) of
       None \<Rightarrow> ret None
     | Some (r, (meta, metrics), m) \<Rightarrow> do {
         modify (\<lambda>w. w\<lparr>cw_manager := m\<rparr>);
         errors \<leftarrow> (case r of
             Inl e \<Rightarrow> ret [exn_what e]
           | Inr a \<Rightarrow> do {
               update_client (\<lambda>c. c\<lparr>cl_service := Some a\<rparr>);
               update_service (register_runtime_id (se_first (ce_service env)) (sid_runtime_id sid));
               ret []
             });
         sent \<leftarrow> broker_send env sock
           (Client_init_response (if errors \<noteq> [] then ''fail'' else ''ok'') errors meta metrics);
         ret (Some (errors = [] \<and> sent = Inr True))
       }
   }"

text \<open>\<open>context_.emplace\<close> on the engine of the service.\<close>

definition emplace_context :: "'h service \<Rightarrow> (('h, 'c, 'w) client_world_scheme, unit) state" where
  "emplace_context s = update_client (\<lambda>c. c\<lparr>cl_context := Some (new_context (svc_engine s))\<rparr>)"

definition ensure_context :: "(('h, 'c, 'w) client_world_scheme, bool) state" where
  "ensure_context = do {
     c \<leftarrow> gets cw_client;
     s \<leftarrow> gets client_service;
     case cl_context c of
       Some _ \<Rightarrow> ret True
     | None \<Rightarrow> (case s of None \<Rightarrow> ret False | Some s \<Rightarrow> do { emplace_context s; ret True })
   }"

definition context_publish ::
  "('h, 'c, 'e) client_env_scheme \<Rightarrow> param \<Rightarrow> (('h, 'c, 'w) client_world_scheme, (exn + engine_result option) option) state" where
  "context_publish env data = do {
     w \<leftarrow> gets (\<lambda>w. w);
     case (client_service w, cl_context (cw_client w)) of
       (Some s, Some ctx) \<Rightarrow>
         (let (r, ctx, limiter) = publish (waf_subscriber (ee_ddwaf (ce_service env))) (ce_set_order env)
                (ce_now env (trace w)) data ctx (eng_limiter (svc_engine s)) in do {
            update_client (\<lambda>c. c\<lparr>cl_context := Some ctx\<rparr>);
            update_service (\<lambda>s. s\<lparr>svc_engine := (svc_engine s)\<lparr>eng_limiter := limiter\<rparr>\<rparr>);
            ret (Some r)
          })
     | _ \<Rightarrow> ret None
   }"

definition publish_and_respond ::
  "('h, 'c, 'e) client_env_scheme \<Rightarrow> int \<Rightarrow> (verdict_response \<Rightarrow> helper_response) \<Rightarrow> param \<Rightarrow>
   (('h, 'c, 'w) client_world_scheme, bool option) state" where
  "publish_and_respond env sock response data = do {
     r \<leftarrow> context_publish env data;
     case r of
       None \<Rightarrow> ret None
     | Some (Inl e) \<Rightarrow> fail_with_error env sock
     | Some (Inr res) \<Rightarrow> send_response env sock False (response (verdict_of res))
   }"

definition handle_request_init ::
  "('h, 'c, 'e) client_env_scheme \<Rightarrow> int \<Rightarrow> param \<Rightarrow> (('h, 'c, 'w) client_world_scheme, bool option) state" where
  "handle_request_init env sock data = do {
     s \<leftarrow> gets client_service;
     case s of
       None \<Rightarrow> fail_with_error env sock
     | Some s \<Rightarrow> do {
         enabled \<leftarrow> compute_client_status;
         if \<not> enabled then send_response env sock True (Config_features_response False)
         else do {
           emplace_context s;
           publish_and_respond env sock Request_init_response data
         }
       }
   }"

definition handle_request_exec ::
  "('h, 'c, 'e) client_env_scheme \<Rightarrow> int \<Rightarrow> param \<Rightarrow> (('h, 'c, 'w) client_world_scheme, bool option) state" where
  "handle_request_exec env sock data = do {
     ok \<leftarrow> ensure_context;
     if \<not> ok then fail_with_error env sock
     else publish_and_respond env sock Request_exec_response data
   }"

definition handle_config_sync ::
  "('h, 'c, 'e) client_env_scheme \<Rightarrow> int \<Rightarrow> (('h, 'c, 'w) client_world_scheme, bool option) state" where
  "handle_config_sync env sock = do {
     s \<leftarrow> gets client_service;
     case s of
       None \<Rightarrow> fail_with_error env sock
     | Some s \<Rightarrow> do {
         enabled \<leftarrow> compute_client_status;
         if enabled then send_response env sock True (Config_features_response True)
         else send_response env sock False Config_sync_response
       }
   }"

text \<open>The request for schemas is added to data that is a map; a schema that is long is compressed.\<close>

definition add_schema_request :: "param \<Rightarrow> param" where
  "add_schema_request data =
     (case data of
        P_map ms \<Rightarrow> P_map (ms @ [(''waf.context.processor'', P_map [(''extract-schema'', P_bool True)])])
      | _ \<Rightarrow> data)"

definition max_plain_schema_allowed :: nat where
  "max_plain_schema_allowed = 260"

definition schema_value :: "('h, 'c, 'e) client_env_scheme \<Rightarrow> string \<Rightarrow> string" where
  "schema_value env value =
     (if length value > max_plain_schema_allowed then
        (case compress (ce_rnd env) (ce_deflate env) value of None \<Rightarrow> value | Some z \<Rightarrow> ce_base64_encode env z)
      else value)"

definition schemas_meta :: "('h, 'c, 'e) client_env_scheme \<Rightarrow> engine_result option \<Rightarrow> meta" where
  "schemas_meta env res =
     (case res of
        None \<Rightarrow> Map.empty
      | Some r \<Rightarrow> foldl (\<lambda>m (k, v). if m k = None then m(k \<mapsto> schema_value env v) else m) Map.empty (res_schemas r))"

definition respond_shutdown ::
  "('h, 'c, 'e) client_env_scheme \<Rightarrow> int \<Rightarrow> engine_result option \<Rightarrow> (('h, 'c, 'w) client_world_scheme, bool option) state" where
  "respond_shutdown env sock res = do {
     c \<leftarrow> gets cw_client;
     case cl_context c of
       None \<Rightarrow> ret None
     | Some ctx \<Rightarrow>
         (let (meta, metrics) = context_meta_and_metrics (waf_subscriber (ee_ddwaf (ce_service env))) ctx
                (schemas_meta env res, Map.empty) in
          send_response env sock False (Request_shutdown_response (verdict_of res) meta metrics))
   }"

text \<open>The scope that the sampler gave ends with the block that asks for it, however the block is left.\<close>

definition sampled_publish ::
  "('h, 'c, 'e) client_env_scheme \<Rightarrow> param \<Rightarrow> (('h, 'c, 'w) client_world_scheme, (exn + engine_result option) option) state" where
  "sampled_publish env data = do {
     s \<leftarrow> gets client_service;
     case s of
       None \<Rightarrow> ret None
     | Some s \<Rightarrow>
         (let (hit, sampler) = sampler_get (ce_rnd env) (svc_schema_sampler s) in do {
            update_service (\<lambda>s. s\<lparr>svc_schema_sampler := sampler\<rparr>);
            r \<leftarrow> context_publish env (if hit then add_schema_request data else data);
            update_service (\<lambda>s. if hit then s\<lparr>svc_schema_sampler := scope_end (svc_schema_sampler s)\<rparr> else s);
            ret r
          })
   }"

definition handle_request_shutdown ::
  "('h, 'c, 'e) client_env_scheme \<Rightarrow> int \<Rightarrow> param \<Rightarrow> (('h, 'c, 'w) client_world_scheme, bool option) state" where
  "handle_request_shutdown env sock data = do {
     ok \<leftarrow> ensure_context;
     if \<not> ok then fail_with_error env sock
     else do {
       r \<leftarrow> sampled_publish env data;
       res \<leftarrow> (case r of
           None \<Rightarrow> ret None
         | Some (Inl e) \<Rightarrow> fail_with_error env sock
         | Some (Inr res) \<Rightarrow> respond_shutdown env sock res);
       update_client (\<lambda>c. c\<lparr>cl_context := None\<rparr>);
       ret res
     }
   }"

fun handle_command ::
  "('h, 'c, 'e) client_env_scheme \<Rightarrow> int \<Rightarrow> helper_request \<Rightarrow> (('h, 'c, 'w) client_world_scheme, bool option) state" where
  "handle_command env sock (Client_init command) = handle_client_init env sock command"
| "handle_command env sock (Request_init data) = handle_request_init env sock data"
| "handle_command env sock (Request_exec data) = handle_request_exec env sock data"
| "handle_command env sock Config_sync = handle_config_sync env sock"
| "handle_command env sock (Request_shutdown data) = handle_request_shutdown env sock data"
| "handle_command env sock (Unknown_request _) = ret None"

section \<open>The session\<close>

text \<open>The end of \<open>handle_message\<close> for a problem that is answered with an error.\<close>

definition reject_message ::
  "('h, 'c, 'e) client_env_scheme \<Rightarrow> int \<Rightarrow> bool \<Rightarrow> (('h, 'c, 'w) client_world_scheme, bool option) state" where
  "reject_message env sock result = do {
     ok \<leftarrow> send_error_response env sock;
     if \<not> ok then ret (Some False)
     else if result then do { _ \<leftarrow> compute_client_status; ret (Some True) }
     else ret (Some False)
   }"

text \<open>\<open>maybe_exec_cmd_M\<close> runs a command whose identifier is among the expected ones.\<close>

definition maybe_exec_cmd ::
  "('h, 'c, 'e) client_env_scheme \<Rightarrow> int \<Rightarrow> request_id list \<Rightarrow> bool \<Rightarrow> helper_request \<Rightarrow>
   (('h, 'c, 'w) client_world_scheme, bool option) state" where
  "maybe_exec_cmd env sock ids ignore_unexpected_messages msg =
     (if request_id_of msg \<in> set ids then handle_command env sock msg
      else reject_message env sock ignore_unexpected_messages)"

definition handle_message ::
  "('h, 'c, 'e) client_env_scheme \<Rightarrow> int \<Rightarrow> request_id list \<Rightarrow> int \<Rightarrow> bool \<Rightarrow>
   (('h, 'c, 'w) client_world_scheme, bool option) state" where
  "handle_message env sock ids initial_timeout ignore_unexpected_messages = do {
     r \<leftarrow> broker_recv env sock initial_timeout;
     case r of
       None \<Rightarrow> ret None
     | Some (Inr msg) \<Rightarrow> maybe_exec_cmd env sock ids ignore_unexpected_messages msg
     | Some (Inl e) \<Rightarrow>
         (case e of
            Client_disconnect \<Rightarrow> ret (Some False)
          | Out_of_range \<Rightarrow> reject_message env sock True
          | Length_error \<Rightarrow> reject_message env sock False
          | Bad_cast \<Rightarrow> reject_message env sock True
          | Unpack_error \<Rightarrow> reject_message env sock True
          | Other_exception \<Rightarrow> ret (Some False))
   }"

definition run_client_init ::
  "('h, 'c, 'e) client_env_scheme \<Rightarrow> int \<Rightarrow> (('h, 'c, 'w) client_world_scheme, bool option) state" where
  "run_client_init env sock = handle_message env sock [Id_client_init] 500 False"

definition run_request ::
  "('h, 'c, 'e) client_env_scheme \<Rightarrow> int \<Rightarrow> (('h, 'c, 'w) client_world_scheme, bool option) state" where
  "run_request env sock = do {
     c \<leftarrow> gets cw_client;
     if \<not> cl_request_enabled c then handle_message env sock [Id_request_init, Id_config_sync] 0 True
     else handle_message env sock [Id_request_init, Id_request_exec, Id_config_sync, Id_request_shutdown] 0 True
   }"

text \<open>\<open>run\<close>, given the answers of \<open>q.running()\<close>; the pool runs no longer after the last of them.\<close>

fun run_requests ::
  "('h, 'c, 'e) client_env_scheme \<Rightarrow> int \<Rightarrow> bool list \<Rightarrow> (('h, 'c, 'w) client_world_scheme, unit option) state" where
  "run_requests env sock [] = ret (Some ())"
| "run_requests env sock (running # rs) =
     (if \<not> running then ret (Some ())
      else do {
        r \<leftarrow> run_request env sock;
        case r of None \<Rightarrow> ret None | Some b \<Rightarrow> if b then run_requests env sock rs else ret (Some ())
      })"

definition client_run ::
  "('h, 'c, 'e) client_env_scheme \<Rightarrow> int \<Rightarrow> bool list \<Rightarrow> (('h, 'c, 'w) client_world_scheme, unit option) state" where
  "client_run env sock running = do {
     r \<leftarrow> (case running of
         True # rs \<Rightarrow> do {
           r \<leftarrow> run_client_init env sock;
           case r of None \<Rightarrow> ret None | Some b \<Rightarrow> if b then run_requests env sock rs else ret (Some ())
         }
       | False # rs \<Rightarrow> run_requests env sock rs
       | [] \<Rightarrow> ret (Some ()));
     c \<leftarrow> gets cw_client;
     update_service (unregister_runtime_id (se_first (ce_service env)) (cl_runtime_id c));
     ret r
   }"

section \<open>What is sent\<close>

fun sends :: "sys_trace \<Rightarrow> string list" where
  "sends [] = []"
| "sends ((Sys_send _ b, r) # es) = b # sends es"
| "sends (_ # es) = sends es"

lemma sends_append [simp]: "sends (es @ fs) = sends es @ sends fs"
  by (induction es rule: sends.induct) auto

text \<open>All calls that send took all their bytes.\<close>

definition taken :: "sys_trace \<Rightarrow> bool" where
  "taken es \<longleftrightarrow> (\<forall>(c, r) \<in> set es. \<forall>s b. c = Sys_send s b \<longrightarrow> nat (rv r) = length b)"

lemma taken_simps [simp]:
  "taken []" "taken ((Sys_send s b, r) # es) \<longleftrightarrow> nat (rv r) = length b \<and> taken es"
  "taken (es @ fs) \<longleftrightarrow> taken es \<and> taken fs"
  by (auto simp: taken_def ball_Un)

text \<open>The two buffers of a response.\<close>

definition response_buffers :: "'a broker_env_scheme \<Rightarrow> helper_response \<Rightarrow> string list" where
  "response_buffers env m = (let buffer = pack_messages env [m] in [dd_header (length buffer), buffer])"

text \<open>One response, sent as a whole where \<open>ok\<close> holds, or begun.\<close>

definition one_response :: "'a broker_env_scheme \<Rightarrow> helper_response \<Rightarrow> bool \<Rightarrow> sys_trace \<Rightarrow> bool" where
  "one_response env m ok es \<longleftrightarrow> received es = [] \<and>
     (if ok then sends es = response_buffers env m \<and> taken es
      else sends es = response_buffers env m \<or> sends es = [hd (response_buffers env m)])"

text \<open>Steps that send nothing and leave everything but the calls as it is.\<close>

definition quiet :: "'w world_scheme \<Rightarrow> 'w world_scheme \<Rightarrow> bool" where
  "quiet w w' \<longleftrightarrow> world.more w' = world.more w \<and> (\<exists>es. trace w' = trace w @ es \<and> sends es = [] \<and> taken es)"

lemma quiet_trans: "quiet w w' \<Longrightarrow> quiet w' w'' \<Longrightarrow> quiet w w''"
proof -
  assume "quiet w w'" "quiet w' w''"
  then obtain es fs where "world.more w'' = world.more w" "trace w'' = trace w @ es @ fs" "sends es = []" "sends fs = []"
      "taken es" "taken fs" unfolding quiet_def by auto
  then show ?thesis unfolding quiet_def by (intro conjI exI [of _ "es @ fs"]) simp_all
qed

interpretation quiet: frame_relation quiet
proof unfold_locales
  show "quiet w w" for w :: "'w world_scheme" by (auto simp: quiet_def intro!: exI [of _ "[]"])
qed (rule quiet_trans)

lemma keeps_quiet_sys:
  "keeps quiet (sys env (Sys_recv s n))" "keeps quiet (sys env (Sys_set_timeo s a b c))"
  by (auto simp: keeps_def quiet_def taken_def)

lemmas quiet_rules = quiet.keeps_rules keeps_quiet_sys

lemma quiet_socket:
  "keeps quiet (socket_recv_loop fuel env sock len got)" "keeps quiet (socket_discard_loop fuel env sock len n)"
  "keeps quiet (socket_set_recv_timeout env sock ms)"
proof -
  show "keeps quiet (socket_recv_loop fuel env sock len got)"
    by (induction fuel arbitrary: got) (auto intro!: quiet_rules)
  show "keeps quiet (socket_discard_loop fuel env sock len n)"
    by (induction fuel arbitrary: n) (auto intro!: quiet_rules)
  show "keeps quiet (socket_set_recv_timeout env sock ms)"
    by (auto simp: socket_set_recv_timeout_def intro!: quiet_rules)
qed

lemma quiet_broker_recv: "keeps quiet (broker_recv env sock timeout)"
  unfolding broker_recv_def broker_recv_body_def socket_recv_def socket_discard_def
  by (intro quiet_rules quiet_socket)

lemma wp_broker_send:
  fixes w :: "'w world_scheme"
  shows "wp (broker_send env sock m) (\<lambda>out w'. world.more w' = world.more w \<and>
    (\<exists>es. trace w' = trace w @ es \<and> one_response env m (out = Inr True) es \<and> (isl out \<longrightarrow> call_failed es))) w"
  by (auto simp: broker_send_def broker_send_all_def socket_send_def wp_rules one_response_def response_buffers_def Let_def
    header_roundtrip(1))

lemma world_state: "world.more w' = world.more w \<Longrightarrow> trace w' = t \<Longrightarrow> w' = w\<lparr>trace := t\<rparr>"
  by simp

text \<open>A command that returned \<open>b\<close> after a response; it may go on after a throw where the code does.\<close>

definition answered_by :: "'a broker_env_scheme \<Rightarrow> bool \<Rightarrow> helper_response \<Rightarrow> bool \<Rightarrow> sys_trace \<Rightarrow> bool" where
  "answered_by env on_throw m b es \<longleftrightarrow> one_response env m (b \<and> \<not> (on_throw \<and> call_failed es)) es"

lemma one_response_weaken: "one_response env m ok es \<Longrightarrow> one_response env m (ok \<and> P) es"
  by (auto simp: one_response_def split: if_splits)

lemma wp_send_response:
  fixes w :: "'w world_scheme"
  assumes "\<And>b es. answered_by env on_throw m b es \<Longrightarrow> Q (Some b) (w\<lparr>trace := trace w @ es\<rparr>)"
  shows "wp (send_response env sock on_throw m) Q w"
  unfolding send_response_def
proof (intro wp_bindI wp_mono [OF wp_broker_send], clarify)
  fix out and w' :: "'w world_scheme" and es
  assume *: "world.more w' = world.more w" "trace w' = trace w @ es" "one_response env m (out = Inr True) es"
    "isl out \<longrightarrow> call_failed es"
  have w': "w' = w\<lparr>trace := trace w @ es\<rparr>" using *(1,2) by simp
  show "wp (ret (Some (case out of Inl _ \<Rightarrow> on_throw | Inr b \<Rightarrow> b))) Q w'"
    unfolding wp_ret w' using assms *(3,4) one_response_weaken [OF *(3)]
    by (cases out) (auto simp: answered_by_def)
qed

lemma wp_send_error_response:
  fixes w :: "'w world_scheme"
  assumes "\<And>b es. answered_by env False Error_response b es \<Longrightarrow> Q b (w\<lparr>trace := trace w @ es\<rparr>)"
  shows "wp (send_error_response env sock) Q w"
proof -
  have "wp (send_response env sock False Error_response) (\<lambda>b. Q (the b)) w"
    by (rule wp_send_response) (simp add: assms)
  then show ?thesis unfolding send_response_def send_error_response_def wp_bind
    by (rule wp_mono) (simp add: wp_ret)
qed

lemma wp_fail_with_error:
  fixes w :: "'w world_scheme"
  assumes "\<And>es. answered_by env False Error_response False es \<Longrightarrow> Q (Some False) (w\<lparr>trace := trace w @ es\<rparr>)"
  shows "wp (fail_with_error env sock) Q w"
  unfolding fail_with_error_def
  by (intro wp_bindI wp_send_error_response wp_retI assms) (auto simp: answered_by_def one_response_def split: if_splits)

section \<open>Invariant of a session\<close>

definition client_inv :: "('h, 'c, 'w) client_world_scheme \<Rightarrow> bool" where
  "client_inv w \<longleftrightarrow> manager_inv (cw_manager w) \<and>
     (\<forall>a. cl_service (cw_client w) = Some a \<longrightarrow> a < sm_next (cw_manager w)) \<and>
     (cl_context (cw_client w) \<noteq> None \<longrightarrow> cl_service (cw_client w) \<noteq> None)"

definition client_enabled :: "('h, 'c, 'w) client_world_scheme \<Rightarrow> bool" where
  "client_enabled w =
     (case cl_client_enabled_conf (cw_client w) of
        Some b \<Rightarrow> b
      | None \<Rightarrow> (case client_service w of None \<Rightarrow> False | Some s \<Rightarrow> get_asm_enabled_status s = ASM_ENABLED))"

lemma run_compute_client_status:
  "run_state compute_client_status w =
     (client_enabled w, w\<lparr>cw_client := (cw_client w)\<lparr>cl_request_enabled := client_enabled w\<rparr>\<rparr>)"
  by (simp add: compute_client_status_def client_enabled_def update_client_def Let_def)

lemma client_inv_trace [simp]: "client_inv (w\<lparr>trace := t\<rparr>) = client_inv w"
  by (simp add: client_inv_def)

lemma client_service_trace [simp]: "client_service (w\<lparr>trace := t\<rparr>) = client_service w"
  by (simp add: client_service_def)

lemma client_inv_service:
  assumes "client_inv w"
  shows "client_service w = None \<longleftrightarrow> cl_service (cw_client w) = None"
proof (cases "cl_service (cw_client w)")
  case (Some a)
  with assms have "a \<in> dom (sm_services (cw_manager w))" by (auto simp: client_inv_def manager_inv_def)
  with Some show ?thesis by (auto simp: client_service_def)
qed (simp add: client_service_def)

lemma manager_inv_services:
  "manager_inv m \<Longrightarrow> manager_inv (m\<lparr>sm_services := (sm_services m)(a := map_option f (sm_services m a))\<rparr>)"
proof -
  have "dom ((sm_services m)(a := map_option f (sm_services m a))) = dom (sm_services m)" by (auto simp: dom_def)
  then show "manager_inv m \<Longrightarrow> ?thesis" by (simp add: manager_inv_def)
qed

text \<open>The steps of the commands, each as a function on states.\<close>

definition with_service :: "('h service \<Rightarrow> 'h service) \<Rightarrow> ('h, 'c, 'w) client_world_scheme \<Rightarrow> ('h, 'c, 'w) client_world_scheme" where
  "with_service f w = snd (run_state (update_service f) w)"

definition with_context ::
  "('h waf_instance, 'c waf_listener) engine_context option \<Rightarrow> ('h, 'c, 'w) client_world_scheme \<Rightarrow> ('h, 'c, 'w) client_world_scheme" where
  "with_context ctx w = w\<lparr>cw_client := (cw_client w)\<lparr>cl_context := ctx\<rparr>\<rparr>"

lemma run_update_service: "run_state (update_service f) w = ((), with_service f w)"
  by (simp add: with_service_def update_service_def)

lemma with_service_simps [simp]:
  "trace (with_service f w) = trace w" "cw_client (with_service f w) = cw_client w"
  "client_inv w \<Longrightarrow> client_inv (with_service f w)"
  "client_service (with_service f w) = map_option f (client_service w)"
  by (auto simp: with_service_def update_service_def client_inv_def client_service_def manager_inv_services
    split: option.splits)

lemma with_context_simps [simp]:
  "trace (with_context c w) = trace w" "client_service (with_context c w) = client_service w"
  "cl_service (cw_client (with_context c w)) = cl_service (cw_client w)" "cl_context (cw_client (with_context c w)) = c"
  "cw_manager (with_context c w) = cw_manager w"
  by (simp_all add: with_context_def client_service_def)

lemma client_inv_with_context [simp]:
  "client_inv w \<Longrightarrow> client_service w \<noteq> None \<Longrightarrow> client_inv (with_context c w)"
  "client_inv w \<Longrightarrow> client_inv (with_context None w)"
  by (auto simp: client_inv_service) (auto simp: client_inv_def with_context_def)

lemma run_ensure_context:
  assumes "client_inv w"
  shows "run_state ensure_context w =
    (case client_service w of
       None \<Rightarrow> (False, w)
     | Some s \<Rightarrow> (True, with_context (Some (case cl_context (cw_client w) of
         None \<Rightarrow> new_context (svc_engine s) | Some ctx \<Rightarrow> ctx)) w))"
  using assms client_inv_service [OF assms]
  by (auto simp: ensure_context_def emplace_context_def update_client_def with_context_def client_inv_def
    split: option.splits)

text \<open>What publishing does to a client with a service and a context.\<close>

definition publish_in ::
  "('h, 'c, 'e) client_env_scheme \<Rightarrow> param \<Rightarrow> ('h, 'c, 'w) client_world_scheme \<Rightarrow> 'h service \<Rightarrow>
   ('h waf_instance, 'c waf_listener) engine_context \<Rightarrow>
   (exn + engine_result option) \<times> ('h waf_instance, 'c waf_listener) engine_context \<times> rate_limiter" where
  "publish_in env data w s ctx =
     publish (waf_subscriber (ee_ddwaf (ce_service env))) (ce_set_order env) (ce_now env (trace w)) data ctx
       (eng_limiter (svc_engine s))"

definition set_limiter :: "rate_limiter \<Rightarrow> 'h service \<Rightarrow> 'h service" where
  "set_limiter limiter s = s\<lparr>svc_engine := (svc_engine s)\<lparr>eng_limiter := limiter\<rparr>\<rparr>"

lemma run_context_publish:
  assumes "client_service w = Some s" "cl_context (cw_client w) = Some ctx"
    and "publish_in env data w s ctx = (r, ctx', limiter)"
  shows "run_state (context_publish env data) w = (Some r, with_service (set_limiter limiter) (with_context (Some ctx') w))"
  using assms by (simp add: context_publish_def publish_in_def with_context_def update_client_def run_update_service
    set_limiter_def [abs_def] split: prod.splits)

text \<open>A response to the data of a request, and the state in which it is sent.\<close>

lemma wp_publish_and_respond:
  assumes "client_service w = Some s" "cl_context (cw_client w) = Some ctx"
    and "publish_in env data w s ctx = (r, ctx', limiter)"
    and "\<And>b es. answered_by env False (case r of Inl _ \<Rightarrow> Error_response | Inr res \<Rightarrow> response (verdict_of res)) b es \<Longrightarrow>
      (isl r \<longrightarrow> \<not> b) \<Longrightarrow>
      Q (Some b) ((with_service (set_limiter limiter) (with_context (Some ctx') w))\<lparr>trace := trace w @ es\<rparr>)"
  shows "wp (publish_and_respond env sock response data) Q w"
proof -
  let ?w = "with_service (set_limiter limiter) (with_context (Some ctx') w)"
  have "wp (case r of Inl e \<Rightarrow> fail_with_error env sock
      | Inr res \<Rightarrow> send_response env sock False (response (verdict_of res))) Q ?w"
    using assms(4) assms(4) [of False] by (cases r) (auto intro!: wp_fail_with_error wp_send_response)
  then show ?thesis
    by (simp add: publish_and_respond_def wp_bind wp_def [of "context_publish env data"] run_context_publish [OF assms(1-3)])
qed

section \<open>Every message is answered\<close>

text \<open>
  What a command leaves: an answer to go on or to stop, one response, sent as a whole when the session goes on
  and no call failed, and the invariant.
\<close>

definition answers :: "('h, 'c, 'e) client_env_scheme \<Rightarrow> ('h, 'c, 'w) client_world_scheme \<Rightarrow> bool option \<Rightarrow>
    ('h, 'c, 'w) client_world_scheme \<Rightarrow> bool" where
  "answers env w out w' \<longleftrightarrow> client_inv w' \<and>
     (\<exists>b m es. out = Some b \<and> trace w' = trace w @ es \<and> one_response env m (b \<and> \<not> call_failed es) es)"

lemma answered_by_one_response:
  "answered_by env on_throw m b es \<Longrightarrow> one_response env m (b \<and> \<not> call_failed es) es"
  by (auto simp: answered_by_def one_response_def split: if_splits)

lemma answersI:
  "answered_by env on_throw m b es \<Longrightarrow> client_inv w' \<Longrightarrow> trace w' = trace w \<Longrightarrow>
   answers env w (Some b) (w'\<lparr>trace := trace w @ es\<rparr>)"
  unfolding answers_def using answered_by_one_response by fastforce

lemma answers_publish:
  assumes "client_inv w" "client_service w \<noteq> None" "cl_context (cw_client w) \<noteq> None" "trace w = trace v"
  shows "wp (publish_and_respond env sock response data) (answers env v) w"
proof -
  from assms obtain s ctx where s: "client_service w = Some s" "cl_context (cw_client w) = Some ctx" by blast
  obtain r ctx' limiter where p: "publish_in env data w s ctx = (r, ctx', limiter)" by (metis prod_cases3)
  have inv: "client_inv (with_service (set_limiter limiter) (with_context (Some ctx') w))" using assms s by simp
  show ?thesis
    by (rule wp_publish_and_respond [OF s p]) (use answersI [OF _ inv, where w = v] assms(4) in auto)
qed

lemma wp_compute_client_status:
  "wp compute_client_status Q w =
     Q (client_enabled w) (w\<lparr>cw_client := (cw_client w)\<lparr>cl_request_enabled := client_enabled w\<rparr>\<rparr>)"
  by (simp add: wp_def run_compute_client_status)

lemma client_inv_enabled [simp]:
  "client_inv (w\<lparr>cw_client := (cw_client w)\<lparr>cl_request_enabled := b\<rparr>\<rparr>) = client_inv w"
  "client_service (w\<lparr>cw_client := (cw_client w)\<lparr>cl_request_enabled := b\<rparr>\<rparr>) = client_service w"
  by (simp_all add: client_inv_def client_service_def)

lemma emplace_context_run: "run_state (emplace_context s) w = ((), with_context (Some (new_context (svc_engine s))) w)"
  by (simp add: emplace_context_def update_client_def with_context_def)

lemma answers_request_init:
  assumes "client_inv w"
  shows "wp (handle_request_init env sock data) (answers env w) w"
proof (cases "client_service w")
  case None
  then show ?thesis using assms
    by (auto simp: handle_request_init_def wp_bind wp_gets intro!: wp_fail_with_error answersI)
next
  case (Some s)
  let ?w1 = "w\<lparr>cw_client := (cw_client w)\<lparr>cl_request_enabled := client_enabled w\<rparr>\<rparr>"
  let ?w2 = "with_context (Some (new_context (svc_engine s))) ?w1"
  have "wp (publish_and_respond env sock Request_init_response data) (answers env w) ?w2"
    by (rule answers_publish) (use Some assms in simp_all)
  then have "wp (do { emplace_context s; publish_and_respond env sock Request_init_response data }) (answers env w) ?w1"
    by (simp add: wp_bind wp_def [of "emplace_context s"] emplace_context_run)
  moreover have "wp (send_response env sock True (Config_features_response False)) (answers env w) ?w1"
    using assms answersI [where w' = ?w1 and w = w] by (auto intro!: wp_send_response)
  ultimately show ?thesis using Some
    by (cases "client_enabled w") (simp_all add: handle_request_init_def wp_bind wp_gets wp_compute_client_status)
qed

lemma answers_config_sync:
  assumes "client_inv w"
  shows "wp (handle_config_sync env sock) (answers env w) w"
proof (cases "client_service w")
  case None
  then show ?thesis using assms
    by (auto simp: handle_config_sync_def wp_bind wp_gets intro!: wp_fail_with_error answersI)
next
  case (Some s)
  have "wp (send_response env sock t m) (answers env w) (w\<lparr>cw_client := (cw_client w)\<lparr>cl_request_enabled := b\<rparr>\<rparr>)" for t m b
    using assms answersI [where w' = "w\<lparr>cw_client := (cw_client w)\<lparr>cl_request_enabled := b\<rparr>\<rparr>" and w = w]
    by (auto intro!: wp_send_response)
  then show ?thesis using Some
    by (simp add: handle_config_sync_def wp_bind wp_gets wp_compute_client_status)
qed

lemma wp_ensure_context:
  assumes "client_inv w" "client_service w = None \<Longrightarrow> Q False w"
    and "\<And>s. client_service w = Some s \<Longrightarrow> Q True (with_context (Some (case cl_context (cw_client w) of
         None \<Rightarrow> new_context (svc_engine s) | Some ctx \<Rightarrow> ctx)) w)"
  shows "wp ensure_context Q w"
  using assms by (simp add: wp_def run_ensure_context split: option.splits)

lemma answers_request_exec:
  assumes "client_inv w"
  shows "wp (handle_request_exec env sock data) (answers env w) w"
  unfolding handle_request_exec_def wp_bind
proof (rule wp_ensure_context [OF assms])
  show "wp (if \<not> False then fail_with_error env sock else publish_and_respond env sock Request_exec_response data) (answers env w) w"
    using assms by (auto intro!: wp_fail_with_error answersI)
next
  fix s assume s: "client_service w = Some s"
  let ?w1 = "with_context (Some (case cl_context (cw_client w) of None \<Rightarrow> new_context (svc_engine s) | Some ctx \<Rightarrow> ctx)) w"
  have "wp (publish_and_respond env sock Request_exec_response data) (answers env w) ?w1"
    by (rule answers_publish) (use s assms in simp_all)
  then show "wp (if \<not> True then fail_with_error env sock else publish_and_respond env sock Request_exec_response data) (answers env w) ?w1"
    by simp
qed

text \<open>The end of a request: publishing under the sampler, the response, and the release of the context.\<close>

definition sampled_data :: "bool \<Rightarrow> param \<Rightarrow> param" where
  "sampled_data hit data = (if hit then add_schema_request data else data)"

definition end_scope :: "bool \<Rightarrow> 'h service \<Rightarrow> 'h service" where
  "end_scope hit s = (if hit then s\<lparr>svc_schema_sampler := scope_end (svc_schema_sampler s)\<rparr> else s)"

definition set_sampler :: "sampler \<Rightarrow> 'h service \<Rightarrow> 'h service" where
  "set_sampler sa s = s\<lparr>svc_schema_sampler := sa\<rparr>"

lemma run_sampled_publish:
  assumes "client_service w = Some s" "cl_context (cw_client w) = Some ctx"
    and "sampler_get (ce_rnd env) (svc_schema_sampler s) = (hit, sa)"
    and "publish_in env (sampled_data hit data) w s ctx = (r, ctx', limiter)"
  shows "run_state (sampled_publish env data) w =
    (Some r, with_service (end_scope hit) (with_service (set_limiter limiter)
       (with_context (Some ctx') (with_service (set_sampler sa) w))))"
proof -
  let ?w1 = "with_service (set_sampler sa) w"
  have "client_service ?w1 = Some (set_sampler sa s)" "cl_context (cw_client ?w1) = Some ctx"
    "publish_in env (sampled_data hit data) ?w1 (set_sampler sa s) ctx = (r, ctx', limiter)"
    using assms by (simp_all add: publish_in_def set_sampler_def)
  from run_context_publish [OF this] assms(1,3) show ?thesis
    by (simp add: sampled_publish_def run_update_service set_sampler_def [abs_def] sampled_data_def end_scope_def [abs_def])
qed

text \<open>The response at the end of a request, with its tags and metrics.\<close>

definition shutdown_response ::
  "('h, 'c, 'e) client_env_scheme \<Rightarrow> ('h waf_instance, 'c waf_listener) engine_context \<Rightarrow> (exn + engine_result option) \<Rightarrow> helper_response" where
  "shutdown_response env ctx r =
     (case r of
        Inl _ \<Rightarrow> Error_response
      | Inr res \<Rightarrow>
          (case context_meta_and_metrics (waf_subscriber (ee_ddwaf (ce_service env))) ctx (schemas_meta env res, Map.empty) of
             (meta, metrics) \<Rightarrow> Request_shutdown_response (verdict_of res) meta metrics))"

lemma wp_request_shutdown:
  assumes "client_inv w" "client_service w = Some s"
    and "ctx = (case cl_context (cw_client w) of None \<Rightarrow> new_context (svc_engine s) | Some ctx \<Rightarrow> ctx)"
    and "sampler_get (ce_rnd env) (svc_schema_sampler s) = (hit, sa)"
    and "publish_in env (sampled_data hit data) w s ctx = (r, ctx', limiter)"
    and "\<And>b es. answered_by env False (shutdown_response env ctx' r) b es \<Longrightarrow> (isl r \<longrightarrow> \<not> b) \<Longrightarrow>
      Q (Some b) ((with_context None (with_service (end_scope hit \<circ> set_limiter limiter \<circ> set_sampler sa) w))\<lparr>trace := trace w @ es\<rparr>)"
  shows "wp (handle_request_shutdown env sock data) Q w"
proof -
  let ?w1 = "with_context (Some ctx) w"
  let ?w2 = "with_service (end_scope hit) (with_service (set_limiter limiter)
       (with_context (Some ctx') (with_service (set_sampler sa) ?w1)))"
  have ensure: "run_state ensure_context w = (True, ?w1)" using assms(1-3) by (simp add: run_ensure_context)
  have sampled: "run_state (sampled_publish env data) ?w1 = (Some r, ?w2)"
    by (rule run_sampled_publish) (use assms(2-5) in \<open>simp_all add: publish_in_def\<close>)
  have state: "with_context None ?w2 = with_context None (with_service (end_scope hit \<circ> set_limiter limiter \<circ> set_sampler sa) w)"
    by (cases "cl_service (cw_client w)")
      (simp_all add: with_context_def with_service_def update_service_def option.map_comp comp_def)
  have trace: "trace ?w2 = trace w" by simp
  have free: "with_context None (?w2\<lparr>trace := t\<rparr>) = (with_context None ?w2)\<lparr>trace := t\<rparr>" for t by (simp add: with_context_def)
  have "wp (case r of Inl e \<Rightarrow> fail_with_error env sock | Inr res \<Rightarrow> respond_shutdown env sock res)
      (\<lambda>out w'. Q out (with_context None w')) ?w2"
  proof (cases r)
    case (Inl e)
    show ?thesis unfolding Inl sum.case
      by (rule wp_fail_with_error) (use assms(6) [of False] Inl in \<open>simp add: shutdown_response_def free state\<close>)
  next
    case (Inr res)
    obtain meta metrics where m: "context_meta_and_metrics (waf_subscriber (ee_ddwaf (ce_service env))) ctx'
        (schemas_meta env res, Map.empty) = (meta, metrics)" by fastforce
    have "cl_context (cw_client ?w2) = Some ctx'" by simp
    then show ?thesis using Inr m assms(6)
      by (auto simp: respond_shutdown_def wp_bind wp_gets shutdown_response_def free state intro!: wp_send_response)
  qed
  moreover have "wp (do { update_client (\<lambda>c. c\<lparr>cl_context := None\<rparr>); ret out }) Q w' = Q out (with_context None w')" for out w'
    by (simp add: wp_def update_client_def with_context_def)
  ultimately have "wp (do { res \<leftarrow> case r of Inl e \<Rightarrow> fail_with_error env sock | Inr res \<Rightarrow> respond_shutdown env sock res;
      update_client (\<lambda>c. c\<lparr>cl_context := None\<rparr>); ret res }) Q ?w2"
    unfolding wp_bind [of "case_sum _ _ _"] by (auto elim: wp_mono)
  then show ?thesis
    by (simp add: handle_request_shutdown_def wp_bind [of ensure_context] wp_def [of ensure_context] ensure
      wp_bind [of "sampled_publish env data"] wp_def [of "sampled_publish env data"] sampled)
qed

lemma answers_request_shutdown:
  assumes "client_inv w"
  shows "wp (handle_request_shutdown env sock data) (answers env w) w"
proof (cases "client_service w")
  case None
  then have "wp ensure_context Q w = Q False w" for Q using assms by (simp add: wp_def run_ensure_context)
  then show ?thesis using assms
    by (auto simp: handle_request_shutdown_def wp_bind intro!: wp_fail_with_error answersI)
next
  case (Some s)
  define ctx where "ctx = (case cl_context (cw_client w) of None \<Rightarrow> new_context (svc_engine s) | Some ctx \<Rightarrow> ctx)"
  obtain hit sa where h: "sampler_get (ce_rnd env) (svc_schema_sampler s) = (hit, sa)" by fastforce
  obtain r ctx' limiter where p: "publish_in env (sampled_data hit data) w s ctx = (r, ctx', limiter)" by (metis prod_cases3)
  let ?w' = "with_context None (with_service (end_scope hit \<circ> set_limiter limiter \<circ> set_sampler sa) w)"
  have "client_inv ?w'" "trace ?w' = trace w" using assms by simp_all
  from answersI [OF _ this] show ?thesis by (intro wp_request_shutdown [OF assms Some ctx_def h p]) auto
qed

lemma answers_reject:
  assumes "client_inv w"
  shows "wp (reject_message env sock result) (answers env w) w"
proof -
  have "wp (if \<not> b then ret (Some False) else if result then do { _ \<leftarrow> compute_client_status; ret (Some True) } else ret (Some False))
      (answers env w) (w\<lparr>trace := trace w @ es\<rparr>)" if a: "answered_by env False Error_response b es" for b es
  proof -
    have f: "answered_by env False Error_response False es" using a by (auto simp: answered_by_def one_response_def split: if_splits)
    have "answers env w (Some False) (w\<lparr>trace := trace w @ es\<rparr>)" by (rule answersI [OF f assms refl])
    moreover have "answers env w (Some True) (w\<lparr>trace := trace w @ es, cw_client := (cw_client w)\<lparr>cl_request_enabled := e\<rparr>\<rparr>)" if b for e
    proof -
      have "w\<lparr>trace := trace w @ es, cw_client := (cw_client w)\<lparr>cl_request_enabled := e\<rparr>\<rparr> =
        (w\<lparr>cw_client := (cw_client w)\<lparr>cl_request_enabled := e\<rparr>\<rparr>)\<lparr>trace := trace w @ es\<rparr>" by simp
      then show ?thesis by (simp only:) (rule answersI, use a that assms in simp_all)
    qed
    ultimately show ?thesis by (auto simp: wp_bind wp_ret wp_compute_client_status)
  qed
  then show ?thesis unfolding reject_message_def wp_bind by (rule wp_send_error_response)
qed

lemma answers_command:
  assumes "client_inv w" "request_id_of msg \<notin> {Id_client_init, Id_unknown}"
  shows "wp (handle_command env sock msg) (answers env w) w"
  using assms answers_request_init answers_request_exec answers_config_sync answers_request_shutdown
  by (cases msg) auto

text \<open>A message of the session: what is received, then the answer, or nothing and the end.\<close>

definition handles ::
  "('h, 'c, 'e) client_env_scheme \<Rightarrow> ('h, 'c, 'w) client_world_scheme \<Rightarrow> bool option \<Rightarrow> ('h, 'c, 'w) client_world_scheme \<Rightarrow> bool" where
  "handles env w out w' \<longleftrightarrow> client_inv w' \<and>
     (\<exists>b rs ss. out = Some b \<and> trace w' = trace w @ rs @ ss \<and> sends rs = [] \<and>
        (if ss = [] then \<not> b else \<exists>m. one_response env m (b \<and> \<not> call_failed ss) ss))"

lemma handles_quiet:
  assumes "quiet w w1" "answers env w1 out w'"
  shows "handles env w out w'"
proof -
  from assms(1) obtain rs where "trace w1 = trace w @ rs" "sends rs = []" unfolding quiet_def by blast
  moreover from assms(2) obtain b m ss where "client_inv w'" "out = Some b" "trace w' = trace w1 @ ss"
      "one_response env m (b \<and> \<not> call_failed ss) ss" unfolding answers_def by blast
  moreover have "ss \<noteq> []" using calculation(6) by (auto simp: one_response_def response_buffers_def Let_def split: if_splits)
  ultimately show ?thesis unfolding handles_def
    by (intro conjI exI [of _ b] exI [of _ rs] exI [of _ ss]) (simp_all, blast)
qed

lemma quiet_state: "quiet w w' \<Longrightarrow> w' = w\<lparr>trace := trace w'\<rparr>"
  by (simp add: quiet_def)

lemma client_inv_quiet: "quiet w w' \<Longrightarrow> client_inv w' = client_inv w"
  using quiet_state [of w w'] client_inv_trace [of "trace w'" w] by simp

lemma handles_stop:
  assumes "quiet w w1" "client_inv w"
  shows "handles env w (Some False) w1"
proof -
  from assms(1) obtain rs where "trace w1 = trace w @ rs @ []" "sends rs = []" unfolding quiet_def by auto
  moreover have "client_inv w1" using assms client_inv_quiet by blast
  ultimately show ?thesis unfolding handles_def by (intro conjI exI) (auto)
qed

lemma handles_message:
  assumes "recv_ok (be_sys env)" "client_inv w"
    and "\<And>msg w1. quiet w w1 \<Longrightarrow> request_id_of msg \<in> set ids \<Longrightarrow> wp (handle_command env sock msg) (answers env w1) w1"
  shows "wp (handle_message env sock ids timeout ignore) (handles env w) w"
proof -
  have q: "wp (broker_recv env sock timeout) (\<lambda>_. quiet w) w" by (rule quiet.keeps_wp [OF quiet_broker_recv])
  have r: "wp (broker_recv env sock timeout) (\<lambda>out _. out \<noteq> None) w"
    by (rule wp_mono [OF wp_broker_recv [OF assms(1)]]) (auto simp: broker_recv_post_def)
  have step: "wp (case r of None \<Rightarrow> ret None | Some (Inr msg) \<Rightarrow> maybe_exec_cmd env sock ids ignore msg
      | Some (Inl e) \<Rightarrow> (case e of Client_disconnect \<Rightarrow> ret (Some False) | Out_of_range \<Rightarrow> reject_message env sock True
          | Length_error \<Rightarrow> reject_message env sock False | Bad_cast \<Rightarrow> reject_message env sock True
          | Unpack_error \<Rightarrow> reject_message env sock True | Other_exception \<Rightarrow> ret (Some False))) (handles env w) w1"
    if w1: "quiet w w1" "r \<noteq> None" for r w1
  proof -
    have inv: "client_inv w1" using assms(2) client_inv_quiet [OF w1(1)] by simp
    note rej = wp_mono [OF answers_reject [OF inv] handles_quiet [OF w1(1)]]
    have "wp (maybe_exec_cmd env sock ids ignore msg) (handles env w) w1" for msg
      using rej wp_mono [OF assms(3) [OF w1(1)] handles_quiet [OF w1(1)]] by (auto simp: maybe_exec_cmd_def)
    then show ?thesis using w1(2) rej handles_stop [OF w1(1) assms(2)]
      by (auto simp: wp_ret split: option.split sum.split broker_exn.split)
  qed
  show ?thesis unfolding handle_message_def wp_bind by (rule wp_mono [OF wp_conj [OF q r]]) (use step in blast)
qed

lemma engine_from_settings_uuid [simp]: "engine_from_settings (env\<lparr>se_uuid := u\<rparr>) = engine_from_settings env"
  by (intro ext) (simp add: engine_from_settings_def cong: sum.case_cong outcome.case_cong)

text \<open>Settings whose rules can be converted; \<open>ruleset_conversion\<close> of the conversion says when that is so.\<close>

definition engines_defined :: "('h, 'c, 'e) client_env_scheme \<Rightarrow> bool" where
  "engines_defined env \<longleftrightarrow> (\<forall>s m. engine_from_settings (ce_service env) s m \<noteq> None)"

lemma create_service_defined:
  assumes "engines_defined env" "manager_inv m"
  obtains r mm' m' where
    "create_service ((ce_service env)\<lparr>se_uuid := u\<rparr>) held sid es rcs dyn mm m = Some (r, mm', m')"
    "manager_inv m'" "sm_next m \<le> sm_next m'" "\<And>a. r = Inr a \<Longrightarrow> a < sm_next m'"
proof -
  have "engine_from_settings (ce_service env) es mm \<noteq> None" using assms(1) unfolding engines_defined_def by blast
  then have "service_from_settings ((ce_service env)\<lparr>se_uuid := u\<rparr>) sid es rcs dyn mm \<noteq> None"
    by (auto simp: service_from_settings_def Let_def split: sum.splits)
  then have "create_service ((ce_service env)\<lparr>se_uuid := u\<rparr>) held sid es rcs dyn mm m \<noteq> None"
    by (auto simp: create_service_def Let_def split: option.splits sum.splits)
  then obtain r mm' m' where c: "create_service ((ce_service env)\<lparr>se_uuid := u\<rparr>) held sid es rcs dyn mm m = Some (r, mm', m')"
    by (metis not_None_eq prod_cases3)
  have next_add: "sm_next (add_service held k s m) = Suc (sm_next m)" for k s
    by (simp add: add_service_def cleanup_cache_def Let_def)
  have cached: "a < sm_next m" if "map_of (sm_cache m) k = Some a" for a k
    using map_of_SomeD [OF that] assms(2) by (force simp: manager_inv_def)
  have "sm_next m \<le> sm_next m'" using c
    by (auto simp: create_service_def Let_def next_add split: option.splits sum.splits if_splits)
  moreover have "a < sm_next m'" if "r = Inr a" for a using c that cached
    by (auto simp: create_service_def Let_def next_add split: option.splits sum.splits if_splits)
  ultimately show ?thesis using that c create_service_inv [OF assms(2) c] by blast
qed

lemma answers_client_init:
  assumes "client_inv w" "engines_defined env"
  shows "wp (handle_client_init env sock command) (answers env w) w"
proof -
  let ?sid = "session_service_id env (trace w) command"
  define w1 where "w1 = w\<lparr>cw_client := (cw_client w)\<lparr>cl_client_enabled_conf := ci_enabled_configuration command,
       cl_runtime_id := sid_runtime_id ?sid\<rparr>\<rparr>"
  have inv1: "client_inv w1" "trace w1 = trace w" using assms(1) by (simp_all add: w1_def client_inv_def)
  have "manager_inv (cw_manager w1)" using inv1(1) by (simp add: client_inv_def)
  from create_service_defined [OF assms(2) this] obtain r mm m where c: "create_service ((ce_service env)\<lparr>se_uuid := ce_uuid env 1 (trace w)\<rparr>)
            (cw_held w1 @ (case cl_service (cw_client w1) of None \<Rightarrow> [] | Some a \<Rightarrow> [a]))
            ?sid (ci_engine_settings command) (ci_rc_settings command) (ci_enabled_configuration command = None)
            (Map.empty, Map.empty) (cw_manager w1) = Some (r, mm, m)"
      "manager_inv m" "sm_next (cw_manager w1) \<le> sm_next m" "\<And>a. r = Inr a \<Longrightarrow> a < sm_next m" by metis
  obtain meta metrics where mm: "mm = (meta, metrics)" by fastforce
  define w2 where "w2 = w1\<lparr>cw_manager := m\<rparr>"
  define w3 where "w3 = (case r of Inl _ \<Rightarrow> w2
     | Inr a \<Rightarrow> with_service (register_runtime_id (se_first (ce_service env)) (sid_runtime_id ?sid))
         (w2\<lparr>cw_client := (cw_client w2)\<lparr>cl_service := Some a\<rparr>\<rparr>))"
  have inv2: "client_inv w2" "\<And>a. r = Inr a \<Longrightarrow> client_inv (w2\<lparr>cw_client := (cw_client w2)\<lparr>cl_service := Some a\<rparr>\<rparr>)"
    using inv1(1) c(2-4) by (force simp: w2_def client_inv_def)+
  then have inv3: "client_inv w3" "trace w3 = trace w" by (auto simp: w3_def w2_def inv1 split: sum.splits)
  define errors where "errors = (case r of Inl e \<Rightarrow> [exn_what e] | Inr _ \<Rightarrow> [])"
  let ?m = "Client_init_response (if errors \<noteq> [] then ''fail'' else ''ok'') errors meta metrics"
  have send: "wp (broker_send env sock ?m) (\<lambda>sent. wp (ret (Some (errors = [] \<and> sent = Inr True))) (answers env w)) w3"
  proof (intro wp_mono [OF wp_broker_send] wp_retI, clarify)
    fix out w' es
    assume *: "world.more w' = world.more w3" "trace w' = trace w3 @ es" "one_response env ?m (out = Inr True) es"
    have w': "w' = w3\<lparr>trace := trace w3 @ es\<rparr>" by (rule world_state [OF *(1,2)])
    have "answered_by env False ?m (errors = [] \<and> out = Inr True) es"
      using one_response_weaken [OF *(3)] by (simp add: answered_by_def conj_commute)
    from answersI [OF this inv3] show "answers env w (Some (errors = [] \<and> out = Inr True)) w'" by (simp add: w' inv3(2))
  qed
  have "wp (case r of Inl e \<Rightarrow> ret [exn_what e] | Inr a \<Rightarrow> do {
               update_client (\<lambda>c. c\<lparr>cl_service := Some a\<rparr>);
               update_service (register_runtime_id (se_first (ce_service env)) (sid_runtime_id ?sid));
               ret [] }) Q w2 = Q errors w3" for Q
    by (cases r) (simp_all add: wp_def update_client_def run_update_service w3_def errors_def)
  with send show ?thesis
    by (simp add: handle_client_init_def wp_bind wp_gets Let_def wp_def [of "update_client _"] update_client_def wp_modify
      flip: w1_def del: One_nat_def, simp add: c(1) mm wp_bind wp_modify flip: w2_def del: One_nat_def)
qed

text \<open>
  The states of a session: between its messages, other threads change the manager in any way that keeps its
  invariant and uses no address twice.
\<close>

inductive session_reachable :: "('h, 'c, 'e) client_env_scheme \<Rightarrow> int \<Rightarrow> ('h, 'c) client_world \<Rightarrow> bool" for env sock where
  start: "manager_inv m \<Longrightarrow>
    session_reachable env sock \<lparr>trace = tr, cw_manager = m, cw_held = held, cw_client = new_client\<rparr>"
| init: "session_reachable env sock w \<Longrightarrow> run_state (run_client_init env sock) w = (Some b, w') \<Longrightarrow>
    session_reachable env sock w'"
| request: "session_reachable env sock w \<Longrightarrow> run_state (run_request env sock) w = (Some b, w') \<Longrightarrow>
    session_reachable env sock w'"
| others: "session_reachable env sock w \<Longrightarrow> manager_inv m \<Longrightarrow> sm_next (cw_manager w) \<le> sm_next m \<Longrightarrow>
    session_reachable env sock (w\<lparr>cw_manager := m, cw_held := held\<rparr>)"

lemma handles_run:
  assumes "recv_ok (be_sys env)" "client_inv w"
  shows "wp (run_request env sock) (handles env w) w"
    and "engines_defined env \<Longrightarrow> wp (run_client_init env sock) (handles env w) w"
proof -
  have inv: "client_inv w1" if "quiet w w1" for w1 using assms(2) client_inv_quiet [OF that] by simp
  show "wp (run_request env sock) (handles env w) w"
    unfolding run_request_def wp_bind wp_gets
    by (intro wp_ifI handles_message [OF assms] answers_command inv) auto
  have "wp (handle_command env sock msg) (answers env w1) w1"
    if "engines_defined env" "quiet w w1" "request_id_of msg = Id_client_init" for msg w1
    using that(3) answers_client_init [OF inv [OF that(2)] that(1)] by (cases msg) auto
  then show "engines_defined env \<Longrightarrow> wp (run_client_init env sock) (handles env w) w"
    unfolding run_client_init_def by (intro handles_message [OF assms]) auto
qed

lemma session_inv:
  assumes "session_reachable env sock w" "recv_ok (be_sys env)" "engines_defined env"
  shows "client_inv w"
  using assms(1)
proof induction
  case (start m tr held)
  then show ?case by (simp add: client_inv_def new_client_def)
next
  case (init w b w')
  from wp_run [OF handles_run(2) [OF assms(2) init.IH assms(3)] init.hyps(2)] show ?case by (simp add: handles_def)
next
  case (request w b w')
  from wp_run [OF handles_run(1) [OF assms(2) request.IH] request.hyps(2)] show ?case by (simp add: handles_def)
next
  case (others w m held)
  then show ?case by (force simp: client_inv_def)
qed

text \<open>
  Property C4: in every state that a session of the helper reaches, handling the next message returns, without the
  use of a service or a context that is not there, and either ends the session without an answer or sends
  the header and the body of exactly one response after all that it received. If the session goes on and
  no call to send failed, all of that response was taken. Other clients and polling threads may change the services
  in between. The hypotheses are that \<open>recv\<close> gives no more than was asked for and that the rules of
  services can be converted.
\<close>

theorem session_answers_every_message:
  assumes "recv_ok (be_sys env)" "engines_defined env" "session_reachable env sock w"
  shows "\<exists>b w' rs ss. run_state (run_request env sock) w = (Some b, w') \<and> trace w' = trace w @ rs @ ss \<and> sends rs = [] \<and>
    (if ss = [] then \<not> b else \<exists>m. one_response env m (b \<and> \<not> call_failed ss) ss) \<and>
    (cl_context (cw_client w') \<noteq> None \<longrightarrow> client_service w' \<noteq> None)"
proof -
  obtain out w' where run: "run_state (run_request env sock) w = (out, w')" by fastforce
  from wp_run [OF handles_run(1) [OF assms(1) session_inv [OF assms(3,1,2)]] run] have "handles env w out w'" .
  then obtain b rs ss where *: "client_inv w'" "out = Some b" "trace w' = trace w @ rs @ ss" "sends rs = []"
      "if ss = [] then \<not> b else \<exists>m. one_response env m (b \<and> \<not> call_failed ss) ss"
    unfolding handles_def by blast
  moreover have "cl_context (cw_client w') \<noteq> None \<longrightarrow> client_service w' \<noteq> None"
    using *(1) client_inv_service [OF *(1)] by (simp add: client_inv_def)
  ultimately show ?thesis using run by blast
qed

definition sample_client_env :: "(unit, unit) client_env" where
  "sample_client_env =
     \<lparr>be_sys = be_sys sample_broker_env, be_unpack = be_unpack sample_broker_env, be_encode = be_encode sample_broker_env,
      be_client_init = be_client_init sample_broker_env, be_to_float = id, be_double = (\<lambda>_. 0), be_strings = (\<lambda>_. []),
      be_numbers = (\<lambda>_. []), be_version = ''1'', ce_service = sample_service_env, ce_uuid = (\<lambda>_ _. ''u''),
      ce_now = (\<lambda>_. 0), ce_set_order = id, ce_rnd = id, ce_deflate = (\<lambda>_ _. None), ce_base64_encode = id\<rparr>"

definition sample_world :: "(unit, unit) client_world" where
  "sample_world = \<lparr>trace = [], cw_manager = new_service_manager, cw_held = [], cw_client = new_client\<rparr>"

lemma sample_engines_defined: "engines_defined sample_client_env"
  by (simp add: engines_defined_def sample_client_env_def engine_from_settings_def engine_ruleset_from_path_def
    new_engine_ruleset_def sample_service_env_def add_default_processors_and_scanners_def json_to_parameter_def
    split: prod.split)

lemma session_answers_every_message_witness:
  "session_reachable sample_client_env 5 sample_world \<and>
   (\<exists>b w'. run_state (run_request sample_client_env 5) sample_world = (Some b, w'))"
proof -
  have "recv_ok (be_sys sample_client_env)" by (simp add: sample_client_env_def sample_broker_env_def sample_env_ok)
  moreover have "session_reachable sample_client_env 5 sample_world"
    unfolding sample_world_def by (rule session_reachable.start [OF manager_inv_new])
  ultimately show ?thesis using session_answers_every_message [OF _ sample_engines_defined] by blast
qed

section \<open>Verdicts\<close>

definition verdict_name :: "action_type \<Rightarrow> string" where
  "verdict_name t = (case t of Block_action \<Rightarrow> ''block'' | Redirect_action \<Rightarrow> ''redirect'' | Record_action \<Rightarrow> ''record'')"

text \<open>The verdict that a match of the WAF calls for, given the actions that the engine knows.\<close>

definition verdict_for :: "action_map \<Rightarrow> event \<Rightarrow> verdict_response \<Rightarrow> bool" where
  "verdict_for acts ev v \<longleftrightarrow> vr_triggers v = ev_data ev \<and>
     (if \<forall>a \<in> set (ev_actions ev). acts a = None then vr_verdict v = ''record'' \<and> vr_parameters v = Map.empty
      else \<exists>a \<in> set (ev_actions ev). \<exists>act. acts a = Some act \<and> vr_verdict v = verdict_name (act_type act) \<and>
        (act_type act \<noteq> Record_action \<longrightarrow> vr_parameters v = act_parameters act))"

lemma verdict_of_waf:
  assumes "subscribers (eng_common (svc_engine s)) = [wi]" "\<And>as. set (ce_set_order env as) = set as"
    and "publish_in env (P_map ms) w s (new_context (svc_engine s)) = (r, ctx, limiter)"
    and "api = ee_ddwaf (ce_service env)"
    and "ddwaf_run api (ddwaf_context_init api (wi_handle wi)) (P_map ms) (wi_waf_timeout wi) = (code, res, c)"
    and "ev = format_waf_result (ddwaf_write api) res"
  shows "\<exists>result. r = Inr result \<and>
    (if code \<noteq> DDWAF_MATCH \<or> ev_actions ev = [] \<and> ev_data ev = [] then result = None
     else verdict_for (actions (eng_common (svc_engine s))) ev (verdict_of result))"
proof -
  note waf = publish_follows_waf [OF assms(1,2) assms(3) [unfolded publish_in_def, folded assms(4)] assms(5,6)]
  show ?thesis
  proof (cases "code \<noteq> DDWAF_MATCH \<or> ev_actions ev = [] \<and> ev_data ev = []")
    case True
    with waf show ?thesis by auto
  next
    case False
    with waf obtain act keep where r: "r = Inr (Some \<lparr>res_type = (case act of None \<Rightarrow> Record_action | Some a \<Rightarrow> act_type a),
        res_parameters = (case act of None \<Rightarrow> Map.empty | Some a \<Rightarrow> act_parameters a),
        res_events = ev_data ev, res_schemas = map_merge [] (ev_schemas ev), res_force_keep = keep\<rparr>)"
      and act: "case act of None \<Rightarrow> \<forall>a \<in> set (ev_actions ev). actions (eng_common (svc_engine s)) a = None
        | Some x \<Rightarrow> \<exists>a \<in> set (ev_actions ev). actions (eng_common (svc_engine s)) a = Some x"
      by auto
    show ?thesis
    proof (cases act)
      case None
      with r act False show ?thesis by (auto simp: verdict_for_def verdict_of_def)
    next
      case (Some x)
      then obtain a where a: "a \<in> set (ev_actions ev)" "actions (eng_common (svc_engine s)) a = Some x" using act by auto
      have v: "vr_verdict (verdict_of (the (Some (projr r)))) = verdict_name (act_type x)"
        "act_type x \<noteq> Record_action \<longrightarrow> vr_parameters (verdict_of (projr r)) = act_parameters x"
        "vr_triggers (verdict_of (projr r)) = ev_data ev"
        using r Some by (simp_all add: verdict_of_def verdict_name_def split: action_type.split)
      have "verdict_for (actions (eng_common (svc_engine s))) ev (verdict_of (projr r))"
        unfolding verdict_for_def using a v by fastforce
      with False r show ?thesis by auto
    qed
  qed
qed

text \<open>
  Property C5: the start of a request gets the verdict of the WAF. For a client that is not enabled, by its own
  configuration or by that of the service, the response says that the features are off, the data is not
  looked at and no service changes. For an enabled client, the WAF runs once on the data, in a fresh context with
  the present rules of the service, and the response is: the verdict \<open>ok\<close> unless the WAF matches with
  an event or an action, errors and timeouts included; otherwise the events of the WAF, with a matched action that the
  engine knows, or \<open>record\<close> where it knows none. The hypotheses are that visiting a set yields its elements, and that the
  engine has one subscriber, as every engine that is built from settings has.
\<close>

theorem request_init_verdict:
  assumes "client_inv w" "client_service w = Some s" "subscribers (eng_common (svc_engine s)) = [wi]"
    and "\<And>as. set (ce_set_order env as) = set as" "api = ee_ddwaf (ce_service env)"
    and "ddwaf_run api (ddwaf_context_init api (wi_handle wi)) (P_map ms) (wi_waf_timeout wi) = (code, res, c)"
    and "ev = format_waf_result (ddwaf_write api) res"
    and "run_state (handle_request_init env sock (P_map ms)) w = (out, w')"
  shows "\<exists>b es. out = Some b \<and> trace w' = trace w @ es \<and>
    (if \<not> client_enabled w
     then answered_by env True (Config_features_response False) b es \<and> cw_manager w' = cw_manager w \<and>
       cl_context (cw_client w') = cl_context (cw_client w)
     else \<exists>v. answered_by env False (Request_init_response v) b es \<and> cl_context (cw_client w') \<noteq> None \<and>
       (if code \<noteq> DDWAF_MATCH \<or> ev_actions ev = [] \<and> ev_data ev = [] then vr_verdict v = ''ok'' \<and> vr_triggers v = []
        else verdict_for (actions (eng_common (svc_engine s))) ev v))"
    (is "?P out w'")
proof -
  let ?w1 = "w\<lparr>cw_client := (cw_client w)\<lparr>cl_request_enabled := client_enabled w\<rparr>\<rparr>"
  let ?w2 = "with_context (Some (new_context (svc_engine s))) ?w1"
  obtain r ctx limiter where p: "publish_in env (P_map ms) ?w2 s (new_context (svc_engine s)) = (r, ctx, limiter)"
    by (metis prod_cases3)
  obtain result where r: "r = Inr result" "if code \<noteq> DDWAF_MATCH \<or> ev_actions ev = [] \<and> ev_data ev = [] then result = None
     else verdict_for (actions (eng_common (svc_engine s))) ev (verdict_of result)"
    using verdict_of_waf [OF assms(3,4) p assms(5-7)] by blast
  have ok: "vr_verdict (verdict_of None) = ''ok''" "vr_triggers (verdict_of None) = []" by (simp_all add: verdict_of_def)
  have "wp (publish_and_respond env sock Request_init_response (P_map ms)) ?P ?w2" if "client_enabled w"
    by (rule wp_publish_and_respond [OF _ _ p]) (use assms(2) that r ok in \<open>auto simp: split: if_splits\<close>)
  moreover have "wp (send_response env sock True (Config_features_response False)) ?P ?w1" if "\<not> client_enabled w"
    by (rule wp_send_response) (use that in auto)
  ultimately have "wp (handle_request_init env sock (P_map ms)) ?P w"
    using assms(2) by (cases "client_enabled w")
      (simp_all add: handle_request_init_def wp_bind wp_gets wp_compute_client_status wp_def [of "emplace_context s"]
        emplace_context_run del: split_paired_Ex)
  from wp_run [OF this assms(8)] show ?thesis .
qed

text \<open>A session whose service has just been built, for a client that is enabled.\<close>

definition world_with :: "'h service \<Rightarrow> bool option \<Rightarrow> ('h, 'c) client_world" where
  "world_with s enabled =
     \<lparr>trace = [], cw_manager = \<lparr>sm_services = [0 \<mapsto> s], sm_next = 1, sm_cache = [], sm_last_service = Some 0\<rparr>, cw_held = [],
      cw_client = new_client\<lparr>cl_service := Some 0, cl_client_enabled_conf := enabled\<rparr>\<rparr>"

lemma world_with_props [simp]:
  "client_inv (world_with s enabled)" "client_service (world_with s enabled) = Some s" "trace (world_with s enabled) = []"
  "client_enabled (world_with s (Some b)) = b" "cl_context (cw_client (world_with s enabled)) = None"
  by (auto simp: world_with_def client_inv_def manager_inv_def client_service_def client_enabled_def new_client_def)

lemma request_init_verdict_witness:
  "\<exists>s b w' es v. client_service (world_with s (Some True)) = Some s \<and>
     run_state (handle_request_init sample_client_env 5 (P_map [])) (world_with s (Some True)) = (Some b, w') \<and>
     trace w' = es \<and> answered_by sample_client_env False (Request_init_response v) b es \<and> vr_verdict v = ''block''"
proof -
  obtain e m where e: "engine_from_settings sample_service_env sample_engine_settings (Map.empty, Map.empty) = Some (Inr e, m)"
      "actions (eng_common e) = default_actions" by (rule sample_engine_built)
  obtain wi where wi: "subscribers (eng_common e) = [wi]" using engine_from_settings_waf [OF e(1)] by metis
  define s where "s = new_service 0 e \<lparr>ls_status = NOT_SET, ls_engine = new_engine_listener []\<rparr> None sample_engine_settings"
  have s: "svc_engine s = e" by (simp add: s_def new_service_def Let_def)
  define w where "w = (world_with s (Some True) :: (unit, unit) client_world)"
  obtain out w' where run: "run_state (handle_request_init sample_client_env 5 (P_map [])) w = (out, w')" by fastforce
  have inv: "client_inv w" "client_service w = Some s" "client_enabled w" by (simp_all add: w_def)
  have api: "sample_ddwaf = ee_ddwaf (ce_service sample_client_env)" "\<And>as. set (ce_set_order sample_client_env as) = set as"
    by (simp_all add: sample_client_env_def sample_service_env_def)
  obtain res where res: "ddwaf_run sample_ddwaf (ddwaf_context_init sample_ddwaf (wi_handle wi)) (P_map []) (wi_waf_timeout wi) =
      (DDWAF_MATCH, res, ())" "ev_actions (format_waf_result (ddwaf_write sample_ddwaf) res) = [''block'']"
    by (simp add: sample_ddwaf_def format_waf_result_def set_merge_def empty_event_def Let_def)
  from request_init_verdict [OF inv(1,2) _ api(2) api(1) res(1) refl run] wi s obtain b es v where
      "out = Some b" "trace w' = trace w @ es" "answered_by sample_client_env False (Request_init_response v) b es"
      "verdict_for (actions (eng_common e)) (format_waf_result (ddwaf_write sample_ddwaf) res) v"
    using inv(3) res(2) by auto
  moreover from this(4) have "vr_verdict v = ''block''"
    by (auto simp: verdict_for_def res(2) e(2) default_actions_def verdict_name_def)
  ultimately show ?thesis using run by (auto simp: w_def)
qed

section \<open>The end of a request\<close>

lemma sampler_scope_released:
  assumes "sampler_get rnd (svc_schema_sampler s) = (hit, sa)"
  shows "sa_concurrent (svc_schema_sampler (end_scope hit (set_limiter limiter (set_sampler sa s)))) =
    sa_concurrent (svc_schema_sampler s)"
  using assms by (auto simp: sampler_get_def end_scope_def set_limiter_def set_sampler_def scope_end_def Let_def)



text \<open>A session returns for every sequence of answers of the pool, and its state stays well-formed.\<close>

lemma run_requests_returns:
  assumes "recv_ok (be_sys env)" "client_inv w"
  shows "wp (run_requests env sock running) (\<lambda>out w'. out = Some () \<and> client_inv w') w"
  using assms(2)
proof (induction running arbitrary: w)
  case Nil
  then show ?case by (simp add: wp_ret)
next
  case (Cons running rs)
  have "wp (case r of None \<Rightarrow> ret None | Some b \<Rightarrow> if b then run_requests env sock rs else ret (Some ()))
      (\<lambda>out w'. out = Some () \<and> client_inv w') w1" if "handles env w r w1" for r w1
    using that Cons.IH [of w1] by (auto simp: handles_def wp_ret)
  then have "wp (do { r \<leftarrow> run_request env sock; case r of None \<Rightarrow> ret None
      | Some b \<Rightarrow> if b then run_requests env sock rs else ret (Some ()) }) (\<lambda>out w'. out = Some () \<and> client_inv w') w"
    unfolding wp_bind by (rule wp_mono [OF handles_run(1) [OF assms(1) Cons.prems]])
  with Cons.prems show ?case by (simp add: wp_ret)
qed

lemma client_run_returns:
  assumes "recv_ok (be_sys env)" "engines_defined env" "client_inv w"
  shows "wp (client_run env sock running) (\<lambda>out w'. out = Some () \<and> client_inv w') w"
proof -
  let ?Q = "\<lambda>out w'. out = Some () \<and> client_inv w'"
  have rest: "wp (run_requests env sock rs) ?Q w1" if "client_inv w1" for rs w1
    using run_requests_returns [OF assms(1) that] .
  have "wp (case r of None \<Rightarrow> ret None | Some b \<Rightarrow> if b then run_requests env sock rs else ret (Some ())) ?Q w1"
    if "handles env w r w1" for r rs w1
    using that rest by (auto simp: handles_def wp_ret)
  then have first: "wp (do { r \<leftarrow> run_client_init env sock; case r of None \<Rightarrow> ret None
      | Some b \<Rightarrow> if b then run_requests env sock rs else ret (Some ()) }) ?Q w" for rs
    unfolding wp_bind by (rule wp_mono [OF handles_run(2) [OF assms(1,3,2)]])
  have "wp (case running of
         True # rs \<Rightarrow> do { r \<leftarrow> run_client_init env sock; case r of None \<Rightarrow> ret None
           | Some b \<Rightarrow> if b then run_requests env sock rs else ret (Some ()) }
       | False # rs \<Rightarrow> run_requests env sock rs
       | [] \<Rightarrow> ret (Some ())) ?Q w"
    using first rest [OF assms(3)] assms(3) by (auto simp: wp_ret split: list.split bool.split)
  then show ?thesis
    unfolding client_run_def wp_bind [of "case_list _ _ _"]
    by (rule wp_mono) (auto simp: wp_def run_update_service)
qed

end
