(* ===== verification/Worker_Pool.thy ===== *)
theory Worker_Pool
  imports Main "HOL-Library.Multiset"
begin

text \<open>
  The pool of threads of the helper: src/helper/worker\_pool.cpp and worker\_pool.hpp.

  The state is what the threads share and where each worker stands. What a mutex protects is one step; the steps
  of the threads interleave in any order. A worker that waits may wake at any time, by a notification, by the
  timeout or spuriously. A worker is between two tests of its loop, inside a task, about to pop, or
  waiting inside \<open>pop\<close>. The number of workers is taken to fit its counter.
\<close>

section \<open>The queue\<close>

datatype 'r worker = Testing "'r option" | Running 'r | Popping | Waiting

record 'r pool =
  running :: bool
  rc_count :: nat
  pending :: nat
  q_data :: "'r list"
  workers :: "'r worker multiset"

definition new_pool :: "'r pool" where
  "new_pool = \<lparr>running = True, rc_count = 0, pending = 0, q_data = [], workers = {#}\<rparr>"

text \<open>\<open>queue_producer::push\<close> takes a task only if a worker waits.\<close>

definition queue_push :: "'r \<Rightarrow> 'r pool \<Rightarrow> bool \<times> 'r pool" where
  "queue_push r p = (if pending p > 0 then (True, p\<lparr>q_data := q_data p @ [r]\<rparr>) else (False, p))"

text \<open>The constructor and the destructor of \<open>queue_consumer\<close> count the workers.\<close>

definition new_consumer :: "'r \<Rightarrow> 'r pool \<Rightarrow> 'r pool" where
  "new_consumer r p = p\<lparr>rc_count := rc_count p + 1, workers := add_mset (Testing (Some r)) (workers p)\<rparr>"

definition end_consumer :: "'r worker \<Rightarrow> 'r pool \<Rightarrow> 'r pool" where
  "end_consumer w p = p\<lparr>rc_count := rc_count p - 1, workers := workers p - {#w#}\<rparr>"

definition move_worker :: "'r worker \<Rightarrow> 'r worker \<Rightarrow> 'r pool \<Rightarrow> 'r pool" where
  "move_worker w w' p = p\<lparr>workers := add_mset w' (workers p - {#w#})\<rparr>"

definition pool_launch :: "'r \<Rightarrow> 'r pool \<Rightarrow> bool \<times> 'r pool" where
  "pool_launch r p =
     (if \<not> running p then (False, p)
      else case queue_push r p of
        (True, p) \<Rightarrow> (True, p)
      | (False, p) \<Rightarrow> (True, new_consumer r p))"

definition pool_stop :: "'r pool \<Rightarrow> 'r pool" where
  "pool_stop p = p\<lparr>running := False\<rparr>"

text \<open>\<open>queue_consumer::pop\<close>: what happens before the wait, and after it.\<close>

definition pop_begin :: "'r pool \<Rightarrow> 'r pool" where
  "pop_begin p =
     (case q_data p of
        [] \<Rightarrow> (move_worker Popping Waiting p)\<lparr>pending := pending p + 1\<rparr>
      | r # rs \<Rightarrow> (move_worker Popping (Testing (Some r)) p)\<lparr>q_data := rs\<rparr>)"

definition pop_end :: "'r pool \<Rightarrow> 'r pool" where
  "pop_end p =
     (let p = p\<lparr>pending := pending p - 1\<rparr> in
      case q_data p of
        [] \<Rightarrow> move_worker Waiting (Testing None) p
      | r # rs \<Rightarrow> (move_worker Waiting (Testing (Some r)) p)\<lparr>q_data := rs\<rparr>)"

text \<open>The test of the loop in \<open>work_handler\<close>; a worker that leaves it ends.\<close>

definition work_test :: "'r option \<Rightarrow> 'r pool \<Rightarrow> 'r pool" where
  "work_test opt_r p =
     (case opt_r of
        Some r \<Rightarrow> if running p then move_worker (Testing opt_r) (Running r) p else end_consumer (Testing opt_r) p
      | None \<Rightarrow> end_consumer (Testing opt_r) p)"

text \<open>
  The steps of the workers and of the thread that owns the pool, with what they mean for a task: it is accepted,
  it is run to its end, or it is dropped because the pool stopped before it was run.
\<close>

datatype 'r pool_event = Accepted 'r | Finished 'r | Dropped 'r | Internal

definition test_event :: "'r option \<Rightarrow> 'r pool \<Rightarrow> 'r pool_event" where
  "test_event opt_r p = (case opt_r of Some r \<Rightarrow> if running p then Internal else Dropped r | None \<Rightarrow> Internal)"

inductive worker_step :: "'r pool \<Rightarrow> 'r pool_event \<Rightarrow> 'r pool \<Rightarrow> bool" where
  test: "Testing opt_r \<in># workers p \<Longrightarrow> worker_step p (test_event opt_r p) (work_test opt_r p)"
| finish: "Running r \<in># workers p \<Longrightarrow> worker_step p (Finished r) (move_worker (Running r) Popping p)"
| pop: "Popping \<in># workers p \<Longrightarrow> worker_step p Internal (pop_begin p)"
| wake: "Waiting \<in># workers p \<Longrightarrow> worker_step p Internal (pop_end p)"

inductive pool_step :: "'r pool \<Rightarrow> 'r pool_event \<Rightarrow> 'r pool \<Rightarrow> bool" where
  worker: "worker_step p e p' \<Longrightarrow> pool_step p e p'"
| launch: "pool_launch r p = (True, p') \<Longrightarrow> pool_step p (Accepted r) p'"
| stop: "pool_step p Internal (pool_stop p)"

inductive pool_run :: "'r pool_event list \<Rightarrow> 'r pool \<Rightarrow> bool" where
  start: "pool_run [] new_pool"
| step: "pool_run es p \<Longrightarrow> pool_step p e p' \<Longrightarrow> pool_run (es @ [e]) p'"

section \<open>Laws of the pool\<close>

fun worker_tasks :: "'r worker \<Rightarrow> 'r multiset" where
  "worker_tasks (Testing (Some r)) = {#r#}"
| "worker_tasks (Running r) = {#r#}"
| "worker_tasks _ = {#}"

text \<open>The tasks that the pool still has.\<close>

definition tasks :: "'r pool \<Rightarrow> 'r multiset" where
  "tasks p = mset (q_data p) + (\<Sum>w \<in># workers p. worker_tasks w)"

definition accepted :: "'r pool_event list \<Rightarrow> 'r multiset" where
  "accepted es = mset (concat (map (\<lambda>e. case e of Accepted r \<Rightarrow> [r] | _ \<Rightarrow> []) es))"

definition settled :: "'r pool_event list \<Rightarrow> 'r multiset" where
  "settled es = mset (concat (map (\<lambda>e. case e of Finished r \<Rightarrow> [r] | Dropped r \<Rightarrow> [r] | _ \<Rightarrow> []) es))"

lemma history_simps [simp]:
  "accepted [] = {#}" "settled [] = {#}"
  "accepted (es @ [e]) = accepted es + (case e of Accepted r \<Rightarrow> {#r#} | _ \<Rightarrow> {#})"
  "settled (es @ [e]) = settled es + (case e of Finished r \<Rightarrow> {#r#} | Dropped r \<Rightarrow> {#r#} | _ \<Rightarrow> {#})"
  by (simp_all add: accepted_def settled_def split: pool_event.split)

text \<open>
  The counters count, and while the pool runs, a queue that is not empty has a worker that has not decided to end.
\<close>

definition workers_inv :: "'r pool \<Rightarrow> bool" where
  "workers_inv p \<longleftrightarrow> rc_count p = size (workers p) \<and> pending p = count (workers p) Waiting \<and>
     (running p \<longrightarrow> q_data p \<noteq> [] \<longrightarrow> (\<exists>w \<in># workers p. w \<noteq> Testing None))"

text \<open>A worker at a known place, and the rest.\<close>

lemma worker_at:
  assumes "w \<in># workers p"
  obtains ws where "workers p = add_mset w ws"
  using multi_member_split [OF assms] that by auto

lemmas worker_defs = move_worker_def end_consumer_def new_consumer_def work_test_def pop_begin_def pop_end_def
  queue_push_def pool_launch_def pool_stop_def test_event_def

lemma worker_step_inv:
  assumes "worker_step p e p'" "workers_inv p"
  shows "workers_inv p' \<and> tasks p' + (case e of Finished r \<Rightarrow> {#r#} | Dropped r \<Rightarrow> {#r#} | _ \<Rightarrow> {#}) = tasks p \<and>
    running p' = running p \<and> (\<forall>r. e \<noteq> Accepted r)"
  using assms
proof cases
  case (test opt_r)
  from test(3) obtain ws where "workers p = add_mset (Testing opt_r) ws" by (rule worker_at)
  with test assms(2) show ?thesis
    by (cases opt_r) (auto simp: worker_defs workers_inv_def tasks_def Let_def)
next
  case (finish r)
  from finish(3) obtain ws where "workers p = add_mset (Running r) ws" by (rule worker_at)
  with finish assms(2) show ?thesis by (auto simp: worker_defs workers_inv_def tasks_def)
next
  case pop
  from pop(3) obtain ws where "workers p = add_mset Popping ws" by (rule worker_at)
  with pop assms(2) show ?thesis
    by (cases "q_data p") (auto simp: worker_defs workers_inv_def tasks_def)
next
  case wake
  from wake(3) obtain ws where "workers p = add_mset Waiting ws" by (rule worker_at)
  with wake assms(2) show ?thesis
    by (cases "q_data p") (auto simp: worker_defs workers_inv_def tasks_def Let_def)
qed

lemma launch_inv:
  assumes "pool_launch r p = (True, p')" "workers_inv p"
  shows "workers_inv p' \<and> tasks p' = add_mset r (tasks p)"
proof (cases "pending p")
  case 0
  with assms show ?thesis by (auto simp: worker_defs workers_inv_def tasks_def split: if_splits)
next
  case (Suc n)
  with assms(2) have "Waiting \<in># workers p" by (simp add: workers_inv_def count_eq_zero_iff flip: count_greater_zero_iff)
  with Suc assms show ?thesis by (auto simp: worker_defs workers_inv_def tasks_def split: if_splits)
qed

lemma pool_run_inv: "pool_run es p \<Longrightarrow> workers_inv p \<and> accepted es = tasks p + settled es"
proof (induction rule: pool_run.induct)
  case start
  show ?case by (simp add: workers_inv_def tasks_def new_pool_def)
next
  case (step es p e p')
  from step.hyps(2) show ?case
  proof cases
    case worker
    have "accepted (es @ [e]) = accepted es" using worker_step_inv [OF worker] step.IH by (auto split: pool_event.split)
    with worker_step_inv [OF worker] step.IH show ?thesis by (auto simp: ac_simps)
  next
    case (launch r)
    with launch_inv [OF launch(2)] step.IH show ?thesis by simp
  next
    case stop
    with step.IH show ?thesis by (simp add: pool_stop_def workers_inv_def tasks_def)
  qed
qed

text \<open>
  Property C10: no task of the pool is lost or run twice. In every interleaving of workers, launches and a stop, the
  tasks accepted are those in the queue or with a worker, those run to their end and those dropped; none is
  dropped while the pool runs; and while it runs, a task in the queue has a worker that will look at the queue again.
  The counters are the number of workers and of those that wait.
\<close>

theorem pool_loses_no_task:
  assumes "pool_run es p"
  shows "accepted es = tasks p + settled es \<and> rc_count p = size (workers p) \<and> pending p = count (workers p) Waiting \<and>
    (running p \<longrightarrow> (\<forall>r. Dropped r \<notin> set es) \<and> (q_data p \<noteq> [] \<longrightarrow> (\<exists>w \<in># workers p. w \<noteq> Testing None)))"
proof -
  have "running p \<longrightarrow> (\<forall>r. Dropped r \<notin> set es)" using assms
  proof (induction rule: pool_run.induct)
    case (step es p e p')
    from step.hyps(2) have "running p' \<longrightarrow> running p \<and> (\<forall>r. e \<noteq> Dropped r)"
      by cases (auto simp: worker_defs Let_def elim!: worker_step.cases split: option.splits list.splits if_splits prod.splits)
    with step.IH show ?case by auto
  qed simp
  with pool_run_inv [OF assms] show ?thesis by (auto simp: workers_inv_def)
qed

text \<open>A pool on which one task is run while another waits for it.\<close>

definition one_worker :: "'r worker \<Rightarrow> 'r list \<Rightarrow> nat \<Rightarrow> 'r pool" where
  "one_worker w data n = \<lparr>running = True, rc_count = 1, pending = n, q_data = data, workers = {#w#}\<rparr>"

lemma one_worker_steps:
  "pool_step new_pool (Accepted r) (one_worker (Testing (Some r)) [] 0)"
  "pool_step (one_worker (Testing (Some r)) data n) Internal (one_worker (Running r) data n)"
  "pool_step (one_worker (Running r) data n) (Finished r) (one_worker Popping data n)"
  "pool_step (one_worker Popping [] 0) Internal (one_worker Waiting [] 1)"
  "pool_step (one_worker Waiting data 1) (Accepted r) (one_worker Waiting (data @ [r]) 1)"
  "pool_step (one_worker Waiting (r # data) 1) Internal (one_worker (Testing (Some r)) data 0)"
proof -
  show "pool_step new_pool (Accepted r) (one_worker (Testing (Some r)) [] 0)"
    by (rule pool_step.launch) (simp add: worker_defs new_pool_def one_worker_def)
  show "pool_step (one_worker (Testing (Some r)) data n) Internal (one_worker (Running r) data n)"
    using pool_step.worker [OF worker_step.test [of "Some r" "one_worker (Testing (Some r)) data n"]]
    by (simp add: worker_defs one_worker_def)
  show "pool_step (one_worker (Running r) data n) (Finished r) (one_worker Popping data n)"
    using pool_step.worker [OF worker_step.finish [of r "one_worker (Running r) data n"]]
    by (simp add: worker_defs one_worker_def)
  show "pool_step (one_worker Popping [] 0) Internal (one_worker Waiting [] 1)"
    using pool_step.worker [OF worker_step.pop [of "one_worker Popping [] 0"]] by (simp add: worker_defs one_worker_def)
  show "pool_step (one_worker Waiting data 1) (Accepted r) (one_worker Waiting (data @ [r]) 1)"
    by (rule pool_step.launch) (simp add: worker_defs one_worker_def)
  show "pool_step (one_worker Waiting (r # data) 1) Internal (one_worker (Testing (Some r)) data 0)"
    using pool_step.worker [OF worker_step.wake [of "one_worker Waiting (r # data) 1"]]
    by (simp add: worker_defs one_worker_def)
qed

lemma idle_worker_run:
  "pool_run [Accepted a, Internal, Finished a, Internal] (one_worker Waiting [] 1)"
  using pool_run.step [OF pool_run.step [OF pool_run.step [OF pool_run.step [OF pool_run.start
    one_worker_steps(1)] one_worker_steps(2)] one_worker_steps(3)] one_worker_steps(4)] by simp

lemma pool_loses_no_task_witness:
  "accepted [Accepted (1::nat), Internal, Finished 1, Internal] = tasks (one_worker Waiting [] 1) + {#1#}"
  using pool_loses_no_task [OF idle_worker_run [of "1::nat"]] by (simp add: settled_def)

text \<open>
  A task can be accepted for a worker that has another one before it: two tasks come while one worker waits, both
  go to the queue, the worker takes the first, and no other worker exists to take the second until the
  first one ends, which for a client is the end of its connection.
\<close>

lemma task_waits_for_another:
  "\<exists>es. pool_run es (one_worker (Running b) [c] 0) \<and> accepted es = {#a, b, c#} \<and> settled es = {#a#}"
proof -
  have "pool_run ([Accepted a, Internal, Finished a, Internal] @ [Accepted b]) (one_worker Waiting [b] 1)"
    using pool_run.step [OF idle_worker_run [of a] one_worker_steps(5) [of "[]" b]] by simp
  then have "pool_run (([Accepted a, Internal, Finished a, Internal] @ [Accepted b]) @ [Accepted c]) (one_worker Waiting [b, c] 1)"
    using pool_run.step one_worker_steps(5) [of "[b]" c] by fastforce
  then have "pool_run ((([Accepted a, Internal, Finished a, Internal] @ [Accepted b]) @ [Accepted c]) @ [Internal])
      (one_worker (Testing (Some b)) [c] 0)"
    by (rule pool_run.step [OF _ one_worker_steps(6)])
  then have "pool_run (((([Accepted a, Internal, Finished a, Internal] @ [Accepted b]) @ [Accepted c]) @ [Internal]) @ [Internal])
      (one_worker (Running b) [c] 0)"
    by (rule pool_run.step [OF _ one_worker_steps(2)])
  moreover have "accepted (((([Accepted a, Internal, Finished a, Internal] @ [Accepted b]) @ [Accepted c]) @ [Internal]) @ [Internal]) =
      {#a, b, c#}" "settled (((([Accepted a, Internal, Finished a, Internal] @ [Accepted b]) @ [Accepted c]) @ [Internal]) @ [Internal]) =
      {#a#}" by (simp_all add: accepted_def settled_def)
  ultimately show ?thesis by blast
qed

text \<open>What a stopped pool still has to do.\<close>

fun worker_rounds :: "'r worker \<Rightarrow> nat" where
  "worker_rounds (Testing _) = 1"
| "worker_rounds Waiting = 2"
| "worker_rounds Popping = 3"
| "worker_rounds (Running _) = 4"

definition rounds :: "'r pool \<Rightarrow> nat" where
  "rounds p = (\<Sum>w \<in># workers p. worker_rounds w)"

lemma worker_rounds_le: "worker_rounds w \<le> 4"
  by (cases w) simp_all

lemma rounds_le: "rounds p \<le> 4 * size (workers p)"
proof -
  have "(\<Sum>w \<in># M. worker_rounds w) \<le> 4 * size M" for M :: "'a worker multiset"
  proof (induction M)
    case (add w M)
    with worker_rounds_le [of w] show ?case by simp
  qed simp
  then show ?thesis by (simp add: rounds_def)
qed

lemma stopped_step:
  assumes "worker_step p e p'" "\<not> running p"
  shows "rounds p' < rounds p \<and> \<not> running p'"
  using assms
proof cases
  case (test opt_r)
  from test(3) obtain ws where "workers p = add_mset (Testing opt_r) ws" by (rule worker_at)
  with test assms(2) show ?thesis by (cases opt_r) (auto simp: worker_defs rounds_def)
next
  case (finish r)
  from finish(3) obtain ws where "workers p = add_mset (Running r) ws" by (rule worker_at)
  with finish assms(2) show ?thesis by (auto simp: worker_defs rounds_def)
next
  case pop
  from pop(3) obtain ws where "workers p = add_mset Popping ws" by (rule worker_at)
  with pop assms(2) show ?thesis by (cases "q_data p") (auto simp: worker_defs rounds_def)
next
  case wake
  from wake(3) obtain ws where "workers p = add_mset Waiting ws" by (rule worker_at)
  with wake assms(2) show ?thesis by (cases "q_data p") (auto simp: worker_defs rounds_def Let_def)
qed

lemma worker_can_step: "workers p \<noteq> {#} \<Longrightarrow> \<exists>e p'. worker_step p e p'"
proof -
  assume "workers p \<noteq> {#}"
  then obtain w where "w \<in># workers p" by (meson multiset_nonemptyE)
  then show ?thesis by (cases w) (auto intro: worker_step.intros)
qed

abbreviation "some_worker_step \<equiv> \<lambda>p p'. \<exists>e. worker_step p e p'"

lemma worker_steps_inv:
  "(some_worker_step ^^ n) p p' \<Longrightarrow> workers_inv p \<Longrightarrow> \<not> running p \<Longrightarrow> workers_inv p' \<and> \<not> running p' \<and> n + rounds p' \<le> rounds p"
proof (induction n arbitrary: p')
  case (Suc n)
  then obtain q e where "(some_worker_step ^^ n) p q" "worker_step q e p'" by (auto simp: relcompp_apply)
  with Suc worker_step_inv [of q e p'] stopped_step [of q e p'] show ?case by fastforce
qed simp

text \<open>
  Property C30: a stopped pool drains. Once it is stopped, it takes no task, its workers make at most four steps each,
  whatever their order, a task in progress counting as one; and as long as a worker is left, one of them can go on. So, if the
  tasks in progress end, the count that \<open>wait\<close> waits for reaches zero.
\<close>

theorem stopped_pool_drains:
  assumes "pool_run es p" "\<not> running p" "(some_worker_step ^^ n) p p'"
  shows "n \<le> 4 * rc_count p \<and> pool_launch r p' = (False, p') \<and>
    ((\<exists>e p''. worker_step p' e p'') \<longleftrightarrow> rc_count p' \<noteq> 0)"
proof -
  have inv: "workers_inv p" using pool_run_inv [OF assms(1)] by simp
  from worker_steps_inv [OF assms(3) inv assms(2)] have p': "workers_inv p'" "\<not> running p'" "n + rounds p' \<le> rounds p" by auto
  have "n \<le> 4 * rc_count p" using p'(3) rounds_le [of p] inv by (simp add: workers_inv_def)
  moreover have "pool_launch r p' = (False, p')" using p'(2) by (simp add: pool_launch_def)
  moreover have "(\<exists>e p''. worker_step p' e p'') \<longleftrightarrow> workers p' \<noteq> {#}"
    using worker_can_step [of p'] by (auto elim: worker_step.cases)
  ultimately show ?thesis using p'(1) by (simp add: workers_inv_def)
qed

lemma stopped_pool_drains_witness:
  "pool_launch (2::nat) (pool_stop (one_worker Waiting [] 1)) = (False, pool_stop (one_worker Waiting [] 1)) \<and>
   (\<exists>e p''. worker_step (pool_stop (one_worker Waiting ([] :: nat list) 1)) e p'')"
  using stopped_pool_drains [OF pool_run.step [OF idle_worker_run [of "1::nat"] pool_step.stop], of 0 _ 2]
  by (simp add: pool_stop_def one_worker_def)

end
