(* ===== verification/Helper_Runner.thy ===== *)
theory Helper_Runner
  imports Helper_Client Helper_Process Worker_Pool
begin

text \<open>
  The main thread of the helper: src/helper/config.cpp and config.hpp, network/acceptor.cpp and acceptor.hpp,
  runner.cpp and runner.hpp, main.cpp.

  It reads its arguments, makes sure that no other helper runs, and hands the connections that it accepts to
  the pool of workers until it is told to end, or nothing has happened for long. What other threads do to the
  flag and the pool between two looks at them is an input of each round.
\<close>

section \<open>Arguments\<close>

definition config_defaults :: "string \<rightharpoonup> string" where
  "config_defaults =
     [''lock_path'' \<mapsto> ''/tmp/ddappsec.lock'', ''socket_path'' \<mapsto> ''/tmp/ddappsec.sock'', ''log_level'' \<mapsto> ''warn'',
      ''runner_idle_timeout'' \<mapsto> ''1440'']"

definition is_option :: "string \<Rightarrow> bool" where
  "is_option arg \<longleftrightarrow> \<not> (length arg < 2 \<or> take 2 arg \<noteq> ''--'')"

text \<open>The constructor of \<open>config\<close>. Whether an option takes the next argument is decided by its own name.\<close>

fun config_loop :: "string list \<Rightarrow> (string \<rightharpoonup> string) \<Rightarrow> (string \<rightharpoonup> string)" where
  "config_loop [] kv = kv"
| "config_loop (a # rest) kv =
     (if \<not> is_option a then config_loop rest kv
      else let arg = drop 2 a in
        if CHR ''='' \<in> set arg
        then config_loop rest (kv(takeWhile ((\<noteq>) (CHR ''='')) arg \<mapsto> drop 1 (dropWhile ((\<noteq>) (CHR ''='')) arg)))
        else case rest of
            value # rest' \<Rightarrow> if \<not> is_option arg then config_loop rest' (kv(arg \<mapsto> value)) else config_loop rest (kv(arg \<mapsto> []))
          | [] \<Rightarrow> kv(arg \<mapsto> []))"

definition new_config :: "string list \<Rightarrow> (string \<rightharpoonup> string)" where
  "new_config argv = config_loop (drop 1 argv) config_defaults"

text \<open>\<open>std::stoi\<close>: blanks, a sign and at least one digit; what comes after the digits is left. It throws out of range.\<close>

definition stoi :: "string \<Rightarrow> int option" where
  "stoi s =
     (let t = dropWhile c_isspace s;
          u = (if t \<noteq> [] \<and> (hd t = CHR ''-'' \<or> hd t = CHR ''+'') then tl t else t) in
      if u = [] \<or> \<not> is_digit_char (hd u) \<or> atoi s < - (2 ^ 31) \<or> atoi s \<ge> 2 ^ 31 then None else Some (atoi s))"

section \<open>The acceptor\<close>

datatype acceptor_exn = Acceptor_system int | Acceptor_invalid_argument | Acceptor_timeout

definition new_acceptor :: "sys_env \<Rightarrow> string \<Rightarrow> ('w world_scheme, acceptor_exn + int) state" where
  "new_acceptor env sv = do {
     s \<leftarrow> sys env Sys_socket;
     if rv s = -1 then ret (Inl (Acceptor_system (errno s)))
     else if length sv > 107 then ret (Inl Acceptor_invalid_argument)
     else do {
       _ \<leftarrow> sys env (Sys_unlink sv);
       b \<leftarrow> sys env (Sys_bind (rv s) sv);
       if rv b = -1 then ret (Inl (Acceptor_system (errno b)))
       else do {
         _ \<leftarrow> sys env (Sys_chmod sv);
         l \<leftarrow> sys env (Sys_listen (rv s) 50);
         if rv l = -1 then ret (Inl (Acceptor_system (errno l))) else ret (Inr (rv s))
       }
     }
   }"

definition set_accept_timeout :: "sys_env \<Rightarrow> int \<Rightarrow> int \<Rightarrow> ('w world_scheme, acceptor_exn + unit) state" where
  "set_accept_timeout env sock seconds = do {
     r \<leftarrow> sys env (Sys_set_timeo sock 20 seconds 0);
     ret (if rv r = -1 then Inl (Acceptor_system (errno r)) else Inr ())
   }"

definition acceptor_accept :: "sys_env \<Rightarrow> int \<Rightarrow> ('w world_scheme, acceptor_exn + int) state" where
  "acceptor_accept env sock = do {
     r \<leftarrow> sys env (Sys_accept sock);
     ret (if rv r = -1 then Inl (if errno r = 11 then Acceptor_timeout else Acceptor_system (errno r)) else Inr (rv r))
   }"

text \<open>\<open>S_ISSOCK\<close> of the mode that \<open>fstat\<close> gives.\<close>

definition is_socket_mode :: "int \<Rightarrow> bool" where
  "is_socket_mode mode \<longleftrightarrow> (mode div 4096) mod 16 = 12"

definition acceptor_from_config :: "sys_env \<Rightarrow> (string \<rightharpoonup> string) \<Rightarrow> ('w world_scheme, acceptor_exn + int) state" where
  "acceptor_from_config env kv =
     (case kv ''socket_path'' of
        None \<Rightarrow> ret (Inl Acceptor_invalid_argument)
      | Some value \<Rightarrow>
          if length value \<ge> 4 \<and> take 3 value = ''fd:'' then
            (case stoi (drop 3 value) of
               None \<Rightarrow> ret (Inl Acceptor_invalid_argument)
             | Some fd \<Rightarrow> do {
                 r \<leftarrow> sys env (Sys_fstat fd);
                 if rv r = -1 \<or> \<not> is_socket_mode (out_flags r) then ret (Inl Acceptor_invalid_argument)
                 else ret (Inr fd)
               })
          else new_acceptor env value)"

section \<open>The runner\<close>

text \<open>
  One round of the loop: the flag before and after the call of \<open>accept\<close>, the number of workers and the time, in
  nanoseconds. The connections handed to the pool are collected in order.
\<close>

record runner_round =
  rr_running :: bool
  rr_still_running :: bool
  rr_worker_count :: nat
  rr_now :: nat

datatype runner_end = Rounds_left | Told_to_end | Idle_for_long | Failed acceptor_exn

definition idle_ns :: "nat \<Rightarrow> nat" where
  "idle_ns minutes = minutes * 60 * 10 ^ 9"

fun runner_loop ::
  "sys_env \<Rightarrow> int \<Rightarrow> nat \<Rightarrow> runner_round list \<Rightarrow> nat \<Rightarrow> int list \<Rightarrow> ('w world_scheme, runner_end \<times> int list) state" where
  "runner_loop env sock idle_timeout [] last_not_idle launched = ret (Rounds_left, launched)"
| "runner_loop env sock idle_timeout (r # rs) last_not_idle launched =
     (if \<not> rr_running r then ret (Told_to_end, launched)
      else do {
        a \<leftarrow> acceptor_accept env sock;
        case a of
          Inl e \<Rightarrow>
            if e = Acceptor_timeout then
              (if rr_worker_count r > 0 then runner_loop env sock idle_timeout rs (rr_now r) launched
               else if rr_now r - last_not_idle \<ge> idle_ns idle_timeout then ret (Idle_for_long, launched)
               else runner_loop env sock idle_timeout rs last_not_idle launched)
            else ret (Failed e, launched)
        | Inr s \<Rightarrow>
            if \<not> rr_still_running r then ret (Told_to_end, launched)
            else runner_loop env sock idle_timeout rs (rr_now r) (launched @ [s])
      })"

text \<open>\<open>ensure_unique\<close>: a lock path of \<open>-\<close> is a lock inherited from the process that launched the helper.\<close>

definition ensure_unique :: "sys_env \<Rightarrow> (string \<rightharpoonup> string) \<Rightarrow> ('w world_scheme, bool) state" where
  "ensure_unique env kv =
     (let lock_path = (case kv ''lock_path'' of None \<Rightarrow> [] | Some p \<Rightarrow> p) in
      if lock_path = ''-'' then ret True
      else do {
        fd \<leftarrow> sys env (Sys_open lock_path);
        if rv fd = -1 then ret False
        else do {
          r \<leftarrow> sys env (Sys_flock (rv fd));
          ret (rv r \<noteq> -1)
        }
      })"

text \<open>
  \<open>main\<close>: the way the helper ends and the connections it took on. \<open>lexical_cast\<close> reads an unsigned number,
  \<open>start\<close> is the time at which the loop starts.
\<close>

datatype main_end = Not_unique | Bad_config | No_acceptor acceptor_exn | Ran runner_end "int list"

definition helper_main ::
  "sys_env \<Rightarrow> (string \<Rightarrow> nat option) \<Rightarrow> string list \<Rightarrow> bool \<Rightarrow> runner_round list \<Rightarrow> nat \<Rightarrow> ('w world_scheme, main_end) state" where
  "helper_main env lexical_cast argv exit_signal looks start =
     (let kv = new_config argv in do {
        unique \<leftarrow> ensure_unique env kv;
        if \<not> unique then ret Not_unique
        else do {
          a \<leftarrow> acceptor_from_config env kv;
          case a of
            Inl e \<Rightarrow> ret (No_acceptor e)
          | Inr sock \<Rightarrow>
              (case Option.bind (kv ''runner_idle_timeout'') lexical_cast of
                 None \<Rightarrow> ret Bad_config
               | Some idle_timeout \<Rightarrow> do {
                   _ \<leftarrow> set_accept_timeout env sock 60;
                   if exit_signal then ret (Ran Told_to_end [])
                   else do {
                     (e, launched) \<leftarrow> runner_loop env sock idle_timeout looks start [];
                     ret (Ran e launched)
                   }
                 })
        }
      })"

section \<open>Laws of the main thread\<close>

text \<open>Arguments that leave no option waiting for its value.\<close>

fun complete_args :: "string list \<Rightarrow> bool" where
  "complete_args [] = True"
| "complete_args (a # rest) =
     (if \<not> is_option a \<or> CHR ''='' \<in> set (drop 2 a) then complete_args rest
      else case rest of value # rest' \<Rightarrow> if \<not> is_option (drop 2 a) then complete_args rest' else complete_args rest | [] \<Rightarrow> False)"

lemma config_loop_option:
  "is_option a \<Longrightarrow> CHR ''='' \<notin> set (drop 2 a) \<Longrightarrow> config_loop (a # v # rest) kv =
     (if is_option (drop 2 a) then config_loop (v # rest) (kv(drop 2 a \<mapsto> [])) else config_loop rest (kv(drop 2 a \<mapsto> v)))"
  by (simp only: config_loop.simps(2) [of a] Let_def list.case if_True if_False not_True_eq_False not_False_eq_True if_not_P split: if_split) simp

lemma config_loop_append: "complete_args as \<Longrightarrow> config_loop (as @ bs) kv = config_loop bs (config_loop as kv)"
proof (induction as arbitrary: kv rule: complete_args.induct)
  case (2 a rest)
  show ?case
  proof (cases "\<not> is_option a \<or> CHR ''='' \<in> set (drop 2 a)")
    case True
    with "2.prems" have "complete_args rest" by simp
    note IH = "2.IH"(1) [OF True this]
    from True show ?thesis by (auto simp: Let_def IH fun_upd_def)
  next
    case False
    with "2.prems" obtain v rest' where rest: "rest = v # rest'" by (auto split: list.splits)
    from False have a: "is_option a" "CHR ''='' \<notin> set (drop 2 a)" by auto
    show ?thesis
    proof (cases "is_option (drop 2 a)")
      case True
      with "2.prems" rest a have "complete_args (v # rest')" by (simp del: complete_args.simps add: complete_args.simps(2) [of a])
      from "2.IH"(3) [OF False rest _ this [folded rest]] True have "config_loop (v # rest' @ bs) kv = config_loop bs (config_loop (v # rest') kv)" for kv
        by (simp del: config_loop.simps add: rest)
      then show ?thesis using True by (simp del: config_loop.simps add: rest config_loop_option [OF a] fun_upd_def)
    next
      case nopt: False
      with "2.prems" rest a have "complete_args rest'" by (simp del: complete_args.simps add: complete_args.simps(2) [of a])
      from "2.IH"(2) [OF False rest nopt this] nopt show ?thesis
        by (simp del: config_loop.simps add: rest config_loop_option [OF a] fun_upd_def)
    qed
  qed
qed simp

lemma own_args_config:
  "config_loop [''--lock_path'', ''-'', ''--socket_path'', v] kv = kv(''lock_path'' \<mapsto> ''-'', ''socket_path'' \<mapsto> v)"
  by (simp add: is_option_def Let_def)

lemma nat_dec_not_Nil: "nat_dec n \<noteq> []"
  by (subst nat_dec.simps) simp

lemma digit_props:
  assumes "d < 10" "c = char_of (48 + d :: nat)"
  shows "is_digit_char c" "\<not> c_isspace c" "c \<noteq> CHR ''-''" "c \<noteq> CHR ''+''" "of_char c = 48 + d"
proof -
  have n: "of_char c = 48 + d" using assms by (simp add: of_char_of)
  then show "of_char c = 48 + d" "is_digit_char c" using assms(1) by (simp_all add: is_digit_char_def)
  show "\<not> c_isspace c" "c \<noteq> CHR ''-''" "c \<noteq> CHR ''+''" using n by (auto simp: c_isspace_def)
qed

lemma atoi_digits_append:
  "(\<forall>c \<in> set ds. is_digit_char c) \<Longrightarrow> atoi_digits n (ds @ es) = atoi_digits (atoi_digits n ds) es"
  by (induction ds arbitrary: n) (auto simp: is_digit_char_def)

lemma nat_dec_digit_chars: "\<forall>c \<in> set (nat_dec n). is_digit_char c"
proof
  fix c assume "c \<in> set (nat_dec n)"
  then obtain d where "d < 10" "c = char_of (48 + d :: nat)" using nat_dec_digits by blast
  then show "is_digit_char c" by (rule digit_props(1))
qed

lemma of_char_digit: "d < 10 \<Longrightarrow> (of_char (char_of (48 + d :: nat)) :: int) = 48 + int d"
proof -
  assume "d < 10"
  then have "(of_char (char_of (48 + d)) :: nat) = 48 + d" by (simp add: of_char_of)
  moreover have "(of_char c :: int) = int (of_char c)" for c by (rule of_nat_of_char [symmetric])
  ultimately show ?thesis by (simp only: of_nat_add of_nat_numeral)
qed

lemma atoi_digits_nat_dec: "atoi_digits 0 (nat_dec n) = int n"
proof (induction n rule: nat_dec.induct)
  case (1 n)
  show ?case
  proof (cases "n < 10")
    case True
    then show ?thesis by (subst nat_dec.simps) (simp add: of_char_of of_char_digit)
  next
    case False
    with 1 have "atoi_digits 0 (nat_dec (n div 10)) = int (n div 10)" by simp
    moreover have "n mod 10 < 10" "10 * int (n div 10) + int (n mod 10) = int n"
      using mult_div_mod_eq [of 10 n] by (simp, linarith)
    ultimately show ?thesis using False
      by (subst nat_dec.simps) (simp add: atoi_digits_append [OF nat_dec_digit_chars] of_char_of of_char_digit)
  qed
qed

lemma stoi_nat_dec: "n < 2 ^ 31 \<Longrightarrow> stoi (nat_dec n) = Some (int n)"
proof -
  assume n: "n < 2 ^ 31"
  obtain c cs where cs: "nat_dec n = c # cs" using nat_dec_not_Nil by (cases "nat_dec n") auto
  then obtain d where d: "d < 10" "c = char_of (48 + d :: nat)" using nat_dec_digits [of c n] by auto
  have "atoi (nat_dec n) = int n"
    using atoi_digits_nat_dec [of n] digit_props [OF d] by (simp add: atoi_def cs Let_def)
  then show ?thesis using n digit_props [OF d] by (simp add: stoi_def cs Let_def)
qed



text \<open>
  An option at the end of the configured arguments takes the first argument of the extension for its value, because the
  test for the next argument looks at the name of the option. The lock path then stays the default one.
\<close>

lemma trailing_option_takes_lock_path:
  assumes "is_option a" "\<not> is_option (drop 2 a)" "CHR ''='' \<notin> set (drop 2 a)" "drop 2 a \<noteq> ''lock_path''"
  shows "new_config [exe, a, ''--lock_path'', ''-'', ''--socket_path'', s] ''lock_path'' = Some ''/tmp/ddappsec.lock''"
proof -
  have "is_option ''--socket_path''" "\<not> is_option ''-''" "\<not> is_option ''socket_path''" by (simp_all add: is_option_def)
  then show ?thesis using assms by (simp add: new_config_def Let_def config_defaults_def)
qed

text \<open>The connections that calls of \<open>accept\<close> gave.\<close>

definition accepted_sockets :: "sys_trace \<Rightarrow> int list" where
  "accepted_sockets es = concat (map (\<lambda>(c, r). case c of Sys_accept _ \<Rightarrow> if rv r = -1 then [] else [rv r] | _ \<Rightarrow> []) es)"

lemma accepted_sockets_simps [simp]:
  "accepted_sockets [] = []" "accepted_sockets (es @ fs) = accepted_sockets es @ accepted_sockets fs"
  "accepted_sockets ((Sys_accept s, r) # es) = (if rv r = -1 then [] else [rv r]) @ accepted_sockets es"
  by (simp_all add: accepted_sockets_def)

text \<open>
  The runner hands every connection it accepts to the pool, in order; only the last one may be left out,
  when the helper was told to end while it waited for it. It makes no other call than \<open>accept\<close>, and takes at most one
  connection in each round.
\<close>

theorem runner_hands_over_connections:
  assumes "run_state (runner_loop env sock idle_timeout looks last_not_idle []) w = ((e, launched), w')"
  shows "\<exists>es. trace w' = trace w @ es \<and> (\<forall>(c, r) \<in> set es. c = Sys_accept sock) \<and> length es \<le> length looks \<and>
    (accepted_sockets es = launched \<or> e = Told_to_end \<and> (\<exists>s. accepted_sockets es = launched @ [s]))"
proof -
  have "\<exists>es new. launched' = launched @ new \<and> trace w' = trace w @ es \<and> (\<forall>(c, r) \<in> set es. c = Sys_accept sock) \<and>
      length es \<le> length looks \<and>
      (accepted_sockets es = new \<or> e = Told_to_end \<and> (\<exists>s. accepted_sockets es = new @ [s]))"
    if "run_state (runner_loop env sock idle_timeout looks last launched) w = ((e, launched'), w')" for last launched launched'
    using that
  proof (induction looks arbitrary: last launched w)
    case Nil
    then show ?case by (auto intro!: exI [of _ "[]"])
  next
    case (Cons l ls)
    let ?r = "env (trace w) (Sys_accept sock)"
    let ?w = "w\<lparr>trace := trace w @ [(Sys_accept sock, ?r)]\<rparr>"
    consider (stop) "\<not> rr_running l" "e = Told_to_end" "launched' = launched" "w' = w"
      | (last) "launched' = launched" "w' = ?w" "rv ?r = -1 \<or> e = Told_to_end"
      | (more) last' launched'' where "run_state (runner_loop env sock idle_timeout ls last' launched'') ?w = ((e, launched'), w')"
          "launched'' = launched @ (if rv ?r = -1 then [] else [rv ?r])"
      using Cons.prems by (auto simp: acceptor_accept_def split: if_splits)
    then show ?case
    proof cases
      case stop
      then show ?thesis by (auto intro!: exI [of _ "[]"])
    next
      case last
      then show ?thesis by (auto intro!: exI [of _ "[(Sys_accept sock, ?r)]"])
    next
      case more
      from Cons.IH [OF more(1)] obtain es new where "launched' = launched'' @ new" "trace w' = trace ?w @ es"
          "\<forall>(c, r) \<in> set es. c = Sys_accept sock" "length es \<le> length ls"
          "accepted_sockets es = new \<or> e = Told_to_end \<and> (\<exists>s. accepted_sockets es = new @ [s])" by auto
      then show ?thesis using more(2)
        by (intro exI [of _ "(Sys_accept sock, ?r) # es"] exI [of _ "(if rv ?r = -1 then [] else [rv ?r]) @ new"]) auto
    qed
  qed
  from this [OF assms] show ?thesis by auto
qed

lemma runner_hands_over_connections_witness:
  "\<exists>e launched w' es. run_state (runner_loop (\<lambda>_ _. sys_ret 9) 4 1440
       [\<lparr>rr_running = True, rr_still_running = True, rr_worker_count = 0, rr_now = 1\<rparr>] 0 []) \<lparr>trace = []\<rparr> = ((e, launched), w') \<and>
     trace w' = es \<and> launched = [9] \<and> accepted_sockets es = [9]"
proof -
  have run: "run_state (runner_loop (\<lambda>_ _. sys_ret 9) 4 1440
       [\<lparr>rr_running = True, rr_still_running = True, rr_worker_count = 0, rr_now = 1\<rparr>] 0 []) \<lparr>trace = []\<rparr> =
     ((Rounds_left, [9]), \<lparr>trace = [(Sys_accept 4, sys_ret 9)]\<rparr>)"
    by (simp add: acceptor_accept_def sys_ret_def)
  from runner_hands_over_connections [OF run] run show ?thesis by (auto simp: sys_ret_def)
qed

end
