(* ===== verification/Spec2Isabelle.thy ===== *)
theory Spec2Isabelle
  imports String_Helpers Php_Helpers Ip_Extraction Network Helper_Frame Msgpack Commands_Out User_Events
    Activation Configuration Helper_Runner
begin

text \<open>
  Verification of the Datadog AppSec extension for PHP (src/extension) and of the helper process it
  talks to (src/helper).

  \<^bold>\<open>The program.\<close> The extension is loaded into a PHP worker. At the start of a request it collects what
  PHP knows of the request and sends it over a UNIX socket to the helper, a separate process that it
  launches when none is listening. The helper answers with a verdict: nothing, record, block or
  redirect. The extension applies the verdict by replacing the response, and at the end of the request
  puts tags on the root span of the tracer. Local and remote configuration turn all this on and off.

  \<^bold>\<open>How the theories correspond to the code.\<close> Prelude holds the C string functions, the explicit outcome
  for undefined behaviour, the result codes of dddefs.c and the shared lemmas. The other theories follow
  the files, and their definitions keep the names of the functions, without a leading underscore:

  \<^item> String\_Helpers: string\_helpers.c. The table-driven comparisons and header normalisation equal their
    reference definitions.
  \<^item> Php\_Helpers: php\_helpers.c and the PHP values. A zval is a datatype with one constructor per type tag.
  \<^item> Ip\_Extraction: ip\_extraction.c. The search for the client address, its parsers as the same state
    machines as in C, and the private ranges as word masks.
  \<^item> Os: system calls as values of a datatype. The environment, a parameter, chooses each result as a
    function of the trace of calls made so far, so that a theorem about every environment covers every
    behaviour of the kernel and of the peer.
  \<^item> Network: network.c. Connecting, framing, receiving in chunks, peer credentials.
  \<^item> Helper\_Process: helper\_process.c. The record \<open>dd_helper_mgr\<close> and the atomic launch counter, the
    acquire loop, the back-off, the launch lock, the command line splitter, the forked processes.
  \<^item> Helper\_Frame: a locale that says once for every relation between states what the manager leaves alone.
  \<^item> Msgpack: msgpack\_helpers.c. A writer is the list of calls made to it.
  \<^item> Commands\_Out: the packing half of commands/*.c, request\_body.c and the framing of a command.
  \<^item> Commands\_In: commands\_helpers.c and the answering half of commands/*.c. Command\_Laws: their frames,
    that they return, and where blocking results come from.
  \<^item> Ddtrace, Tags, User\_Events: ddtrace.c and tags.c, the root span as two tables.
  \<^item> Request\_Abort: request\_abort.c. What is asked of the SAPI is the list of operations in order.
  \<^item> User\_Tracking: user\_tracking.c.
  \<^item> Ddappsec: ddappsec.c. The handlers of the module and of a request compose all of the above.
    Ddappsec\_Laws and Activation: the interpretations of the interface locales on these definitions, the
    reachable states, the abstract activation machine and its refinement.
  \<^item> Logging: logging.c. The choice of the destination, made at the first message, the writers and the shutdown.
    A log file is accounted for and no message is lost silently (\<open>log_messages\<close>).
  \<^item> Configuration: configuration.c, configuration.h. The table of entries, its parsers and INI names; lists equal
    splitting and trimming, numbers fit their accessors, defaults are accepted by their parsers.

  The helper (src/helper) accepts connections, gives each to a worker of a pool, and keeps one service per
  service name and environment, with the rules of the WAF and a client of remote configuration:

  \<^item> Helper\_Limits: rate\_limit.cpp, sampler.hpp, runtime\_id\_pool.hpp. The limiter decides like a
    specification over the times of calls; the sampler keeps its share.
  \<^item> Json: json\_helper.cpp, network/msgpack\_helpers.cpp. Documents, parameters of the WAF and the
    conversions between them, with the uninitialised value as an explicit outcome.
  \<^item> Transport: compression.cpp, http\_api.cpp, engine\_settings.cpp, parameter\_base.cpp. What the helper does around
    zlib, HTTP and the file system.
  \<^item> Tuf\_Parser: remote\_config/protocol/tuf/parser.cpp. Every exception of the parser is a value; what the agent
    writes is read back.
  \<^item> Rc\_Listeners: remote\_config/listeners. The listeners and aggregators, their commit to the engine.
  \<^item> Rc\_Client: remote\_config/product.cpp, client.cpp, client\_handler.cpp, serializer.cpp. A response is applied
    as a whole or not at all; the interval of the handler.
  \<^item> Helper\_Engine: engine.cpp, engine\_ruleset.cpp over an interface of subscribers. Waf: subscriber/waf.cpp, the
    subscriber; libddwaf is a parameter.
  \<^item> Helper\_Broker: network/socket.cpp, broker.cpp, proto.cpp. Frames of the extension are read as they were sent,
    over the same trace of system calls.
  \<^item> Helper\_Service: service.cpp, service\_manager.cpp. The cache of services with weak pointers as addresses.
  \<^item> Helper\_Client: client.cpp. The session with one connection; every message is answered, the verdict is
    that of the WAF, the end of a request releases what it holds.
  \<^item> Worker\_Pool: worker\_pool.cpp, as interleavings of the critical sections. No task is lost, and a stopped pool drains.
  \<^item> Helper\_Runner: config.cpp, acceptor.cpp, runner.cpp, main.cpp. The command line that the extension builds makes the
    helper accept on the descriptor it was given.

  \<^bold>\<open>State and effects.\<close> The state of a worker is a record that grows by extension: the system (trace,
  open descriptors, manager, lock), the tracer's span, the tags, the aborting module, and the globals of
  ddappsec.c. Operations take and return it. Errors are values (\<open>dd_result\<close>, options, sums); leaving a
  request by \<open>zend_bailout\<close> or an exception is an outcome of its own.

  \<^bold>\<open>Interfaces.\<close> Where a component relies on another the contract is a locale: \<open>frame_relation\<close>,
  \<open>helper_frame\<close>, \<open>abort_frame\<close> and \<open>request_frame\<close> say which relations between states the operations keep,
  \<open>rshutdown_contract\<close> what aborting a request expects of the request shutdown, \<open>subscriber_contract\<close> what the engine keeps
  for its subscribers, and \<open>hash_table\<close> what lookups give after insertions. The client lemmas are proved in them once. Each is interpreted on the definitions of the model.

  \<^bold>\<open>What the theorems show.\<close> The properties that span components stand at the end of this theory: open
  descriptors are accounted for in every reachable state, the handlers refine the activation machine,
  they return whatever the helper sends, they leave the response alone unless a command came back with
  a verdict to block, and blocking ends the request with exactly one page. The component theories hold
  the properties of each part; each stands after a text that states it. The two processes meet in three places: the
  frames that one writes and the other reads (\<open>frames_reach_helper\<close>), the command line (\<open>helper_understands_command_line\<close>) and
  the verdict, which is that of the WAF on one side (\<open>request_init_verdict\<close>) and ends the request on the
  other (\<open>blocked_request_ends\<close>).

  \<^bold>\<open>Bounds and fuel.\<close> Two loops of the extension have fuel and give \<open>None\<close> when it runs out. The loop
  that receives a body gets one more than the announced size: each round receives at least one byte, so
  that is enough for every peer (\<open>recv_one_message\<close>). The loop that acquires a connection gets two rounds,
  because the second one never retries. In the helper the loops that receive and discard have one round more than the
  bytes that they want, with the same argument (\<open>frames_reach_helper\<close>); the session and the accepting loop, which
  may run for ever, run over a finite list of rounds, and every round is proved to return. Decompression has the
  hundred rounds of the code. All other recursion is structural or has a measure. C integers
  that can wrap or saturate are words of their width.

  \<^bold>\<open>Not modelled.\<close> The functions that exist only for tests, phpinfo, the module entry tables; php\_objects.c,
  php\_compat.c and attributes.h, which wrap macros and registrations of the Zend engine; the calls that write log messages
  (the log itself is in Logging); the log macros and callbacks of the helper and reading a whole file; move
  constructors, destructors and accessors of C++ classes, since values of HOL are copied. Threads other than the
  workers of the pool appear as steps at any moment: the polling of remote configuration and other clients. The values
  of the configuration are fields of the records of the parts that read them. Third-party code (mpack, PCRE, the
  Zend engine, the tracer, libddwaf, rapidjson, zlib, boost, msgpack-cxx) is a parameter wherever the sources call it.
\<close>

section \<open>A concrete request\<close>

text \<open>
  Surroundings in which the hypotheses of the properties hold: a system that answers every call, a
  reader of message nodes, a configuration that enables the extension, and the state of a worker that
  has just started.
\<close>

datatype sample_node =
    Node_nil | Node_bool bool | Node_str string | Node_array "sample_node list"
  | Node_map "(sample_node \<times> sample_node) list"

definition sample_reader :: "sample_node mpack_reader" where
  "sample_reader =
     \<lparr>mr_parse = (\<lambda>b. Some (Node_array [Node_array [Node_str ''config_sync'', Node_array []]])),
      mr_nil = Node_nil,
      mr_type = (\<lambda>n. case n of Node_nil \<Rightarrow> mpack_type_nil | Node_bool _ \<Rightarrow> mpack_type_bool
        | Node_str _ \<Rightarrow> mpack_type_str | Node_array _ \<Rightarrow> mpack_type_array | Node_map _ \<Rightarrow> mpack_type_map),
      mr_at = (\<lambda>n i. case n of Node_array ns \<Rightarrow> if i < length ns then Some (ns ! i) else None | _ \<Rightarrow> None),
      mr_length = (\<lambda>n. case n of Node_array ns \<Rightarrow> Some (length ns) | _ \<Rightarrow> None),
      mr_map_count = (\<lambda>n. case n of Node_map kvs \<Rightarrow> Some (length kvs) | _ \<Rightarrow> None),
      mr_key_at = (\<lambda>n i. case n of Node_map kvs \<Rightarrow> if i < length kvs then Some (fst (kvs ! i)) else None | _ \<Rightarrow> None),
      mr_value_at = (\<lambda>n i. case n of Node_map kvs \<Rightarrow> if i < length kvs then Some (snd (kvs ! i)) else None | _ \<Rightarrow> None),
      mr_str = (\<lambda>n. case n of Node_str s \<Rightarrow> Some s | _ \<Rightarrow> None),
      mr_data = (\<lambda>n. case n of Node_str s \<Rightarrow> Some s | _ \<Rightarrow> None),
      mr_bool = (\<lambda>n. case n of Node_bool b \<Rightarrow> Some b | _ \<Rightarrow> None),
      mr_float = (\<lambda>_. None), mr_double = (\<lambda>_. None), mr_int = (\<lambda>_. None), mr_uint = (\<lambda>_. None)\<rparr>"

definition sample_command_env :: "sample_node command_env" where
  "sample_command_env =
     \<lparr>ce_sys = sample_env, ce_encode = (\<lambda>calls. Some [''message'']), ce_writer_error = (\<lambda>_. False),
      ce_reader = sample_reader\<rparr>"

definition sample_client :: client_ctx where
  "sample_client =
     \<lparr>cl_pid = 1, cl_ext_version = ''1'', cl_php_version = ''8'', cl_enabled_by_configuration = ENABLED,
      cl_service = ''web'', cl_extra_services = ZNull, cl_env = [], cl_tracer_version = None, cl_version = [],
      cl_runtime_id = None, cl_rules = [], cl_waf_timeout = 10000, cl_trace_rate_limit = 100,
      cl_obfuscator_key_regexp = [], cl_obfuscator_value_regexp = [], cl_api_security_enabled = False,
      cl_sample_rate = 0, cl_remote_config_enabled = True, cl_agent_host = None, cl_agent_url = None,
      cl_agent_port = 8126, cl_poll_interval = 1000, cl_url_parse = (\<lambda>_. None)\<rparr>"

definition sample_globals :: php_globals where
  "sample_globals = \<lparr>pg_http_globals = (\<lambda>_. ZNull), pg_known = False, pg_materialized = (\<lambda>_. ZNull)\<rparr>"

definition sample_request :: request_ctx where
  "sample_request =
     \<lparr>rq_globals = sample_globals, rq_method = Some ''GET'', rq_client_ip = None, rq_body_stream = None,
      rq_testing = False, rq_testing_raw_body = False, rq_raw_url_decode = id\<rparr>"

definition sample_ae :: "sample_node appsec_env" where
  "sample_ae =
     \<lparr>ae_cmd = sample_command_env, ae_helper = sample_config,
      ae_enabled = \<lparr>ec_phpinfo_as_text = False, ec_default = False, ec_appsec_enabled = True,
        ec_remote_config_enabled = True\<rparr>,
      ae_client = sample_client, ae_request = sample_request, ae_response_headers = [], ae_server = None,
      ae_request_uri = None, ae_inet = sample_inet, ae_ip_header = None, ae_path_translated = None,
      ae_testing_abort_rinit = False, ae_read_file = (\<lambda>_. None), ae_json_template = None,
      ae_html_template = None\<rparr>"

definition sample_state :: ddappsec_state where
  "sample_state = \<lparr>trace = [], mgr = initial_mgr, launch_failure_fd_lock = -1,
     ts_module = None, ts_loaded = True, ts_version = None, ts_mod_type = 0, ts_mod_number = 0,
     ts_orig_rshutdown = Null_fn, ts_suppress_rshutdown = False, ts_span_meta = True, ts_span_metrics = True,
     ts_sym_flush = True, ts_sym_meta = True, ts_sym_metrics = True, ts_sym_priority = True,
     ts_runtime_id = None, ts_testing = False, ts_trace_enabled = True,
     root_meta = Some [], root_metrics = Some [], root_priority = None,
     flush_count = 0, automated_user_events_tracking = SAFE, mode_cstr = None,
     relevant_headers = [], relevant_ip_headers = [], appsec_json_frags_inited = False,
     appsec_json_frags = [], event_user_id = None, is_blocked = False, force_keep = False,
     appsec_enabled = NOT_CONFIGURED,
     custom_error_html = None, custom_error_json = None, block_response_code = DEFAULT_BLOCKING_RESPONSE_CODE,
     block_response_type = DEFAULT_RESPONSE_TYPE,
     redirection_response_code = DEFAULT_REDIRECTION_RESPONSE_CODE, redirection_location = None,
     sapi_ops = [], og_active = False, og_running = False, og_handlers = 0, headers_sent = False,
     http_response_code = 200, request_method = Some ''GET'', sapi_name = ''apache2handler'',
     during_request_startup = True, during_request_shutdown = False, skip_rshutdown = False,
     user_error_handler = False, user_exception_handler = False, module_registry = [(''ddappsec'', True)],
     enabled_by_configuration = NOT_CONFIGURED, tree_error = False, client_ip = None,
     user_tracking = \<lparr>ut_function = None, ut_saved = None\<rparr>\<rparr>"

lemma sample_ae_sys: "ce_sys (ae_cmd sample_ae) = sample_env" "ae_cmd sample_ae = sample_command_env"
  by (simp_all add: sample_ae_def sample_command_env_def)

section \<open>The whole extension\<close>

text \<open>
  Property C1: in every state a worker can reach by starting and ending requests, asking for verdicts on
  users and shutting down, and whatever the system, the helper and PHP answer, the descriptors the
  extension left open are exactly the socket of a live connection and the lock held to prevent launches.
\<close>

theorem extension_descriptors:
  assumes "appsec_reachable ce s" "positive_fds (ce_sys ce)" "parent_env (ce_sys ce)"
  shows "open_fds (trace s) =
      (if dd_conn_connected (conn (mgr s)) then {#socket (conn (mgr s))#} else {#}) +
      (if launch_failure_fd_lock s \<noteq> -1 then {#launch_failure_fd_lock s#} else {#}) \<and>
    (failed_count (mgr s) = 0 \<longrightarrow> next_retry (mgr s) = (0, 0))"
  using appsec_reachable_mgr_inv [OF assms] by (simp add: mgr_inv_def helper_inv_def mgr_fds_def)

theorem extension_descriptors_witness:
  "\<exists>out s'. run_state (php_rinit sample_ae True) sample_state = (out, s') \<and>
     open_fds (trace s') =
       (if dd_conn_connected (conn (mgr s')) then {#socket (conn (mgr s'))#} else {#}) +
       (if launch_failure_fd_lock s' \<noteq> -1 then {#launch_failure_fd_lock s'#} else {#})"
proof -
  obtain out s' where run: "run_state (php_rinit sample_ae True) sample_state = (out, s')"
    by (metis prod.exhaust)
  have "appsec_reachable sample_command_env sample_state"
    by (rule appsec_reachable.started) (simp_all add: sample_state_def)
  from appsec_reachable.rinit [OF this sample_ae_sys(2) run]
  have "appsec_reachable sample_command_env s'" .
  from extension_descriptors [OF this] sample_env_ok(2) sample_parent run
  show ?thesis by (auto simp: sample_command_env_def)
qed

text \<open>
  Property C2: the handlers refine the activation machine. After the start of a request the extension
  is off if the configuration, the tracer or the SAPI says so, on if the configuration says so, and only
  where the configuration leaves it open does the answer of the helper decide; the end of the request
  changes it by the same rule, and the reported state is the one of the machine.
\<close>

theorem activation_refined:
  assumes "run_state (php_rinit ae first) s = (out, s1)" "run_state (php_rshutdown ae') s1 = (out', s2)"
  shows "reaches (configured (ae_enabled ae) (ts_testing s) (dd_trace_enabled s) (sapi_name s)) (activation_of s1) \<and>
    reaches (activation_of s1) (activation_of s2) \<and>
    (datadog_appsec_is_enabled s1 \<longleftrightarrow> active (activation_of s1)) \<and>
    (datadog_appsec_is_enabled s2 \<longleftrightarrow> active (activation_of s2))"
proof -
  note r1 = rinit_refines [OF assms(1)]
  note r2 = rshutdown_refines [OF assms(2) conjunct2 [OF r1]]
  from r1 r2 show ?thesis by (simp add: active_enabled datadog_appsec_is_enabled_def)
qed

theorem activation_refined_witness:
  "\<exists>out s1. run_state (php_rinit sample_ae True) sample_state = (out, s1) \<and>
     activation_of s1 = On \<and> datadog_appsec_is_enabled s1"
proof -
  obtain out s1 where run: "run_state (php_rinit sample_ae True) sample_state = (out, s1)"
    by (metis prod.exhaust)
  obtain out' s2 where run': "run_state (php_rshutdown sample_ae) s1 = (out', s2)"
    by (metis prod.exhaust)
  have "configured (ae_enabled sample_ae) (ts_testing sample_state) (dd_trace_enabled sample_state)
      (sapi_name sample_state) = On"
    by (simp add: configured_def sample_ae_def sample_state_def dd_trace_enabled_def)
  with activation_refined [OF run run'] run show ?thesis by (auto simp: active_def)
qed



text \<open>
  Property C3: starting a request, or asking for a verdict on its user, writes no output, keeps the
  response code and lets the request go on, unless a command came back with a verdict to block or to
  redirect; then the request was marked as blocked, and all that follows is the abort of the request.
\<close>

theorem silent_unless_blocked:
  "wp (do_rinit ae) (\<lambda>out s'. output_frame s s' \<and> out \<noteq> Some Bailed_out \<or> blocked_by ae (ae_server ae) s out s') s \<and>
   wp (dd_find_and_apply_verdict_for_user (ae_cmd ae) (rshutdown_ignoring ae) server user_id)
     (\<lambda>out s'. output_frame s s' \<and> out \<noteq> Some Bailed_out \<or> blocked_by ae server s out s') s"
  using do_rinit_silent [of ae s] user_verdict_silent [of ae server user_id s]
  unfolding silent_or_blocked_def by blast



text \<open>
  When nothing of the response was sent, a blocked request gets the configured response
  code and exactly one page: all headers and output so far are dropped, then the content type and the
  custom or built-in page of the chosen type are written and flushed, before anything else. Without a
  chosen type it is the one of the Accept header.
\<close>

theorem blocked_page_served:
  assumes "\<not> headers_sent s"
    and "t = (if block_response_type s = response_type_auto then get_response_type_from_accept_header server
              else block_response_type s)"
    and "run_state (apply_blocking (rshutdown_ignoring ae) server dd_should_block) s = (out, s')"
  shows "http_response_code s' = block_response_code s \<and>
    (\<exists>rest. sapi_ops s' = sapi_ops s @ [Header_delete_all, Output_discard_all] @ page_ops t s @ [Sapi_flush] @ rest)"
proof -
  have "s' = snd (request_abort_static_page (rshutdown_ignoring ae) server (block_response_code s)
      (block_response_type s) s)"
    using assms(3) by (simp add: apply_blocking_def dd_request_abort_static_page_def)
  then show ?thesis
    using ri.static_page_served [OF assms(1,2), where ae = ae and code = "block_response_code s"] by simp
qed

theorem blocked_page_served_witness:
  "http_response_code (snd (run_state (apply_blocking (rshutdown_ignoring sample_ae) None dd_should_block)
     sample_state)) = 403"
proof -
  obtain out s' where run: "run_state (apply_blocking (rshutdown_ignoring sample_ae) None dd_should_block)
      sample_state = (out, s')" by (metis prod.exhaust)
  have "\<not> headers_sent sample_state" by (simp add: sample_state_def)
  from blocked_page_served [OF this refl run] run show ?thesis
    by (simp add: sample_state_def DEFAULT_BLOCKING_RESPONSE_CODE_def)
qed



text \<open>
  The order in which modules are started is a rearrangement of the one PHP chose, in which
  ddtrace does not come after ddappsec.
\<close>

theorem sort_modules_order:
  assumes "distinct ms"
  shows "mset (ddappsec_sort_modules ms) = mset ms \<and>
    (\<forall>xs ys. ddappsec_sort_modules ms = xs @ ''ddappsec'' # ys \<longrightarrow> ''ddtrace'' \<notin> set ys)"
  using assms by (rule sort_modules_sorted)

theorem sort_modules_order_witness:
  "ddappsec_sort_modules [''ddappsec'', ''core'', ''ddtrace''] = [''ddtrace'', ''core'', ''ddappsec''] \<and>
   mset (ddappsec_sort_modules [''ddappsec'', ''core'', ''ddtrace'']) = mset [''ddappsec'', ''core'', ''ddtrace'']"
  using sort_modules_order [of "[''ddappsec'', ''core'', ''ddtrace'']"] by (simp add: ddappsec_sort_modules_def)

end
